(* ===== verification/Programs.thy ===== *)
theory Programs
  imports Main
begin

text \<open>
  Goroutines that share a state, for any type \<open>'s\<close> of states and any type \<open>'r\<close> of answers. A program is a tree of atomic actions, each a
  function of the shared state: one per critical section of the source. \<open>alone\<close> runs a program without interference. \<open>gstep\<close> interleaves any number of programs, given
  by the program of a job and by the condition under which a job starts; \<open>grun\<close> is the sequence of states of such an execution.

  Rely-guarantee: \<open>guarantees\<close> tells what each action of a program does, \<open>takes\<close> that a program succeeds only after it took something, \<open>brings_once\<close> that it brings it at
  most once. Locale \<open>rely\<close> gives invariants of all interleavings, locale \<open>metered\<close> bounds how often something is taken. \<open>within\<close> restricts programs to executions whose states
  have a property.
\<close>

section \<open>Programs\<close>

datatype ('s, 'r) prog = Reply 'r | Finish | Act "'s \<Rightarrow> ('s, 'r) prog \<times> 's"

definition get :: "('s \<Rightarrow> 'a) \<Rightarrow> ('a \<Rightarrow> ('s, 'r) prog) \<Rightarrow> ('s, 'r) prog" where
  "get f k = Act (\<lambda>s. (k (f s), s))"

definition update :: "('s \<Rightarrow> 'a \<times> 's) \<Rightarrow> ('a \<Rightarrow> ('s, 'r) prog) \<Rightarrow> ('s, 'r) prog" where
  "update f k = Act (\<lambda>s. case f s of (x, s') \<Rightarrow> (k x, s'))"

definition modify :: "('s \<Rightarrow> 's) \<Rightarrow> ('s, 'r) prog \<Rightarrow> ('s, 'r) prog" where
  "modify f p = update (\<lambda>s. ((), f s)) (\<lambda>_. p)"

primrec alone :: "('s, 'r) prog \<Rightarrow> 's \<Rightarrow> 'r option \<times> 's" where
  "alone (Reply resp) = (\<lambda>s. (Some resp, s))"
| "alone Finish = (\<lambda>s. (None, s))"
| "alone (Act a) = (\<lambda>s. case (map_prod alone id \<circ> a) s of (rest, s') \<Rightarrow> rest s')"

lemma alone_get [simp]: "alone (get f k) s = alone (k (f s)) s"
  by (simp add: get_def)

lemma alone_update [simp]: "alone (update f k) s = (case f s of (x, s') \<Rightarrow> alone (k x) s')"
  by (simp add: update_def split: prod.splits)

lemma alone_modify [simp]: "alone (modify f p) s = alone p (f s)"
  by (simp add: modify_def)

fun ended :: "'r option \<Rightarrow> ('s, 'r) prog" where
  "ended (Some resp) = Reply resp"
| "ended None = Finish"

section \<open>What programs guarantee\<close>

primrec guarantees :: "('s \<Rightarrow> bool) \<Rightarrow> ('s \<Rightarrow> 's \<Rightarrow> bool) \<Rightarrow> ('s, 'r) prog \<Rightarrow> bool" where
  "guarantees I R (Reply resp) = True"
| "guarantees I R Finish = True"
| "guarantees I R (Act a) = (\<forall>s. I s \<longrightarrow> R s (snd (a s)) \<and> fst ((map_prod (guarantees I R) id \<circ> a) s))"

text \<open>Every answer for which \<open>ok\<close> holds comes after an action of the kind \<open>T\<close>, as long as the state has the property \<open>I\<close> whenever the program acts.\<close>

primrec takes :: "('r \<Rightarrow> bool) \<Rightarrow> ('s \<Rightarrow> bool) \<Rightarrow> ('s \<Rightarrow> 's \<Rightarrow> bool) \<Rightarrow> ('s, 'r) prog \<Rightarrow> bool" where
  "takes ok I T (Reply resp) = (\<not> ok resp)"
| "takes ok I T Finish = True"
| "takes ok I T (Act a) = (\<forall>s. I s \<longrightarrow> T s (snd (a s)) \<or> fst ((map_prod (takes ok I T) id \<circ> a) s))"

text \<open>A program that undoes \<open>gone\<close> at most once, under the same condition.\<close>

abbreviation lasting :: "('s \<Rightarrow> bool) \<Rightarrow> 's \<Rightarrow> 's \<Rightarrow> bool" where
  "lasting gone s s' \<equiv> gone s \<longrightarrow> gone s'"

primrec brings_once :: "('s \<Rightarrow> bool) \<Rightarrow> ('s \<Rightarrow> bool) \<Rightarrow> ('s, 'r) prog \<Rightarrow> bool" where
  "brings_once I gone (Reply resp) = True"
| "brings_once I gone Finish = True"
| "brings_once I gone (Act a) =
     (\<forall>s. I s \<longrightarrow> (lasting gone s (snd (a s)) \<or> guarantees I (lasting gone) (fst (a s))) \<and>
        fst ((map_prod (brings_once I gone) id \<circ> a) s))"

lemma guarantees_get [simp]: "guarantees I R (get f k) \<longleftrightarrow> (\<forall>s. I s \<longrightarrow> R s s \<and> guarantees I R (k (f s)))"
  by (simp add: get_def)

lemma guarantees_update [simp]:
  "guarantees I R (update f k) \<longleftrightarrow> (\<forall>s. I s \<longrightarrow> R s (snd (f s)) \<and> guarantees I R (k (fst (f s))))"
  by (simp add: update_def case_prod_beta)

lemma guarantees_modify [simp]: "guarantees I R (modify f p) \<longleftrightarrow> (\<forall>s. I s \<longrightarrow> R s (f s) \<and> guarantees I R p)"
  by (simp add: modify_def)

lemma takes_get [simp]: "takes ok I T (get f k) \<longleftrightarrow> (\<forall>s. I s \<longrightarrow> T s s \<or> takes ok I T (k (f s)))"
  by (simp add: get_def)

lemma takes_update [simp]:
  "takes ok I T (update f k) \<longleftrightarrow> (\<forall>s. I s \<longrightarrow> T s (snd (f s)) \<or> takes ok I T (k (fst (f s))))"
  by (simp add: update_def case_prod_beta)

lemma takes_modify [simp]: "takes ok I T (modify f p) \<longleftrightarrow> (\<forall>s. I s \<longrightarrow> T s (f s) \<or> takes ok I T p)"
  by (simp add: modify_def)

lemma brings_once_get [simp]: "brings_once I gone (get f k) \<longleftrightarrow> (\<forall>s. I s \<longrightarrow> brings_once I gone (k (f s)))"
  by (simp add: get_def)

lemma brings_once_update [simp]:
  "brings_once I gone (update f k) \<longleftrightarrow> (\<forall>s. I s \<longrightarrow>
     (lasting gone s (snd (f s)) \<or> guarantees I (lasting gone) (k (fst (f s)))) \<and> brings_once I gone (k (fst (f s))))"
  by (simp add: update_def case_prod_beta)

lemma brings_once_modify [simp]:
  "brings_once I gone (modify f p) \<longleftrightarrow>
     (\<forall>s. I s \<longrightarrow> (lasting gone s (f s) \<or> guarantees I (lasting gone) p) \<and> brings_once I gone p)"
  by (simp add: modify_def)

lemma guarantees_Act: "guarantees I R (Act a) \<Longrightarrow> I s \<Longrightarrow> a s = (p, s') \<Longrightarrow> R s s' \<and> guarantees I R p"
  by (drule spec [of _ s, OF iffD1 [OF guarantees.simps(3)]]) simp

lemma takes_Act: "takes ok I T (Act a) \<Longrightarrow> I s \<Longrightarrow> a s = (p, s') \<Longrightarrow> T s s' \<or> takes ok I T p"
  by (drule spec [of _ s, OF iffD1 [OF takes.simps(3)]]) simp

lemma brings_once_Act:
  "brings_once I gone (Act a) \<Longrightarrow> I s \<Longrightarrow> a s = (p, s') \<Longrightarrow>
     (lasting gone s s' \<or> guarantees I (lasting gone) p) \<and> brings_once I gone p"
  by (drule spec [of _ s, OF iffD1 [OF brings_once.simps(3)]]) simp

text \<open>Weaker conditions and larger relations.\<close>

lemma guarantees_mono: "guarantees I R p \<Longrightarrow> (\<And>s. I' s \<Longrightarrow> I s) \<Longrightarrow> (\<And>s s'. R s s' \<Longrightarrow> R' s s') \<Longrightarrow> guarantees I' R' p"
proof (induction p)
  case (Act a)
  have "guarantees I R (fst (a s)) \<and> R s (snd (a s))" if "I' s" for s
    using guarantees_Act [OF Act.prems(1) Act.prems(2) [OF that], of "fst (a s)" "snd (a s)"] by simp
  then show ?case using Act.IH Act.prems by (simp add: fsts.simps)
qed simp_all

lemma takes_mono: "takes ok I T p \<Longrightarrow> (\<And>s. I' s \<Longrightarrow> I s) \<Longrightarrow> (\<And>s s'. I' s \<Longrightarrow> T s s' \<Longrightarrow> T' s s') \<Longrightarrow> takes ok I' T' p"
proof (induction p)
  case (Act a)
  have "takes ok I T (fst (a s)) \<or> T s (snd (a s))" if "I' s" for s
    using takes_Act [OF Act.prems(1) Act.prems(2) [OF that], of "fst (a s)" "snd (a s)"] by auto
  moreover have "takes ok I' T' (fst (a s))" if "takes ok I T (fst (a s))" for s
    using Act.IH [of "a s" "fst (a s)"] Act.prems(2,3) that by (simp add: fsts.simps)
  ultimately show ?case using Act.prems(3) by auto
qed simp_all

section \<open>Interleaving\<close>

text \<open>The shared state and the goroutines, in the order they were started, each with its job and the rest of its program. A goroutine starts, or
  one of them takes its next action.\<close>

type_synonym ('s, 'r, 'j) system = "'s \<times> ('j \<times> ('s, 'r) prog) list"

inductive gstep :: "('j \<Rightarrow> ('s, 'r) prog) \<Rightarrow> ('s \<Rightarrow> 'j \<Rightarrow> bool) \<Rightarrow> ('s, 'r, 'j) system \<Rightarrow> ('s, 'r, 'j) system \<Rightarrow> bool"
  for code can_start where
  starts: "can_start s j \<Longrightarrow> gstep code can_start (s, ts) (s, ts @ [(j, code j)])"
| acts: "i < length ts \<Longrightarrow> ts ! i = (j, Act a) \<Longrightarrow> a s = (p, s') \<Longrightarrow> gstep code can_start (s, ts) (s', ts[i := (j, p)])"

inductive grun :: "('j \<Rightarrow> ('s, 'r) prog) \<Rightarrow> ('s \<Rightarrow> 'j \<Rightarrow> bool) \<Rightarrow> 's \<Rightarrow> ('s, 'r, 'j) system list \<Rightarrow> bool"
  for code can_start s0 where
  begin_with: "grun code can_start s0 [(s0, [])]"
| then_step: "grun code can_start s0 tr \<Longrightarrow> gstep code can_start (last tr) sys \<Longrightarrow> grun code can_start s0 (tr @ [sys])"

definition jobs_of :: "('s, 'r, 'j) system \<Rightarrow> 'j set" where
  "jobs_of sys = fst ` set (snd sys)"

lemma execution_nonempty: "grun code can_start s0 tr \<Longrightarrow> tr \<noteq> []"
  by (induction rule: grun.induct) auto

lemma jobs_grow: "gstep code can_start sys sys' \<Longrightarrow> jobs_of sys \<subseteq> jobs_of sys'"
proof (induction rule: gstep.induct)
  case (acts i ts j a s p s')
  then have "fst (ts ! i) = j" by simp
  then have "map fst (ts[i := (j, p)]) = map fst ts" by (metis fst_conv list_update_id map_update)
  then have "fst ` set (ts[i := (j, p)]) = fst ` set ts" by (metis set_map)
  then show ?case by (simp add: jobs_of_def)
qed (auto simp: jobs_of_def)

text \<open>What holds at the end of every execution holds throughout.\<close>

lemma execution_prefix:
  "grun code can_start s0 tr \<Longrightarrow> sys \<in> set tr \<Longrightarrow> \<exists>tr'. grun code can_start s0 tr' \<and> last tr' = sys \<and> jobs_of sys \<subseteq> jobs_of (last tr)"
proof (induction rule: grun.induct)
  case begin_with
  then show ?case using grun.begin_with [of code can_start s0] by (auto simp: jobs_of_def intro!: exI [of _ "[(s0, [])]"])
next
  case (then_step tr sys')
  consider "sys \<in> set tr" | "sys = sys'" using then_step.prems by auto
  then show ?case
  proof cases
    case 1
    then show ?thesis using then_step jobs_grow [OF then_step.hyps(2)] by fastforce
  next
    case 2
    then show ?thesis using grun.then_step [OF then_step.hyps] by fastforce
  qed
qed

lemma execution_jobs:
  "grun code can_start s0 tr \<Longrightarrow> sys \<in> set tr \<Longrightarrow> jobs_of sys \<subseteq> jobs_of (last tr)"
proof (induction rule: grun.induct)
  case (then_step tr sys')
  then show ?case using jobs_grow [OF then_step.hyps(2)] by auto
qed (simp add: jobs_of_def)

text \<open>From every moment of an execution on, a goroutine may run to its end, or a job start and run to its end, with nothing in between.\<close>

lemma goroutine_runs:
  "grun code can_start s0 tr \<Longrightarrow> last tr = (s, ts) \<Longrightarrow> i < length ts \<Longrightarrow> ts ! i = (j, p) \<Longrightarrow>
     \<exists>tr'. grun code can_start s0 (tr @ tr') \<and> last (tr @ tr') = (snd (alone p s), ts[i := (j, ended (fst (alone p s)))])"
proof (induction p arbitrary: tr s ts)
  case (Act a)
  obtain p s' where a: "a s = (p, s')" by fastforce
  let ?sys = "(s', ts[i := (j, p)])"
  have "grun code can_start s0 (tr @ [?sys])" using Act.prems a by (intro grun.then_step) (auto intro: gstep.acts)
  moreover have "a s \<in> range a" by simp
  moreover have "p \<in> Basic_BNFs.fsts (a s)" using a by simp
  ultimately have "\<exists>tr'. grun code can_start s0 ((tr @ [?sys]) @ tr') \<and>
      last ((tr @ [?sys]) @ tr') = (snd (alone p s'), ts[i := (j, p), i := (j, ended (fst (alone p s')))])"
    using Act.prems(3) by (intro Act.IH) auto
  then show ?case using a by (auto simp del: append.simps)
qed (auto intro!: exI [of _ "[]"] list_update_same_conv [THEN iffD2, symmetric])

lemma job_runs:
  assumes "grun code can_start s0 tr" and "last tr = (s, ts)" and "can_start s j"
  shows "\<exists>tr'. grun code can_start s0 (tr @ tr') \<and> last (tr @ tr') = (snd (alone (code j) s), ts @ [(j, ended (fst (alone (code j) s)))])"
proof -
  let ?sys = "(s, ts @ [(j, code j)])"
  have "grun code can_start s0 (tr @ [?sys])" using assms by (intro grun.then_step) (auto intro: gstep.starts)
  then show ?thesis
    using goroutine_runs [of code can_start s0 "tr @ [?sys]" s "ts @ [(j, code j)]" "length ts" j "code j"] by fastforce
qed

text \<open>Jobs one after the other.\<close>

fun all_start :: "('j \<Rightarrow> ('s, 'r) prog) \<Rightarrow> ('s \<Rightarrow> 'j \<Rightarrow> bool) \<Rightarrow> 'j list \<Rightarrow> 's \<Rightarrow> bool" where
  "all_start code can_start [] s \<longleftrightarrow> True"
| "all_start code can_start (j # js) s \<longleftrightarrow> can_start s j \<and> all_start code can_start js (snd (alone (code j) s))"

primrec in_turn :: "('j \<Rightarrow> ('s, 'r) prog) \<Rightarrow> 'j list \<Rightarrow> ('s, 'r, 'j) system \<Rightarrow> ('s, 'r, 'j) system" where
  "in_turn code [] sys = sys"
| "in_turn code (j # js) sys =
     in_turn code js (snd (alone (code j) (fst sys)), snd sys @ [(j, ended (fst (alone (code j) (fst sys))))])"

lemma in_turn_runs:
  "grun code can_start s0 tr \<Longrightarrow> all_start code can_start js (fst (last tr)) \<Longrightarrow>
     \<exists>tr'. grun code can_start s0 (tr @ tr') \<and> last (tr @ tr') = in_turn code js (last tr)"
proof (induction js arbitrary: tr)
  case (Cons j js)
  obtain s ts where sys: "last tr = (s, ts)" by fastforce
  then have d: "can_start s j" "all_start code can_start js (snd (alone (code j) s))" using Cons.prems(2) by simp_all
  obtain tr1 where tr1: "grun code can_start s0 (tr @ tr1)"
    "last (tr @ tr1) = (snd (alone (code j) s), ts @ [(j, ended (fst (alone (code j) s)))])"
    using job_runs [OF Cons.prems(1) sys d(1)] by blast
  show ?case using Cons.IH [OF tr1(1)] tr1(2) d(2) sys by (metis append.assoc fst_conv in_turn.simps(2) snd_conv)
qed (auto intro: exI [of _ "[]"])

lemma begin_in_turn: "all_start code can_start js s0 \<Longrightarrow> \<exists>tr. grun code can_start s0 tr \<and> last tr = in_turn code js (s0, [])"
  using in_turn_runs [OF grun.begin_with, of code can_start js s0] by auto

text \<open>A goroutine takes some of its actions, with nothing in between.\<close>

fun advance :: "nat \<Rightarrow> ('s, 'r) prog \<Rightarrow> 's \<Rightarrow> ('s, 'r) prog \<times> 's" where
  "advance (Suc n) (Act a) s = (case a s of (p, s') \<Rightarrow> advance n p s')"
| "advance n p s = (p, s)"

lemma advance_get [simp]: "advance (Suc n) (get f k) s = advance n (k (f s)) s"
  by (simp add: get_def)

lemma advance_update [simp]: "advance (Suc n) (update f k) s = advance n (k (fst (f s))) (snd (f s))"
  by (simp add: update_def case_prod_beta)

lemma advance_modify [simp]: "advance (Suc n) (modify f p) s = advance n p (f s)"
  by (simp add: modify_def)

lemma goroutine_advances:
  "grun code can_start s0 tr \<Longrightarrow> last tr = (s, ts) \<Longrightarrow> i < length ts \<Longrightarrow> ts ! i = (j, p) \<Longrightarrow>
     \<exists>tr'. grun code can_start s0 (tr @ tr') \<and> last (tr @ tr') = (snd (advance n p s), ts[i := (j, fst (advance n p s))])"
proof (induction n p s arbitrary: tr ts rule: advance.induct)
  case (1 n a s)
  obtain p s' where a: "a s = (p, s')" by fastforce
  let ?sys = "(s', ts[i := (j, p)])"
  have "grun code can_start s0 (tr @ [?sys])" using "1.prems" a by (intro grun.then_step) (auto intro: gstep.acts)
  then have "\<exists>tr'. grun code can_start s0 ((tr @ [?sys]) @ tr') \<and>
      last ((tr @ [?sys]) @ tr') = (snd (advance n p s'), ts[i := (j, p), i := (j, fst (advance n p s'))])"
    using "1.prems"(3) a by (intro "1.IH") auto
  then show ?case using a by (auto simp del: append.simps)
qed (auto intro!: exI [of _ "[]"] list_update_same_conv [THEN iffD2, symmetric])

text \<open>The systems an execution can come to, one goroutine at a time.\<close>

definition reached :: "('j \<Rightarrow> ('s, 'r) prog) \<Rightarrow> ('s \<Rightarrow> 'j \<Rightarrow> bool) \<Rightarrow> 's \<Rightarrow> ('s, 'r, 'j) system \<Rightarrow> bool" where
  "reached code can_start s0 sys \<longleftrightarrow> (\<exists>tr. grun code can_start s0 tr \<and> last tr = sys)"

lemma reached_begin: "reached code can_start s0 (s0, [])"
  unfolding reached_def using grun.begin_with by fastforce

lemma reached_job:
  "reached code can_start s0 (s, ts) \<Longrightarrow> can_start s j \<Longrightarrow> alone (code j) s = (r, s') \<Longrightarrow> reached code can_start s0 (s', ts @ [(j, ended r)])"
  unfolding reached_def using job_runs [of code can_start s0 _ s ts j] by fastforce

lemma reached_start:
  assumes "reached code can_start s0 (s, ts)" and "can_start s j"
  shows "reached code can_start s0 (s, ts @ [(j, code j)])"
proof -
  obtain tr where tr: "grun code can_start s0 tr" "last tr = (s, ts)" using assms(1) by (auto simp: reached_def)
  then have "grun code can_start s0 (tr @ [(s, ts @ [(j, code j)])])" using assms(2) by (intro grun.then_step) (auto intro: gstep.starts)
  then show ?thesis unfolding reached_def by fastforce
qed

lemma reached_advance:
  "reached code can_start s0 (s, ts) \<Longrightarrow> i < length ts \<Longrightarrow> ts ! i = (j, p) \<Longrightarrow> advance n p s = (p', s') \<Longrightarrow>
     reached code can_start s0 (s', ts[i := (j, p')])"
  unfolding reached_def using goroutine_advances [of code can_start s0 _ s ts i j p n] by fastforce

lemma reached_run:
  "reached code can_start s0 (s, ts) \<Longrightarrow> i < length ts \<Longrightarrow> ts ! i = (j, p) \<Longrightarrow> alone p s = (r, s') \<Longrightarrow>
     reached code can_start s0 (s', ts[i := (j, ended r)])"
  unfolding reached_def using goroutine_runs [of code can_start s0 _ s ts i j p] by fastforce

section \<open>Executions within bounds\<close>

text \<open>A program that stops at the first state without \<open>H\<close>. An execution all of whose states have \<open>H\<close> is one of the programs so restricted.\<close>

primrec within :: "('s \<Rightarrow> bool) \<Rightarrow> ('s, 'r) prog \<Rightarrow> ('s, 'r) prog" where
  "within H (Reply resp) = Reply resp"
| "within H Finish = Finish"
| "within H (Act a) = Act (\<lambda>s. case (map_prod (within H) id \<circ> a) s of (p, s') \<Rightarrow> (if H s' then p else Finish, s'))"

lemma within_get: "within H (get f k) = Act (\<lambda>s. (if H s then within H (k (f s)) else Finish, s))"
  by (simp add: get_def)

lemma within_update: "within H (update f k) = Act (\<lambda>s. (if H (snd (f s)) then within H (k (fst (f s))) else Finish, snd (f s)))"
  by (auto simp: update_def case_prod_beta)

lemma guarantees_within: "guarantees I R p \<Longrightarrow> guarantees I R (within H p)"
proof (induction p)
  case (Act a)
  have "guarantees I R (within H (fst (a s))) \<and> R s (snd (a s))" if "I s" for s
    using guarantees_Act [OF Act.prems that, of "fst (a s)" "snd (a s)"] Act.IH [of "a s" "fst (a s)"] by (simp add: fsts.simps)
  then show ?case by (simp add: case_prod_beta)
qed simp_all

lemma takes_within: "takes ok I T p \<Longrightarrow> takes ok I T (within H p)"
proof (induction p)
  case (Act a)
  have "takes ok I T (within H (fst (a s))) \<or> T s (snd (a s))" if "I s" for s
    using takes_Act [OF Act.prems that, of "fst (a s)" "snd (a s)"] Act.IH [of "a s" "fst (a s)"] by (auto simp: fsts.simps)
  then show ?case by (auto simp: case_prod_beta)
qed simp_all

definition within_system :: "('s \<Rightarrow> bool) \<Rightarrow> ('s, 'r, 'j) system \<Rightarrow> ('s, 'r, 'j) system" where
  "within_system H sys = (fst sys, map (\<lambda>(j, p). (j, within H p)) (snd sys))"

lemma jobs_of_within [simp]: "jobs_of (within_system H sys) = jobs_of sys"
  by (force simp: jobs_of_def within_system_def)

lemma gstep_within:
  assumes "gstep code can_start sys sys'" and "H (fst sys')"
  shows "gstep (\<lambda>j. within H (code j)) can_start (within_system H sys) (within_system H sys')"
  using assms(1)
proof cases
  case (starts s j ts)
  then show ?thesis using gstep.starts [of can_start s j "\<lambda>j. within H (code j)"] by (simp add: within_system_def)
next
  case (acts i ts j a s p s')
  let ?ts = "map (\<lambda>(j, p). (j, within H p)) ts"
  have "?ts ! i = (j, within H (Act a))" "i < length ?ts" using acts by simp_all
  then have "gstep (\<lambda>j. within H (code j)) can_start (s, ?ts) (s', ?ts[i := (j, within H p)])"
    using acts assms(2) by (intro gstep.acts [where a = "\<lambda>s. case map_prod (within H) id (a s) of (p, s') \<Rightarrow> (if H s' then p else Finish, s')"])
      (simp_all add: comp_def)
  then show ?thesis using acts by (simp add: within_system_def map_update)
qed

lemma grun_within:
  "grun code can_start s0 tr \<Longrightarrow> (\<And>sys. sys \<in> set tr \<Longrightarrow> H (fst sys)) \<Longrightarrow>
     grun (\<lambda>j. within H (code j)) can_start s0 (map (within_system H) tr)"
proof (induction rule: grun.induct)
  case begin_with
  then show ?case using grun.begin_with by (simp add: within_system_def)
next
  case (then_step tr sys)
  have "gstep (\<lambda>j. within H (code j)) can_start (last (map (within_system H) tr)) (within_system H sys)"
    using gstep_within [OF then_step.hyps(2)] then_step.prems execution_nonempty [OF then_step.hyps(1)] by (simp add: last_map)
  then show ?case using then_step by (simp add: grun.then_step)
qed

section \<open>The history of a goroutine\<close>

text \<open>A program after actions that found the given states.\<close>

fun after :: "('s, 'r) prog \<Rightarrow> 's list \<Rightarrow> ('s, 'r) prog" where
  "after p [] = p"
| "after (Act a) (s # ss) = after (fst (a s)) ss"
| "after (Reply resp) (s # ss) = Reply resp"
| "after Finish (s # ss) = Finish"

lemma after_snoc: "after p ss = Act a \<Longrightarrow> after p (ss @ [s]) = fst (a s)"
  by (induction p ss rule: after.induct) auto

lemma after_get: "after (get f k) ss = Reply resp \<longleftrightarrow> (\<exists>s ss'. ss = s # ss' \<and> after (k (f s)) ss' = Reply resp)"
  by (cases ss) (simp_all add: get_def)

lemma after_update: "after (update f k) ss = Reply resp \<longleftrightarrow> (\<exists>s ss'. ss = s # ss' \<and> after (k (fst (f s))) ss' = Reply resp)"
  by (cases ss) (simp_all add: update_def case_prod_beta)

lemma after_modify: "after (modify f p) ss = Reply resp \<longleftrightarrow> (\<exists>s ss'. ss = s # ss' \<and> after p ss' = Reply resp)"
  by (simp add: modify_def after_update)

lemma after_Reply: "after (Reply resp) ss = Reply resp' \<longleftrightarrow> resp' = resp"
  by (cases ss) auto

lemma after_takes: "takes (\<lambda>resp. resp = out) (\<lambda>s. True) (\<lambda>s s'. False) p \<Longrightarrow> after p ss \<noteq> Reply out"
  by (induction p ss rule: after.induct) auto

text \<open>A goroutine that had not started at the moment \<open>n\<close> acts on states after that moment, one after the other.\<close>

lemma goroutine_history:
  "grun code can_start s0 tr \<Longrightarrow> n < length tr \<Longrightarrow> length (snd (tr ! n)) \<le> i \<Longrightarrow> i < length (snd (last tr)) \<Longrightarrow> snd (last tr) ! i = (j, p) \<Longrightarrow>
     \<exists>ks. sorted_wrt (<) ks \<and> (\<forall>k \<in> set ks. n < k \<and> Suc k < length tr) \<and> p = after (code j) (map (\<lambda>k. fst (tr ! k)) ks)"
proof (induction arbitrary: p rule: grun.induct)
  case (then_step tr sys)
  have ne: "tr \<noteq> []" using execution_nonempty then_step.hyps(1) .
  have n: "n < length tr" "length (snd (tr ! n)) \<le> i" using then_step.prems by (auto simp: nth_append less_Suc_eq split: if_splits)
  have old: "\<exists>ks. sorted_wrt (<) ks \<and> (\<forall>k \<in> set ks. n < k \<and> Suc k < length tr) \<and>
      q = after (code j) (map (\<lambda>k. fst ((tr @ [sys]) ! k)) ks)" if thread: "i < length (snd (last tr))" "snd (last tr) ! i = (j, q)" for q
  proof -
    obtain ks where ks: "sorted_wrt (<) ks" "\<forall>k \<in> set ks. n < k \<and> Suc k < length tr" "q = after (code j) (map (\<lambda>k. fst (tr ! k)) ks)"
      using then_step.IH [OF n thread] by blast
    have "map (\<lambda>k. fst ((tr @ [sys]) ! k)) ks = map (\<lambda>k. fst (tr ! k)) ks" using ks(2) by (auto simp: nth_append)
    then show ?thesis using ks by metis
  qed
  have weaken: ?case if "i < length (snd (last tr))" "snd (last tr) ! i = (j, p)" using old [OF that] by fastforce
  from then_step.hyps(2) show ?case
  proof cases
    case (starts s j' ts)
    show ?thesis
    proof (cases "i < length ts")
      case True
      then show ?thesis using weaken starts then_step.prems(4) by (simp add: nth_append)
    next
      case False
      then have "p = code j" using starts then_step.prems(3,4) by (auto simp: nth_append less_Suc_eq)
      then show ?thesis by (intro exI [of _ "[]"]) simp
    qed
  next
    case (acts i' ts j' a s p' s')
    show ?thesis
    proof (cases "i = i'")
      case True
      then have p: "p = p'" "j = j'" and q: "snd (last tr) ! i = (j, Act a)" and i: "i < length (snd (last tr))"
        using acts then_step.prems(3,4) by auto
      obtain ks where ks: "sorted_wrt (<) ks" "\<forall>k \<in> set ks. n < k \<and> Suc k < length tr"
        "Act a = after (code j) (map (\<lambda>k. fst ((tr @ [sys]) ! k)) ks)" using old [OF i q] by blast
      let ?k = "length tr - 1"
      have s: "(tr @ [sys]) ! ?k = (s, ts)" using ne acts(1) by (simp add: nth_append last_conv_nth)
      have "n \<noteq> ?k" using n(2) i acts(1) ne by (auto simp: last_conv_nth)
      then have "n < ?k" using n(1) by simp
      moreover have "sorted_wrt (<) (ks @ [?k])" using ks(1,2) by (auto simp: sorted_wrt_append)
      moreover have "p = after (code j) (map (\<lambda>k. fst ((tr @ [sys]) ! k)) (ks @ [?k]))"
        using after_snoc [OF ks(3) [symmetric], of s] s acts(5) p by simp
      ultimately show ?thesis using ks(2) ne by (intro exI [of _ "ks @ [?k]"]) auto
    next
      case False
      then show ?thesis using weaken acts then_step.prems(3,4) by simp
    qed
  qed
qed simp

section \<open>Invariants\<close>

text \<open>\<open>effect j s s'\<close> is what one action of a job can do in states with the property \<open>I\<close>; the programs do nothing else. What every effect of the
  admissible jobs keeps is an invariant of every interleaving of them.\<close>

locale rely =
  fixes code :: "'j \<Rightarrow> ('s, 'r) prog" and can_start :: "'s \<Rightarrow> 'j \<Rightarrow> bool" and I :: "'s \<Rightarrow> bool" and effect :: "'j \<Rightarrow> 's \<Rightarrow> 's \<Rightarrow> bool"
    and admissible :: "'j \<Rightarrow> bool" and J :: "'s \<Rightarrow> bool"
  assumes guaranteed: "guarantees I (effect j) (code j)"
    and kept_I: "admissible j \<Longrightarrow> effect j s s' \<Longrightarrow> I s \<Longrightarrow> I s'"
    and stable: "admissible j \<Longrightarrow> effect j s s' \<Longrightarrow> I s \<Longrightarrow> J s \<Longrightarrow> J s'"
begin

definition good :: "'s \<Rightarrow> bool" where
  "good s \<longleftrightarrow> I s \<and> J s"

lemma good_effect: "admissible j \<Longrightarrow> effect j s s' \<Longrightarrow> good s \<Longrightarrow> good s'"
  unfolding good_def using kept_I stable by blast

definition kept :: "('s, 'r, 'j) system \<Rightarrow> bool" where
  "kept sys \<longleftrightarrow> good (fst sys) \<and> (\<forall>(j, p) \<in> set (snd sys). guarantees I (effect j) p)"

lemma kept_step:
  assumes "gstep code can_start sys sys'" and "kept sys" and "\<And>j. j \<in> jobs_of sys' \<Longrightarrow> admissible j"
  shows "kept sys'"
  using assms(1)
proof cases
  case (starts s j ts)
  then show ?thesis using assms(2) guaranteed by (auto simp: kept_def)
next
  case (acts i ts j a s p s')
  have g: "guarantees I (effect j) (Act a)" and s: "good s"
    using acts assms(2) nth_mem [of i ts] by (auto simp: kept_def)
  have e: "effect j s s'" and p: "guarantees I (effect j) p"
    using guarantees_Act [OF g _ acts(5)] s by (auto simp: good_def)
  have "j \<in> jobs_of sys'" using acts set_update_memI [of i ts] by (force simp: jobs_of_def)
  then have "good s'" using e s assms(3) good_effect by blast
  then show ?thesis using acts assms(2) p set_update_subset_insert [of ts i "(j, p)"] by (auto simp: kept_def)
qed

lemma execution_kept:
  "grun code can_start s0 tr \<Longrightarrow> good s0 \<Longrightarrow> (\<And>j. j \<in> jobs_of (last tr) \<Longrightarrow> admissible j) \<Longrightarrow> kept (last tr)"
proof (induction rule: grun.induct)
  case (then_step tr sys)
  then have "kept (last tr)" using jobs_grow [OF then_step.hyps(2)] by auto
  then show ?case using kept_step then_step by simp
qed (simp add: kept_def)

end

section \<open>Things that are used up\<close>

lemma length_filter_mono: "(\<And>x. P x \<Longrightarrow> Q x) \<Longrightarrow> length (filter P xs) \<le> length (filter Q xs)"
  by (induction xs) auto

lemma length_filter_update:
  "i < length xs \<Longrightarrow> length (filter P (xs[i := x])) + of_bool (P (xs ! i)) = length (filter P xs) + of_bool (P x)"
proof (induction xs arbitrary: i)
  case (Cons y xs)
  then show ?case by (cases i) fastforce+
qed simp

lemma two_le_length_filter:
  assumes "i \<noteq> k" and "i < length xs" and "P (xs ! i)" and "k < length xs" and "P (xs ! k)"
  shows "2 \<le> length (filter P xs)"
proof -
  have "card {i, k} \<le> card {n. n < length xs \<and> P (xs ! n)}" using assms by (intro card_mono) auto
  then show ?thesis using assms(1) by (simp add: length_filter_conv_card)
qed

definition replied :: "('r \<Rightarrow> bool) \<Rightarrow> ('s, 'r) prog \<Rightarrow> bool" where
  "replied ok p \<longleftrightarrow> (\<exists>resp. p = Reply resp \<and> ok resp)"

lemma replied_Reply [simp]: "replied ok (Reply resp) \<longleftrightarrow> ok resp"
  by (auto simp: replied_def)

text \<open>Something that is there or gone. A job that succeeds only after it took it itself is a taker; only the jobs that are
  bringers bring it back, each of them at most once. Then at most as many takers succeed as there were bringers, and one more if it was there from the
  start.\<close>

locale metered = rely +
  fixes ok :: "'c \<Rightarrow> bool" and taker :: "'a \<Rightarrow> bool" and bringer :: "'a \<Rightarrow> bool" and gone :: "'b \<Rightarrow> bool"
  assumes lasts: "admissible j \<Longrightarrow> effect j s s' \<Longrightarrow> I s \<Longrightarrow> J s \<Longrightarrow> \<not> bringer j \<Longrightarrow> lasting gone s s'"
    and takers: "taker j \<Longrightarrow> admissible j \<Longrightarrow>
      takes ok (\<lambda>s. I s \<and> J s) (\<lambda>s s'. \<not> gone s \<and> gone s') (code j)"
    and bringers: "bringer j \<Longrightarrow> admissible j \<Longrightarrow> brings_once (\<lambda>s. I s \<and> J s) gone (code j)"
begin

definition has_taken :: "'a \<times> ('b, 'c) prog \<Rightarrow> bool" where
  "has_taken jp \<longleftrightarrow> taker (fst jp) \<and> \<not> takes ok good (\<lambda>s s'. \<not> gone s \<and> gone s') (snd jp)"

definition has_brought :: "'a \<times> ('b, 'c) prog \<Rightarrow> bool" where
  "has_brought jp \<longleftrightarrow> bringer (fst jp) \<and> guarantees good (lasting gone) (snd jp)"

definition balanced :: "'b \<Rightarrow> ('b, 'c, 'a) system \<Rightarrow> bool" where
  "balanced s0 sys \<longleftrightarrow>
     (\<forall>(j, p) \<in> set (snd sys). bringer j \<longrightarrow> brings_once good gone p) \<and>
     length (filter has_taken (snd sys)) + of_bool (\<not> gone (fst sys)) \<le> length (filter has_brought (snd sys)) + of_bool (\<not> gone s0)"

lemma balanced_step:
  assumes "gstep code can_start sys sys'" and "kept sys" and "balanced s0 sys" and "\<And>j. j \<in> jobs_of sys' \<Longrightarrow> admissible j"
  shows "balanced s0 sys'"
  using assms(1)
proof cases
  case (starts s j ts)
  have "j \<in> jobs_of sys'" using starts by (simp add: jobs_of_def)
  then have "\<not> has_taken (j, code j)" and "bringer j \<Longrightarrow> brings_once good gone (code j)"
    using takers bringers assms(4) by (simp_all add: has_taken_def good_def [abs_def])
  then show ?thesis using starts assms(3) by (auto simp: balanced_def)
next
  case (acts i ts j a s p s')
  have g: "guarantees I (effect j) (Act a)" and s: "good s"
    and b: "bringer j \<Longrightarrow> brings_once good gone (Act a)"
    using acts assms(2,3) nth_mem [of i ts] by (auto simp: kept_def balanced_def simp del: brings_once.simps)
  have e: "effect j s s'" using guarantees_Act [OF g _ acts(5)] s by (auto simp: good_def)
  have "j \<in> jobs_of sys'" using acts set_update_memI [of i ts] by (force simp: jobs_of_def)
  then have l: "\<not> bringer j \<Longrightarrow> lasting gone s s'" using lasts [OF _ e] s assms(4) by (auto simp: good_def)
  have b': "(lasting gone s s' \<or> guarantees good (lasting gone) p) \<and> brings_once good gone p" if "bringer j"
    using brings_once_Act [OF b [OF that] s acts(5)] .
  have "\<not> gone s \<and> gone s'" if "has_taken (j, p)" "\<not> has_taken (j, Act a)"
    using that takes_Act [of ok good _ a s p s'] s acts(5) by (auto simp: has_taken_def)
  moreover have "has_brought (j, p)" if "has_brought (j, Act a)"
    using that guarantees_Act [of good "lasting gone" a s p s'] s acts(5) by (auto simp: has_brought_def simp del: guarantees.simps)
  moreover have "has_brought (j, p) \<and> \<not> has_brought (j, Act a)" if "\<not> lasting gone s s'"
    using that l b' guarantees_Act [of good "lasting gone" a s p s'] s acts(5) by (auto simp: has_brought_def simp del: guarantees.simps)
  ultimately have "of_bool (has_taken (j, p)) + of_bool (\<not> gone s') + of_bool (has_brought (j, Act a)) \<le>
      of_bool (has_taken (j, Act a)) + of_bool (\<not> gone s) + (of_bool (has_brought (j, p)) :: nat)"
    by (auto simp: of_bool_def)
  then have "length (filter has_taken (ts[i := (j, p)])) + of_bool (\<not> gone s') \<le>
      length (filter has_brought (ts[i := (j, p)])) + of_bool (\<not> gone s0)"
    using length_filter_update [OF acts(3), of has_taken "(j, p)"] length_filter_update [OF acts(3), of has_brought "(j, p)"]
      acts(1,4) assms(3) by (simp add: balanced_def)
  then show ?thesis
    using acts assms(3) b' set_update_subset_insert [of ts i "(j, p)"] by (auto simp: balanced_def)
qed

lemma execution_balanced:
  "grun code can_start s0 tr \<Longrightarrow> good s0 \<Longrightarrow> (\<And>j. j \<in> jobs_of (last tr) \<Longrightarrow> admissible j) \<Longrightarrow> balanced s0 (last tr)"
proof (induction rule: grun.induct)
  case (then_step tr sys)
  have a: "admissible j" if "j \<in> jobs_of (last tr)" for j using that jobs_grow [OF then_step.hyps(2)] then_step.prems(2) by auto
  then have "kept (last tr)" and "balanced s0 (last tr)" using execution_kept then_step by blast+
  then show ?case using balanced_step then_step by simp
qed (simp add: balanced_def)

definition succeeded :: "'a \<times> ('b, 'c) prog \<Rightarrow> bool" where
  "succeeded jp \<longleftrightarrow> taker (fst jp) \<and> replied ok (snd jp)"

lemma taken_at_most:
  assumes "grun code can_start s0 tr" and "good s0" and "\<And>j. j \<in> jobs_of (last tr) \<Longrightarrow> admissible j"
  shows "length (filter succeeded (snd (last tr))) \<le> length (filter (bringer \<circ> fst) (snd (last tr))) + of_bool (\<not> gone s0)"
proof -
  have "length (filter succeeded ts) \<le> length (filter has_taken ts)" for ts
    by (rule length_filter_mono) (auto simp: succeeded_def has_taken_def replied_def)
  moreover have "length (filter has_brought ts) \<le> length (filter (bringer \<circ> fst) ts)" for ts
    by (rule length_filter_mono) (auto simp: has_brought_def)
  ultimately show ?thesis
    using execution_balanced [OF assms] unfolding balanced_def by (meson add_le_mono1 le_add1 le_trans)
qed

lemma at_most_one:
  assumes "grun code can_start s0 tr" and "good s0" and "\<And>j. j \<in> jobs_of (last tr) \<Longrightarrow> admissible j" and "\<And>j. \<not> bringer j"
    and "i < length (snd (last tr))" and "succeeded (snd (last tr) ! i)"
    and "k < length (snd (last tr))" and "succeeded (snd (last tr) ! k)"
  shows "i = k"
proof (rule ccontr)
  assume "i \<noteq> k"
  then have "2 \<le> length (filter succeeded (snd (last tr)))" using assms(5-8) by (intro two_le_length_filter)
  then show False using taken_at_most [OF assms(1-3)] assms(4) by (simp add: comp_def of_bool_def split: if_splits)
qed

end

end
