(* ===== verification/Prelude.thy ===== *)
theory Prelude
  imports Main "HOL-Library.Word" "HOL-Library.DAList" "HOL-Library.Sublist"
begin

text \<open>
  The vocabulary every component shares: Go's byte strings and the functions of the
  \<^verbatim>\<open>strings\<close> package the code calls, Go's 64-bit signed arithmetic, and Go's maps.

  \<^item> A Go \<^verbatim>\<open>string\<close> is a \<^typ>\<open>string\<close>: a list of \<^typ>\<open>char\<close>, which are bytes. A
    \<^verbatim>\<open>[]byte\<close> is a list of 8-bit words; \<open>bytes_of\<close> is the conversion \<^verbatim>\<open>[]byte(s)\<close>.
  \<^item> An \<^verbatim>\<open>int64\<close> (and \<^verbatim>\<open>int\<close>, which is 64 bits wide on every supported platform) is an
    \<^typ>\<open>int\<close> whose sums and differences go through \<open>i64\<close>, the two's-complement wrap.
  \<^item> A Go map is a distinct association list (\<^typ>\<open>('k, 'v) alist\<close>); the order of its list is
    one iteration order the runtime may choose. Results are stated through \<open>mget\<close>, so that
    they do not depend on that order.

  The lemmas are collected in \<open>gostr\<close> (strings) and \<open>gomap\<close> (maps).
\<close>

named_theorems gostr \<open>facts on Go's string functions\<close>
named_theorems gomap \<open>facts on Go's maps\<close>

section \<open>Bytes\<close>

type_synonym byte = "8 word"
type_synonym bytes = "byte list"

definition ord :: "char \<Rightarrow> nat" where
  "ord c = of_char c"

definition byte_of :: "char \<Rightarrow> byte" where
  "byte_of c = of_char c"

definition bytes_of :: "string \<Rightarrow> bytes" where
  "bytes_of s = map byte_of s"

lemma unat_byte_less: "unat (b :: byte) < 256"
  using unsigned_less [of b] by simp

lemma unat_byte_of: "unat (byte_of c) = ord c"
proof -
  have "byte_of c = word_of_nat (of_char c)"
    by (simp add: byte_of_def of_char_def)
  then show ?thesis
    by (simp add: ord_def unat_of_nat)
qed

lemma ord_inject [simp]: "ord a = ord b \<longleftrightarrow> a = b"
  by (simp add: ord_def)

lemma inj_byte_of: "inj byte_of"
  by (rule injI) (metis unat_byte_of ord_inject)

lemma bytes_of_inject [simp]: "bytes_of s = bytes_of t \<longleftrightarrow> s = t"
  by (simp add: bytes_of_def inj_map_eq_map inj_byte_of)

lemma length_bytes_of [simp]: "length (bytes_of s) = length s"
  by (simp add: bytes_of_def)

section \<open>Errors\<close>

text \<open>Code that may return early with an error is a value of a sum type; \<open>bind_sum\<close> is the sequence
  and \<open>fold_sum\<close> the loop that stops at the first error.\<close>

definition bind_sum :: "'e + 'a \<Rightarrow> ('a \<Rightarrow> 'e + 'b) \<Rightarrow> 'e + 'b" where
  "bind_sum m f = (case m of Inl e \<Rightarrow> Inl e | Inr a \<Rightarrow> f a)"

fun fold_sum :: "('x \<Rightarrow> 's \<Rightarrow> 'e + 's) \<Rightarrow> 'x list \<Rightarrow> 's \<Rightarrow> 'e + 's" where
  "fold_sum f [] s = Inr s"
| "fold_sum f (x # xs) s = bind_sum (f x s) (fold_sum f xs)"

definition check_that :: "bool \<Rightarrow> 'e \<Rightarrow> 'e + unit" where
  "check_that b e = (if b then Inr () else Inl e)"

lemma bind_sum_Inr [simp]: "bind_sum (Inr a) f = f a"
  by (simp add: bind_sum_def)

lemma bind_sum_Inl [simp]: "bind_sum (Inl e) f = Inl e"
  by (simp add: bind_sum_def)

lemma bind_sum_Inr_iff: "bind_sum m f = Inr b \<longleftrightarrow> (\<exists>a. m = Inr a \<and> f a = Inr b)"
  by (cases m) auto

lemma check_that_Inr [simp]: "check_that b e = Inr u \<longleftrightarrow> b"
  by (simp add: check_that_def)

lemma fold_sum_append: "fold_sum f (xs @ ys) s = bind_sum (fold_sum f xs s) (fold_sum f ys)"
proof (induction xs arbitrary: s)
  case (Cons x xs)
  then show ?case by (cases "f x s") auto
qed simp

text \<open>A loop whose body never fails on the elements at hand is a plain fold.\<close>

lemma fold_sum_fold: "(\<And>x s. x \<in> set xs \<Longrightarrow> f x s = Inr (g x s)) \<Longrightarrow> fold_sum f xs s = Inr (fold g xs s)"
  by (induction xs arbitrary: s) auto

section \<open>64-bit signed integers\<close>

definition i64 :: "int \<Rightarrow> int" where
  "i64 x = (x + 2 ^ 63) mod 2 ^ 64 - 2 ^ 63"

definition is_i64 :: "int \<Rightarrow> bool" where
  "is_i64 x \<longleftrightarrow> - (2 ^ 63) \<le> x \<and> x < 2 ^ 63"

lemma is_i64_i64 [simp]: "is_i64 (i64 x)"
proof -
  have "0 \<le> (x + 2 ^ 63) mod 2 ^ 64" and "(x + 2 ^ 63) mod 2 ^ 64 < (2::int) ^ 64"
    by simp_all
  then show ?thesis by (simp add: i64_def is_i64_def)
qed

lemma i64_id: "is_i64 x \<Longrightarrow> i64 x = x"
  by (simp add: i64_def is_i64_def)

text \<open>A sum or difference of non-negative values that stays below \<open>2 ^ 63\<close> is exact.\<close>

lemma i64_add: "0 \<le> a \<Longrightarrow> 0 \<le> b \<Longrightarrow> a + b < 2 ^ 63 \<Longrightarrow> i64 (a + b) = a + b"
  by (rule i64_id) (simp add: is_i64_def)

lemma i64_diff: "0 \<le> a \<Longrightarrow> a < 2 ^ 63 \<Longrightarrow> 0 \<le> b \<Longrightarrow> b < 2 ^ 63 \<Longrightarrow> i64 (a - b) = a - b"
  by (rule i64_id) (simp add: is_i64_def)

section \<open>The strings package\<close>

definition HasPrefix :: "string \<Rightarrow> string \<Rightarrow> bool" where
  "HasPrefix s p \<longleftrightarrow> take (length p) s = p"

definition HasSuffix :: "string \<Rightarrow> string \<Rightarrow> bool" where
  "HasSuffix s p \<longleftrightarrow> length p \<le> length s \<and> drop (length s - length p) s = p"

definition TrimPrefix :: "string \<Rightarrow> string \<Rightarrow> string" where
  "TrimPrefix s p = (if HasPrefix s p then drop (length p) s else s)"

definition TrimSuffix :: "string \<Rightarrow> string \<Rightarrow> string" where
  "TrimSuffix s p = (if HasSuffix s p then take (length s - length p) s else s)"

text \<open>The cut sets the code passes are ASCII, for which Go trims bytes.\<close>

definition TrimLeft :: "string \<Rightarrow> string \<Rightarrow> string" where
  "TrimLeft s cs = dropWhile (\<lambda>c. c \<in> set cs) s"

definition TrimRight :: "string \<Rightarrow> string \<Rightarrow> string" where
  "TrimRight s cs = rev (dropWhile (\<lambda>c. c \<in> set cs) (rev s))"

definition Trim :: "string \<Rightarrow> string \<Rightarrow> string" where
  "Trim s cs = TrimRight (TrimLeft s cs) cs"

text \<open>The index of the first byte that satisfies \<open>P\<close>; Go's \<open>-1\<close> is \<^const>\<open>None\<close>.\<close>

fun index_of :: "(char \<Rightarrow> bool) \<Rightarrow> string \<Rightarrow> nat option" where
  "index_of P [] = None"
| "index_of P (c # s) = (if P c then Some 0 else map_option Suc (index_of P s))"

lemma index_of_None_iff: "index_of P s = None \<longleftrightarrow> (\<forall>c \<in> set s. \<not> P c)"
  by (induction s) auto

lemma index_of_Some:
  "index_of P s = Some i \<Longrightarrow> i < length s \<and> P (s ! i) \<and> (\<forall>c \<in> set (take i s). \<not> P c)"
proof (induction s arbitrary: i)
  case (Cons c s)
  then show ?case by (cases i) (auto split: if_splits)
qed simp

text \<open>A separator that occurs in neither head (or neither tail) splits a string in one way.\<close>

lemma split_first [gostr]:
  "x \<notin> set as \<Longrightarrow> x \<notin> set bs \<Longrightarrow> as @ x # cs = bs @ x # ds \<longleftrightarrow> as = bs \<and> cs = ds"
proof (induction as arbitrary: bs)
  case Nil
  then show ?case by (cases bs) auto
next
  case (Cons a as)
  then show ?case by (cases bs) auto
qed

lemma split_last [gostr]:
  "x \<notin> set cs \<Longrightarrow> x \<notin> set ds \<Longrightarrow> as @ x # cs = bs @ x # ds \<longleftrightarrow> as = bs \<and> cs = ds"
  using split_first [of x "rev cs" "rev ds" "rev as" "rev bs"]
    rev_is_rev_conv [of "as @ x # cs" "bs @ x # ds"] by auto

definition IndexByte :: "string \<Rightarrow> char \<Rightarrow> nat option" where
  "IndexByte s c = index_of (\<lambda>x. x = c) s"

definition IndexAny :: "string \<Rightarrow> string \<Rightarrow> nat option" where
  "IndexAny s cs = index_of (\<lambda>x. x \<in> set cs) s"

definition LastIndexByte :: "string \<Rightarrow> char \<Rightarrow> nat option" where
  "LastIndexByte s c =
     (case index_of (\<lambda>x. x = c) (rev s) of None \<Rightarrow> None | Some i \<Rightarrow> Some (length s - 1 - i))"

definition CountByte :: "string \<Rightarrow> char \<Rightarrow> nat" where
  "CountByte s c = length (filter (\<lambda>x. x = c) s)"

definition ContainsAny :: "string \<Rightarrow> string \<Rightarrow> bool" where
  "ContainsAny s cs \<longleftrightarrow> list_ex (\<lambda>x. x \<in> set cs) s"

fun Contains :: "string \<Rightarrow> string \<Rightarrow> bool" where
  "Contains [] p = (p = [])"
| "Contains (c # s) p = (HasPrefix (c # s) p \<or> Contains s p)"

fun Split :: "string \<Rightarrow> char \<Rightarrow> string list" where
  "Split [] sep = [[]]"
| "Split (c # s) sep =
     (if c = sep then [] # Split s sep
      else (case Split s sep of [] \<Rightarrow> [[c]] | w # ws \<Rightarrow> (c # w) # ws))"

fun Join :: "string list \<Rightarrow> string \<Rightarrow> string" where
  "Join [] sep = []"
| "Join [w] sep = w"
| "Join (w # ws) sep = w @ sep @ Join ws sep"

text \<open>\<^verbatim>\<open>strings.Cut(s, sep)\<close> for a one-byte separator: before, after.\<close>

definition Cut :: "string \<Rightarrow> char \<Rightarrow> string \<times> string" where
  "Cut s sep = (takeWhile (\<lambda>c. c \<noteq> sep) s, drop 1 (dropWhile (\<lambda>c. c \<noteq> sep) s))"

text \<open>\<^verbatim>\<open>strings.ToUpper\<close> on the ASCII letters. The code only searches its result for the
  words CHANGE, REPLACE and PLACEHOLDER; no letter outside ASCII has one of their letters as
  its upper case, so this agrees with Go's Unicode-aware function there.\<close>

definition ToUpper :: "string \<Rightarrow> string" where
  "ToUpper s = map (\<lambda>c. if 97 \<le> ord c \<and> ord c \<le> 122 then char_of (ord c - 32) else c) s"


text \<open>\<^verbatim>\<open>strings.TrimSpace\<close> removes the runes of \<^verbatim>\<open>unicode.IsSpace\<close> from both ends. These are
  their UTF-8 encodings: the six ASCII ones, U+0085, U+00A0, U+1680, U+2000 to U+200A, U+2028,
  U+2029, U+202F, U+205F and U+3000.\<close>

definition utf8_spaces :: "string list" where
  "utf8_spaces =
     [[CHR 0x09], [CHR 0x0A], [CHR 0x0B], [CHR 0x0C], [CHR 0x0D], [CHR 0x20],
      [CHR 0xC2, CHR 0x85], [CHR 0xC2, CHR 0xA0], [CHR 0xE1, CHR 0x9A, CHR 0x80],
      [CHR 0xE2, CHR 0x80, CHR 0x80], [CHR 0xE2, CHR 0x80, CHR 0x81],
      [CHR 0xE2, CHR 0x80, CHR 0x82], [CHR 0xE2, CHR 0x80, CHR 0x83],
      [CHR 0xE2, CHR 0x80, CHR 0x84], [CHR 0xE2, CHR 0x80, CHR 0x85],
      [CHR 0xE2, CHR 0x80, CHR 0x86], [CHR 0xE2, CHR 0x80, CHR 0x87],
      [CHR 0xE2, CHR 0x80, CHR 0x88], [CHR 0xE2, CHR 0x80, CHR 0x89],
      [CHR 0xE2, CHR 0x80, CHR 0x8A], [CHR 0xE2, CHR 0x80, CHR 0xA8],
      [CHR 0xE2, CHR 0x80, CHR 0xA9], [CHR 0xE2, CHR 0x80, CHR 0xAF],
      [CHR 0xE2, CHR 0x81, CHR 0x9F], [CHR 0xE3, CHR 0x80, CHR 0x80]]"

lemma utf8_spaces_nonempty: "w \<in> set utf8_spaces \<Longrightarrow> w \<noteq> []"
  by (auto simp: utf8_spaces_def)

function TrimSpaceLeft :: "string \<Rightarrow> string" where
  "TrimSpaceLeft s =
     (case find (\<lambda>w. HasPrefix s w) utf8_spaces of
        None \<Rightarrow> s | Some w \<Rightarrow> TrimSpaceLeft (drop (length w) s))"
  by pat_completeness auto
termination
proof (relation "measure length")
  fix s w
  assume "find (\<lambda>w. HasPrefix s w) utf8_spaces = Some w"
  then have "HasPrefix s w" and "w \<noteq> []"
    by (auto simp: find_Some_iff utf8_spaces_nonempty)
  then have "s \<noteq> []" by (auto simp: HasPrefix_def)
  with \<open>w \<noteq> []\<close> show "(drop (length w) s, s) \<in> measure length" by (cases s; cases w) auto
qed simp

function TrimSpaceRight :: "string \<Rightarrow> string" where
  "TrimSpaceRight s =
     (case find (\<lambda>w. HasSuffix s w) utf8_spaces of
        None \<Rightarrow> s | Some w \<Rightarrow> TrimSpaceRight (take (length s - length w) s))"
  by pat_completeness auto
termination
proof (relation "measure length")
  fix s w
  assume "find (\<lambda>w. HasSuffix s w) utf8_spaces = Some w"
  then have "HasSuffix s w" and "w \<noteq> []"
    by (auto simp: find_Some_iff utf8_spaces_nonempty)
  then show "(take (length s - length w) s, s) \<in> measure length"
    by (cases w) (auto simp: HasSuffix_def)
qed simp

declare TrimSpaceLeft.simps [simp del] TrimSpaceRight.simps [simp del]

definition TrimSpace :: "string \<Rightarrow> string" where
  "TrimSpace s = TrimSpaceRight (TrimSpaceLeft s)"

section \<open>Go maps\<close>

type_synonym ('k, 'v) gomap = "('k, 'v) alist"

definition mempty :: "('k, 'v) gomap" where
  "mempty = DAList.empty"

definition mget :: "('k, 'v) gomap \<Rightarrow> 'k \<Rightarrow> 'v option" where
  "mget m k = DAList.lookup m k"

definition mput :: "('k, 'v) gomap \<Rightarrow> 'k \<Rightarrow> 'v \<Rightarrow> ('k, 'v) gomap" where
  "mput m k v = DAList.update k v m"

definition mdel :: "('k, 'v) gomap \<Rightarrow> 'k \<Rightarrow> ('k, 'v) gomap" where
  "mdel m k = DAList.delete k m"

text \<open>The entries, in the order a \<^verbatim>\<open>range\<close> loop visits them, and \<^verbatim>\<open>len(m)\<close>.\<close>

definition mrange :: "('k, 'v) gomap \<Rightarrow> ('k \<times> 'v) list" where
  "mrange m = alist.impl_of m"

definition mlen :: "('k, 'v) gomap \<Rightarrow> nat" where
  "mlen m = length (mrange m)"

lemma mget_mempty [simp, gomap]: "mget mempty k = None"
  by (simp add: mget_def mempty_def)

lemma mget_mput [simp, gomap]: "mget (mput m k v) k' = (if k = k' then Some v else mget m k')"
  by (simp add: mget_def mput_def lookup_update)

lemma mget_mdel [simp, gomap]: "mget (mdel m k) k' = (if k = k' then None else mget m k')"
  by (simp add: mget_def mdel_def lookup_delete)

lemma mget_map_of: "mget m = map_of (mrange m)"
  by (simp add: fun_eq_iff mget_def mrange_def lookup.rep_eq)

lemma distinct_mrange [simp]: "distinct (map fst (mrange m))"
  by (simp add: mrange_def impl_of_distinct)

lemma mrange_mempty [simp, gomap]: "mrange mempty = []"
  by (simp add: mrange_def mempty_def empty.rep_eq)

lemma mem_mrange [gomap]: "(k, v) \<in> set (mrange m) \<longleftrightarrow> mget m k = Some v"
  by (simp add: mget_map_of map_of_eq_Some_iff)

lemma mget_None_iff [gomap]: "mget m k = None \<longleftrightarrow> k \<notin> fst ` set (mrange m)"
  by (simp add: mget_map_of map_of_eq_None_iff)

lemma finite_dom_mget [simp]: "finite (dom (mget m))"
  by (simp add: mget_map_of finite_dom_map_of)

lemma mlen_card: "mlen m = card (dom (mget m))"
  by (simp add: mlen_def mget_map_of dom_map_of_conv_image_fst distinct_card flip: length_map)
    (metis distinct_card distinct_mrange length_map list.set_map)

lemma mlen_mempty [simp, gomap]: "mlen mempty = 0"
  by (simp add: mlen_def)

lemma dom_mput: "dom (mget (mput m k v)) = insert k (dom (mget m))"
  by auto

lemma dom_mdel: "dom (mget (mdel m k)) = dom (mget m) - {k}"
  by (auto split: if_splits)

lemma mlen_mput [gomap]: "mlen (mput m k v) = (if mget m k = None then Suc (mlen m) else mlen m)"
  by (auto simp: mlen_card dom_mput card_insert_if)

lemma mlen_mdel [gomap]: "mlen (mdel m k) = (if mget m k = None then mlen m else mlen m - 1)"
  by (auto simp: mlen_card dom_mdel card_Diff_singleton_if domIff)

lemma mlen_0_iff [gomap]: "mlen m = 0 \<longleftrightarrow> (\<forall>k. mget m k = None)"
  by (auto simp: mlen_card)

lemma mlen_mput_pos [simp]: "0 < mlen (mput m k v)"
proof (rule ccontr)
  assume "\<not> 0 < mlen (mput m k v)"
  then have "mget (mput m k v) k = None" by (simp only: not_gr_zero mlen_0_iff)
  then show False by simp
qed

text \<open>A loop that deletes the entries of a list that satisfy a test.\<close>

lemma mget_fold_mdel [gomap]:
  "mget (fold (\<lambda>(k, v) a. if P k v then mdel a k else a) xs m) k' =
     (if \<exists>v. (k', v) \<in> set xs \<and> P k' v then None else mget m k')"
  by (induction xs arbitrary: m) (auto split: prod.splits)

end
