(* ===== verification/Sha256.thy ===== *)
theory Sha256
  imports Prelude
begin

text \<open>
  The hash primitives the core calls from Go's standard library: \<^verbatim>\<open>crypto/sha256\<close> (FIPS 180-4)
  and \<^verbatim>\<open>crypto/hmac\<close> over it (RFC 2104), as executable functions on bytes. Nothing in the
  development relies on a cryptographic assumption about them; the theorems use their
  output length and that they are functions.
\<close>

unbundle bit_operations_syntax

section \<open>SHA-256\<close>

type_synonym u32 = "32 word"

text \<open>The constants of FIPS 180-4, by their definition there: the first 32 bits of the fractional parts
  of the square roots of the first 8 primes, and of the cube roots of the first 64. The integer root
  is found bit by bit, from the highest of \<open>b\<close> bits.\<close>

fun root_bits :: "nat \<Rightarrow> int \<Rightarrow> nat \<Rightarrow> int \<Rightarrow> int" where
  "root_bits k n 0 acc = acc"
| "root_bits k n (Suc b) acc = (let a = acc + 2 ^ b in root_bits k n b (if a ^ k \<le> n then a else acc))"

definition root_frac :: "nat \<Rightarrow> int \<Rightarrow> u32" where
  "root_frac k p = word_of_int (root_bits k (p * 2 ^ (32 * k)) 37 0)"

definition sha256_primes :: "int list" where
  "sha256_primes = filter (\<lambda>p. list_all (\<lambda>d. p mod d \<noteq> 0) [2..p - 1]) [2..311]"

definition sha256_K :: "u32 list" where
  "sha256_K = map (root_frac 3) sha256_primes"

definition sha256_H :: "u32 list" where
  "sha256_H = map (root_frac 2) [2, 3, 5, 7, 11, 13, 17, 19]"

lemma sha256_constants:
  "root_frac 3 2 = 0x428a2f98" "root_frac 3 311 = 0xc67178f2" "root_frac 2 2 = 0x6a09e667" "root_frac 2 19 = 0x5be0cd19"
  by code_simp+

definition rotr :: "nat \<Rightarrow> u32 \<Rightarrow> u32" where
  "rotr n x = drop_bit n x OR push_bit (32 - n) x"

definition Ch :: "u32 \<Rightarrow> u32 \<Rightarrow> u32 \<Rightarrow> u32" where
  "Ch x y z = (x AND y) XOR (NOT x AND z)"

definition Maj :: "u32 \<Rightarrow> u32 \<Rightarrow> u32 \<Rightarrow> u32" where
  "Maj x y z = (x AND y) XOR (x AND z) XOR (y AND z)"

definition Sum0 :: "u32 \<Rightarrow> u32" where
  "Sum0 x = rotr 2 x XOR rotr 13 x XOR rotr 22 x"

definition Sum1 :: "u32 \<Rightarrow> u32" where
  "Sum1 x = rotr 6 x XOR rotr 11 x XOR rotr 25 x"

definition sigma0 :: "u32 \<Rightarrow> u32" where
  "sigma0 x = rotr 7 x XOR rotr 18 x XOR drop_bit 3 x"

definition sigma1 :: "u32 \<Rightarrow> u32" where
  "sigma1 x = rotr 17 x XOR rotr 19 x XOR drop_bit 10 x"

text \<open>Big-endian reading and writing of 32-bit words.\<close>

fun be32_words :: "bytes \<Rightarrow> u32 list" where
  "be32_words (a # b # c # d # r) =
     (push_bit 24 (ucast a) OR push_bit 16 (ucast b) OR push_bit 8 (ucast c) OR ucast d) # be32_words r"
| "be32_words _ = []"

definition be32_bytes :: "u32 \<Rightarrow> bytes" where
  "be32_bytes x = [ucast (drop_bit 24 x), ucast (drop_bit 16 x), ucast (drop_bit 8 x), ucast x]"

text \<open>One round, on the eight working variables, and the next word of the message schedule from
  the sliding window of the last sixteen.\<close>

fun sha256_round :: "u32 \<Rightarrow> u32 \<Rightarrow> u32 list \<Rightarrow> u32 list" where
  "sha256_round k w [a, b, c, d, e, f, g, h] =
     (let t1 = h + Sum1 e + Ch e f g + k + w;
          t2 = Sum0 a + Maj a b c
      in [t1 + t2, a, b, c, d + t1, e, f, g])"
| "sha256_round k w s = s"

fun sha256_window :: "u32 list \<Rightarrow> u32 list" where
  "sha256_window [w0, w1, w2, w3, w4, w5, w6, w7, w8, w9, w10, w11, w12, w13, w14, w15] =
     [w1, w2, w3, w4, w5, w6, w7, w8, w9, w10, w11, w12, w13, w14, w15,
      sigma1 w14 + w9 + sigma0 w1 + w0]"
| "sha256_window ws = ws"

fun sha256_rounds :: "u32 list \<Rightarrow> u32 list \<Rightarrow> u32 list \<Rightarrow> u32 list" where
  "sha256_rounds [] ws s = s"
| "sha256_rounds (k # ks) ws s =
     (case ws of [] \<Rightarrow> s
      | w # _ \<Rightarrow> sha256_rounds ks (sha256_window ws) (sha256_round k w s))"

definition sha256_block :: "u32 list \<Rightarrow> bytes \<Rightarrow> u32 list" where
  "sha256_block st blk = map2 (+) st (sha256_rounds sha256_K (be32_words blk) st)"

fun sha256_blocks :: "u32 list \<Rightarrow> bytes \<Rightarrow> u32 list" where
  "sha256_blocks st bs =
     (if bs = [] then st else sha256_blocks (sha256_block st (take 64 bs)) (drop 64 bs))"

declare sha256_blocks.simps [simp del]

text \<open>\<^verbatim>\<open>binary.BigEndian.PutUint64\<close>.\<close>

definition be64 :: "64 word \<Rightarrow> bytes" where
  "be64 n = map (\<lambda>i. ucast (drop_bit (56 - 8 * i) n)) [0..<8]"

definition sha256_pad :: "bytes \<Rightarrow> bytes" where
  "sha256_pad m =
     m @ [0x80] @ replicate ((64 - (length m + 9) mod 64) mod 64) 0
       @ be64 (8 * word_of_nat (length m))"

definition sha256 :: "bytes \<Rightarrow> bytes" where
  "sha256 m = concat (map be32_bytes (sha256_blocks sha256_H (sha256_pad m)))"

section \<open>HMAC-SHA256\<close>

definition hmac_key :: "bytes \<Rightarrow> bytes" where
  "hmac_key k = (let k' = (if 64 < length k then sha256 k else k)
                 in k' @ replicate (64 - length k') 0)"

definition hmacSHA256 :: "bytes \<Rightarrow> bytes \<Rightarrow> bytes" where
  "hmacSHA256 key data =
     (let k = hmac_key key
      in sha256 (map (\<lambda>b. b XOR 0x5c) k @ sha256 (map (\<lambda>b. b XOR 0x36) k @ data)))"

section \<open>Output length\<close>

lemma length_sha256_round [simp]: "length (sha256_round k w s) = length s"
  by (induction k w s rule: sha256_round.induct) (simp_all add: Let_def)

lemma length_sha256_rounds [simp]: "length (sha256_rounds ks ws s) = length s"
  by (induction ks ws s rule: sha256_rounds.induct) (auto split: list.splits)

lemma length_sha256_blocks [simp]: "length (sha256_blocks st bs) = length st"
proof (induction st bs rule: sha256_blocks.induct)
  case (1 st bs)
  then show ?case
    by (subst sha256_blocks.simps) (simp add: sha256_block_def)
qed

lemma length_sha256 [simp]: "length (sha256 m) = 32"
proof -
  have "length (concat (map be32_bytes ws)) = 4 * length ws" for ws
    by (induction ws) (simp_all add: be32_bytes_def)
  then show ?thesis by (simp add: sha256_def sha256_H_def)
qed

lemma length_hmacSHA256 [simp]: "length (hmacSHA256 key data) = 32"
  by (simp add: hmacSHA256_def Let_def)

end
