(* ===== verification/Codec.thy ===== *)
theory Codec
  imports Sha256
begin

text \<open>
  The byte encodings of the portable core: the PASETO pre-authentication encoding of
  \<^verbatim>\<open>core/go/pae.go\<close> (\<open>LE64\<close>, \<open>PAE\<close>), the unpadded base64url alphabet of \<^verbatim>\<open>core/go/crypto.go\<close>
  (\<open>B64u\<close>, \<open>B64uDecode\<close>), and the two standard-library encodings the core uses beside them,
  \<^verbatim>\<open>encoding/binary\<close> big-endian and \<^verbatim>\<open>encoding/hex\<close>.

  An encoder that is injective on the inputs it is given is the interface \<open>injective_encoding\<close>;
  a codec with a decoder that inverts it is \<open>codec\<close>. Both are interpreted on the code's
  functions below, and the crypto component rests on their facts.
\<close>

section \<open>Interfaces\<close>

locale injective_encoding =
  fixes enc :: "'a \<Rightarrow> 'b"
    and dom :: "'a \<Rightarrow> bool"
  assumes enc_eqD: "dom x \<Longrightarrow> dom y \<Longrightarrow> enc x = enc y \<Longrightarrow> x = y"
begin

lemma enc_eq_iff: "dom x \<Longrightarrow> dom y \<Longrightarrow> enc x = enc y \<longleftrightarrow> x = y"
  using enc_eqD by blast

lemma enc_inj_on: "inj_on enc {x. dom x}"
  by (rule inj_onI) (simp add: enc_eqD)

end

locale codec =
  fixes enc :: "'a \<Rightarrow> 'b"
    and dec :: "'b \<Rightarrow> 'e + 'a"
  assumes dec_enc: "dec (enc x) = Inr x"
begin

lemma enc_inject: "enc x = enc y \<longleftrightarrow> x = y"
  by (metis dec_enc sum.inject(2))

sublocale injective_encoding enc "\<lambda>_. True"
  by unfold_locales (simp add: enc_inject)

end

section \<open>Little-endian lengths and pre-authentication encoding\<close>

definition LE64 :: "64 word \<Rightarrow> bytes" where
  "LE64 n = (let b = map (\<lambda>i. ucast (drop_bit (8 * i) n)) [0..<8] in b[7 := b ! 7 AND 0x7f])"

definition PAE :: "bytes list \<Rightarrow> bytes" where
  "PAE pieces =
     LE64 (word_of_nat (length pieces)) @
     concat (map (\<lambda>p. LE64 (word_of_nat (length p)) @ p) pieces)"

text \<open>A Go slice has fewer than \<open>2 ^ 63\<close> elements: its length is an \<^verbatim>\<open>int\<close>.\<close>

definition go_len :: "'a list \<Rightarrow> bool" where
  "go_len xs \<longleftrightarrow> length xs < 2 ^ 63"

definition go_slices :: "bytes list \<Rightarrow> bool" where
  "go_slices ps \<longleftrightarrow> go_len ps \<and> list_all go_len ps"

lemma length_LE64 [simp]: "length (LE64 n) = 8"
  by (simp add: LE64_def Let_def)

lemma LE64_nth:
  "i < 8 \<Longrightarrow> LE64 n ! i =
     (if i = 7 then ucast (drop_bit 56 n) AND 0x7f else ucast (drop_bit (8 * i) n))"
  by (auto simp: LE64_def Let_def nth_list_update)

lemma bit_LE64:
  assumes "k < 63"
  shows "bit (LE64 n ! (k div 8)) (k mod 8) \<longleftrightarrow> bit n k"
proof -
  have i: "k div 8 < 8" using assms by simp
  have k: "8 * (k div 8) + k mod 8 = k" by simp
  show ?thesis
  proof (cases "k div 8 = 7")
    case True
    with assms have "k mod 8 < 7" by presburger
    moreover have "(0x7f :: byte) = mask 7" by (simp add: mask_eq_exp_minus_1)
    ultimately have "bit (0x7f :: byte) (k mod 8)" by (simp only: bit_mask_iff) simp
    then show ?thesis
      using i k True by (simp add: LE64_nth bit_and_iff bit_ucast_iff bit_drop_bit_eq)
  next
    case False
    with i k show ?thesis by (simp add: LE64_nth bit_ucast_iff bit_drop_bit_eq)
  qed
qed

lemma not_bit_63: "n < 2 ^ 63 \<Longrightarrow> \<not> bit (word_of_nat n :: 64 word) 63"
  by (simp add: bit_of_nat_iff) (simp add: bit_iff_odd)

lemma LE64_length_eqD:
  assumes "LE64 (word_of_nat m) = LE64 (word_of_nat n)" and "m < 2 ^ 63" and "n < 2 ^ 63"
  shows "m = n"
proof -
  have "(word_of_nat m :: 64 word) = word_of_nat n"
  proof (rule bit_word_eqI)
    fix k assume "k < LENGTH(64)"
    then consider "k < 63" | "k = 63" by fastforce
    then show "bit (word_of_nat m :: 64 word) k \<longleftrightarrow> bit (word_of_nat n :: 64 word) k"
    proof cases
      case 1
      then show ?thesis by (metis assms(1) bit_LE64)
    next
      case 2
      then show ?thesis using assms(2,3) by (simp add: not_bit_63)
    qed
  qed
  then have "unat (word_of_nat m :: 64 word) = unat (word_of_nat n :: 64 word)" by simp
  with assms(2,3) show ?thesis by (simp add: unat_of_nat)
qed

lemma PAE_body_eqD:
  assumes "concat (map (\<lambda>p. LE64 (word_of_nat (length p)) @ p) ps) =
           concat (map (\<lambda>p. LE64 (word_of_nat (length p)) @ p) qs)"
    and "length ps = length qs" and "list_all go_len ps" and "list_all go_len qs"
  shows "ps = qs"
  using assms(2,1,3,4)
proof (induction ps qs rule: list_induct2)
  case Nil
  show ?case by simp
next
  case (Cons p ps q qs)
  from Cons.prems(1) have len: "LE64 (word_of_nat (length p)) = LE64 (word_of_nat (length q))"
    and rest: "p @ concat (map (\<lambda>p. LE64 (word_of_nat (length p)) @ p) ps) =
               q @ concat (map (\<lambda>p. LE64 (word_of_nat (length p)) @ p) qs)"
    by (simp_all add: append_eq_append_conv)
  from len Cons.prems(2,3) have "length p = length q"
    by (auto simp: go_len_def dest: LE64_length_eqD)
  with rest have "p = q" and
    "concat (map (\<lambda>p. LE64 (word_of_nat (length p)) @ p) ps) =
     concat (map (\<lambda>p. LE64 (word_of_nat (length p)) @ p) qs)"
    by (simp_all add: append_eq_append_conv)
  with Cons show ?case by simp
qed

lemma PAE_eqD:
  assumes "PAE ps = PAE qs" and "go_slices ps" and "go_slices qs"
  shows "ps = qs"
proof (rule PAE_body_eqD)
  from assms(1) have len: "LE64 (word_of_nat (length ps)) = LE64 (word_of_nat (length qs))"
    and "concat (map (\<lambda>p. LE64 (word_of_nat (length p)) @ p) ps) =
         concat (map (\<lambda>p. LE64 (word_of_nat (length p)) @ p) qs)"
    by (simp_all add: PAE_def append_eq_append_conv)
  then show "concat (map (\<lambda>p. LE64 (word_of_nat (length p)) @ p) ps) =
         concat (map (\<lambda>p. LE64 (word_of_nat (length p)) @ p) qs)" by simp
  from len assms(2,3) show "length ps = length qs"
    by (auto simp: go_slices_def go_len_def dest: LE64_length_eqD)
qed (use assms(2,3) in \<open>simp_all add: go_slices_def\<close>)

interpretation pae: injective_encoding PAE go_slices
  by unfold_locales (rule PAE_eqD)

lemma length_PAE: "length (PAE ps) = 8 + sum_list (map (\<lambda>p. 8 + length p) ps)"
  by (simp add: PAE_def length_concat comp_def)


section \<open>Big-endian 64-bit integers\<close>

text \<open>\<^verbatim>\<open>binary.BigEndian.Uint64\<close>: the first eight bytes, most significant first.\<close>

fun be64_decode :: "bytes \<Rightarrow> 64 word" where
  "be64_decode (b0 # b1 # b2 # b3 # b4 # b5 # b6 # b7 # _) =
     ucast b7 OR push_bit 8 (ucast b6) OR push_bit 16 (ucast b5) OR push_bit 24 (ucast b4) OR
     push_bit 32 (ucast b3) OR push_bit 40 (ucast b2) OR push_bit 48 (ucast b1) OR
     push_bit 56 (ucast b0)"
| "be64_decode _ = 0"

lemma length_be64 [simp]: "length (be64 n) = 8"
  by (simp add: be64_def)

lemma bit_be64_chunk:
  "bit (push_bit s (ucast (ucast (drop_bit s n) :: byte)) :: 64 word) k \<longleftrightarrow>
     s \<le> k \<and> k < s + 8 \<and> bit (n :: 64 word) k"
  by (auto simp: bit_push_bit_iff bit_ucast_iff bit_drop_bit_eq dest: bit_imp_le_length)

lemma be64_decode_be64 [simp]: "be64_decode (be64 n @ r) = n"
proof (rule bit_word_eqI)
  fix k assume k: "k < LENGTH(64)"
  have "be64_decode (be64 n @ r) =
      push_bit 0 (ucast (ucast (drop_bit 0 n) :: byte)) OR
      push_bit 8 (ucast (ucast (drop_bit 8 n) :: byte)) OR
      push_bit 16 (ucast (ucast (drop_bit 16 n) :: byte)) OR
      push_bit 24 (ucast (ucast (drop_bit 24 n) :: byte)) OR
      push_bit 32 (ucast (ucast (drop_bit 32 n) :: byte)) OR
      push_bit 40 (ucast (ucast (drop_bit 40 n) :: byte)) OR
      push_bit 48 (ucast (ucast (drop_bit 48 n) :: byte)) OR
      push_bit 56 (ucast (ucast (drop_bit 56 n) :: byte))"
    by (simp add: be64_def upt_rec)
  then have "bit (be64_decode (be64 n @ r)) k \<longleftrightarrow>
      (k < 8 \<or> 8 \<le> k \<and> k < 16 \<or> 16 \<le> k \<and> k < 24 \<or> 24 \<le> k \<and> k < 32 \<or> 32 \<le> k \<and> k < 40 \<or>
       40 \<le> k \<and> k < 48 \<or> 48 \<le> k \<and> k < 56 \<or> 56 \<le> k \<and> k < 64) \<and> bit n k"
    by (simp only: bit_or_iff bit_be64_chunk) auto
  moreover have "k < 64" using k by simp
  ultimately show "bit (be64_decode (be64 n @ r)) k \<longleftrightarrow> bit n k" by linarith
qed

lemma be64_inject [simp]: "be64 m = be64 n \<longleftrightarrow> m = n"
  by (metis be64_decode_be64 append_Nil2)

text \<open>Every eight bytes are the encoding of a number: there are as many of them as numbers.\<close>

lemma be64_surj: "length b = 8 \<Longrightarrow> b \<in> range be64"
proof -
  assume "length b = 8"
  have fin: "finite {b :: bytes. set b \<subseteq> UNIV \<and> length b = 8}"
    by (rule finite_lists_length_eq) simp
  have "card {b :: bytes. set b \<subseteq> UNIV \<and> length b = 8} = CARD(byte) ^ 8"
    by (rule card_lists_length_eq) simp
  then have "card {b :: bytes. set b \<subseteq> UNIV \<and> length b = 8} = CARD(64 word)"
    by (simp add: card_word)
  also have "\<dots> = card (range be64)"
    by (rule card_image [symmetric]) (simp add: inj_on_def)
  finally have "range be64 = {b :: bytes. set b \<subseteq> UNIV \<and> length b = 8}"
    by (intro card_subset_eq fin) auto
  then show ?thesis using \<open>length b = 8\<close> by simp
qed

lemma be64_be64_decode [simp]: "length b = 8 \<Longrightarrow> be64 (be64_decode b) = b"
  using be64_surj be64_decode_be64 [where r = "[]"] by fastforce

section \<open>base64url without padding\<close>

definition b64_alphabet :: string where
  "b64_alphabet = ''ABCDEFGHIJKLMNOPQRSTUVWXYZabcdefghijklmnopqrstuvwxyz0123456789-_''"

definition b64_char :: "nat \<Rightarrow> char" where
  "b64_char n = b64_alphabet ! n"

definition b64_val :: "char \<Rightarrow> nat option" where
  "b64_val c = IndexByte b64_alphabet c"

text \<open>\<^verbatim>\<open>base64.RawURLEncoding\<close>: three bytes become four six-bit digits; a tail of one byte gives
  two digits, of two bytes three.\<close>

fun b64_digits :: "bytes \<Rightarrow> nat list" where
  "b64_digits [] = []"
| "b64_digits [a] = [unat a div 4, (unat a mod 4) * 16]"
| "b64_digits [a, b] =
     [unat a div 4, (unat a mod 4) * 16 + unat b div 16, (unat b mod 16) * 4]"
| "b64_digits (a # b # c # r) =
     [unat a div 4, (unat a mod 4) * 16 + unat b div 16,
      (unat b mod 16) * 4 + unat c div 64, unat c mod 64] @ b64_digits r"

text \<open>The decoder drops the unused low bits of a short tail, and a single leftover digit is
  corrupt input.\<close>

fun b64_undigits :: "nat list \<Rightarrow> bytes option" where
  "b64_undigits [] = Some []"
| "b64_undigits [a] = None"
| "b64_undigits [a, b] = Some [word_of_nat (a * 4 + b div 16)]"
| "b64_undigits [a, b, c] =
     Some [word_of_nat (a * 4 + b div 16), word_of_nat ((b mod 16) * 16 + c div 4)]"
| "b64_undigits (a # b # c # d # r) =
     map_option (\<lambda>t. word_of_nat (a * 4 + b div 16) # word_of_nat ((b mod 16) * 16 + c div 4) #
                   word_of_nat ((c mod 4) * 64 + d) # t) (b64_undigits r)"

datatype b64_error = errB64uAlphabet | CorruptInputError

definition B64u :: "bytes \<Rightarrow> string" where
  "B64u b = map b64_char (b64_digits b)"

definition b64u_byte :: "char \<Rightarrow> bool" where
  "b64u_byte c \<longleftrightarrow> ord CHR ''A'' \<le> ord c \<and> ord c \<le> ord CHR ''Z'' \<or>
     ord CHR ''a'' \<le> ord c \<and> ord c \<le> ord CHR ''z'' \<or>
     ord CHR ''0'' \<le> ord c \<and> ord c \<le> ord CHR ''9'' \<or> c = CHR ''-'' \<or> c = CHR ''_''"

definition B64uDecode :: "string \<Rightarrow> b64_error + bytes" where
  "B64uDecode s =
     (let s = TrimRight s ''='' in
      if list_ex (\<lambda>c. \<not> b64u_byte c) s then Inl errB64uAlphabet
      else case Option.bind (those (map b64_val s)) b64_undigits of
             None \<Rightarrow> Inl CorruptInputError
           | Some b \<Rightarrow> Inr b)"

lemma b64_digits_bound: "d \<in> set (b64_digits b) \<Longrightarrow> d < 64"
proof (induction b rule: b64_digits.induct)
  case (2 a)
  have "unat a < 256" by (rule unat_byte_less)
  then show ?case using 2 by auto
next
  case (3 a b)
  have "unat a < 256" "unat b < 256" by (rule unat_byte_less)+
  then show ?case using 3 by auto
next
  case (4 a b c r)
  have "unat a < 256" "unat b < 256" "unat c < 256"
    by (rule unat_byte_less)+
  then show ?case using 4 by auto
qed simp

lemma b64_undigits_digits: "b64_undigits (b64_digits b) = Some b"
proof (induction b rule: b64_digits.induct)
  case (2 a)
  then show ?case by simp
next
  case (3 a b)
  have "unat b < 256" by (rule unat_byte_less)
  then show ?case by simp
next
  case (4 a b c r)
  have "unat b < 256" "unat c < 256" by (rule unat_byte_less)+
  then show ?case using 4 by simp
qed simp

lemma b64_alphabet_all: "\<forall>n \<in> set [0..<64]. b64_val (b64_char n) = Some n \<and> b64u_byte (b64_char n)"
  by code_simp

lemma b64_val_char: "n < 64 \<Longrightarrow> b64_val (b64_char n) = Some n"
  and b64u_byte_char: "n < 64 \<Longrightarrow> b64u_byte (b64_char n)"
  using b64_alphabet_all by simp_all

lemma those_map_Some: "(\<And>x. x \<in> set xs \<Longrightarrow> f x = Some (g x)) \<Longrightarrow> those (map f xs) = Some (map g xs)"
  by (induction xs) simp_all

lemma B64u_byte: "c \<in> set (B64u b) \<Longrightarrow> b64u_byte c"
  by (auto simp: B64u_def b64u_byte_char dest: b64_digits_bound)

lemma TrimRight_id: "(\<And>c. c \<in> set s \<Longrightarrow> c \<notin> set cs) \<Longrightarrow> TrimRight s cs = s"
  by (cases s rule: rev_cases) (simp_all add: TrimRight_def)

lemma B64uDecode_B64u: "B64uDecode (B64u b) = Inr b"
proof -
  have "CHR ''='' \<notin> set (B64u b)"
    using B64u_byte [of "CHR ''=''" b] by (auto simp: b64u_byte_def ord_def)
  then have trim: "TrimRight (B64u b) ''='' = B64u b" by (intro TrimRight_id) auto
  have vals: "those (map b64_val (B64u b)) = Some (b64_digits b)"
    unfolding B64u_def map_map
    using those_map_Some [of "b64_digits b" "b64_val \<circ> b64_char" "\<lambda>x. x"]
    by (simp add: b64_val_char b64_digits_bound)
  have "\<not> list_ex (\<lambda>c. \<not> b64u_byte c) (B64u b)" by (auto simp: list_ex_iff B64u_byte)
  then show ?thesis by (simp add: B64uDecode_def trim vals b64_undigits_digits Let_def)
qed

interpretation b64u: codec B64u B64uDecode
  by unfold_locales (rule B64uDecode_B64u)

section \<open>Hexadecimal\<close>

definition hex_digit :: "nat \<Rightarrow> char" where
  "hex_digit n = ''0123456789abcdef'' ! n"

text \<open>\<^verbatim>\<open>hex.EncodeToString\<close>.\<close>

definition hex_encode :: "bytes \<Rightarrow> string" where
  "hex_encode b = concat (map (\<lambda>x. [hex_digit (unat x div 16), hex_digit (unat x mod 16)]) b)"

lemma hex_digit_inj: "m < 16 \<Longrightarrow> n < 16 \<Longrightarrow> hex_digit m = hex_digit n \<longleftrightarrow> m = n"
proof -
  have "\<forall>m \<in> set [0..<16]. \<forall>n \<in> set [0..<16]. hex_digit m = hex_digit n \<longrightarrow> m = n"
    by code_simp
  then show "m < 16 \<Longrightarrow> n < 16 \<Longrightarrow> hex_digit m = hex_digit n \<longleftrightarrow> m = n" by auto
qed

lemma hex_encode_inject [simp]: "hex_encode a = hex_encode b \<longleftrightarrow> a = b"
proof
  assume "hex_encode a = hex_encode b"
  then show "a = b"
  proof (induction a arbitrary: b)
    case Nil
    then show ?case by (cases b) (simp_all add: hex_encode_def)
  next
    case (Cons x a)
    then obtain y b' where b: "b = y # b'" by (cases b) (simp_all add: hex_encode_def)
    have bound: "unat z div 16 < 16" for z :: byte
      using unat_byte_less [of z] by (simp add: less_mult_imp_div_less)
    from Cons.prems b have "hex_digit (unat x div 16) = hex_digit (unat y div 16)"
      and "hex_digit (unat x mod 16) = hex_digit (unat y mod 16)" and "hex_encode a = hex_encode b'"
      by (simp_all add: hex_encode_def)
    then have "unat x div 16 = unat y div 16" and "unat x mod 16 = unat y mod 16" and "a = b'"
      using Cons.IH by (simp_all add: hex_digit_inj bound)
    then have "unat x = unat y" by (metis div_mult_mod_eq)
    then have "x = y" by (rule unsigned_word_eqI)
    with \<open>a = b'\<close> b show ?case by simp
  qed
qed simp

lemma length_hex_encode [simp]: "length (hex_encode b) = 2 * length b"
  by (induction b) (simp_all add: hex_encode_def)

section \<open>Properties\<close>

lemma TrimRight_replicate: "c \<in> set cs \<Longrightarrow> TrimRight (s @ replicate n c) cs = TrimRight s cs"
proof -
  assume "c \<in> set cs"
  then have "dropWhile (\<lambda>x. x \<in> set cs) (replicate n c @ rev s) = dropWhile (\<lambda>x. x \<in> set cs) (rev s)"
    by (induction n) simp_all
  then show ?thesis by (simp add: TrimRight_def)
qed

lemma B64u_no_padding: "CHR ''='' \<notin> set (B64u b)"
  using B64u_byte by (fastforce simp: b64u_byte_def ord_def)

lemma B64uDecode_padded: "B64uDecode (s @ replicate n CHR ''='') = B64uDecode s"
  by (simp add: B64uDecode_def TrimRight_replicate)

text \<open>decoding what was encoded gives the bytes back, with any number of padding
  characters behind it; the encoding itself has none.\<close>

theorem base64url_roundtrip:
  "B64uDecode (B64u b @ replicate n CHR ''='') = Inr b \<and> CHR ''='' \<notin> set (B64u b)"
  by (simp_all add: B64uDecode_padded B64uDecode_B64u B64u_no_padding)

text \<open>the pre-authentication encoding is injective: two lists of byte strings have one
  encoding only if they have the same pieces at the same boundaries.\<close>

theorem PAE_unambiguous:
  assumes "go_slices ps" and "go_slices qs"
  shows "PAE ps = PAE qs \<longleftrightarrow> ps = qs"
  using assms by (rule pae.enc_eq_iff)

theorem PAE_unambiguous_witness: "PAE [[1], [2, 3]] \<noteq> PAE [[1, 2], [3]]"
  using PAE_unambiguous [of "[[1], [2, 3]]" "[[1, 2], [3]]"] by (simp add: go_slices_def go_len_def)

end
