(* ===== verification/Netip.thy ===== *)
theory Netip
  imports Codec
begin

text \<open>
  What the code uses of Go's \<^verbatim>\<open>net/netip\<close> and of \<^verbatim>\<open>net.SplitHostPort\<close>: addresses (\<open>Addr\<close>), the
  parser \<open>ParseAddr\<close>, the printer \<open>AddrString\<close>, \<open>Unmap\<close>, prefixes with \<open>ParsePrefix\<close>,
  \<open>Prefix_of\<close> (the method \<^verbatim>\<open>Addr.Prefix\<close>) and \<open>Contains_addr\<close>. An IPv4 address is a 32-bit
  word, an IPv6 address a 128-bit word with a zone (empty for none). A parse error is
  \<^const>\<open>None\<close>: the code never looks at which one it was.
\<close>

datatype Addr = Addr4 "32 word" | Addr6 "128 word" string

section \<open>Reading addresses\<close>

definition dec_val :: "char \<Rightarrow> nat option" where
  "dec_val c = (if ord CHR ''0'' \<le> ord c \<and> ord c \<le> ord CHR ''9'' then Some (ord c - ord CHR ''0'') else None)"

definition hex_val :: "char \<Rightarrow> nat option" where
  "hex_val c =
     (if ord CHR ''0'' \<le> ord c \<and> ord c \<le> ord CHR ''9'' then Some (ord c - ord CHR ''0'')
      else if ord CHR ''a'' \<le> ord c \<and> ord c \<le> ord CHR ''f'' then Some (ord c - ord CHR ''a'' + 10)
      else if ord CHR ''A'' \<le> ord c \<and> ord c \<le> ord CHR ''F'' then Some (ord c - ord CHR ''A'' + 10)
      else None)"

text \<open>The loop of \<^verbatim>\<open>parseIPv4Fields\<close>: the previous byte (none at the start), the value and the
  number of digits of the current octet, and the octets already read.\<close>

fun parseIPv4Fields :: "char option \<Rightarrow> nat \<Rightarrow> nat \<Rightarrow> nat list \<Rightarrow> string \<Rightarrow> nat list option" where
  "parseIPv4Fields prev val digLen fields [] =
     (if length fields < 3 then None else Some (fields @ [val]))"
| "parseIPv4Fields prev val digLen fields (c # s) =
     (case dec_val c of
        Some d \<Rightarrow>
          if digLen = 1 \<and> val = 0 then None
          else let v = val * 10 + d in
               if v > 255 then None else parseIPv4Fields (Some c) v (Suc digLen) fields s
      | None \<Rightarrow>
          if c = CHR ''.'' then
            if prev = None \<or> s = [] \<or> prev = Some CHR ''.'' then None
            else if length fields = 3 then None
            else parseIPv4Fields (Some c) 0 0 (fields @ [val]) s
          else None)"

text \<open>The word whose digits in base \<open>2 ^ k\<close> are given, most significant first.\<close>

definition word_of_digits :: "nat \<Rightarrow> nat list \<Rightarrow> 'a :: len word" where
  "word_of_digits k ds = fold (\<lambda>d acc. push_bit k acc OR word_of_nat d) ds 0"

definition parseIPv4 :: "string \<Rightarrow> Addr option" where
  "parseIPv4 s = map_option (\<lambda>fs. Addr4 (word_of_digits 8 fs)) (parseIPv4Fields None 0 0 [] s)"

text \<open>One group of \<^verbatim>\<open>parseIPv6\<close>: the number of digits, the value, and what follows.\<close>

fun hex_group :: "nat \<Rightarrow> nat \<Rightarrow> string \<Rightarrow> (nat \<times> nat \<times> string) option" where
  "hex_group off acc [] = Some (off, acc, [])"
| "hex_group off acc (c # s) =
     (case hex_val c of
        None \<Rightarrow> Some (off, acc, c # s)
      | Some d \<Rightarrow>
          let acc' = acc * 16 + d in
          if off > 3 then None
          else if acc' > 65535 then None
          else hex_group (Suc off) acc' s)"

text \<open>The main loop of \<^verbatim>\<open>parseIPv6\<close>. The code fills a byte array at index \<^verbatim>\<open>i\<close>; the groups read so
  far are a list here, so \<^verbatim>\<open>i\<close> is twice its length. The result is the groups, the position of
  the ellipsis in groups, and the unread rest.\<close>

function parseIPv6_loop ::
  "string \<Rightarrow> nat list \<Rightarrow> nat option \<Rightarrow> (nat list \<times> nat option \<times> string) option" where
  "parseIPv6_loop s gs ell =
     (if length gs \<ge> 8 then Some (gs, ell, s)
      else case hex_group 0 0 s of
        None \<Rightarrow> None
      | Some (off, acc, rest) \<Rightarrow>
          if off = 0 then None
          else if HasPrefix rest ''.'' then
            if ell = None \<and> length gs \<noteq> 6 then None
            else if length gs + 2 > 8 then None
            else (case parseIPv4Fields None 0 0 [] s of
                    Some [a, b, c, d] \<Rightarrow> Some (gs @ [a * 256 + b, c * 256 + d], ell, [])
                  | _ \<Rightarrow> None)
          else
            (case rest of
               [] \<Rightarrow> Some (gs @ [acc], ell, [])
             | x # s1 \<Rightarrow>
                 if x \<noteq> CHR '':'' then None
                 else (case s1 of
                         [] \<Rightarrow> None
                       | y # s2 \<Rightarrow>
                           if y = CHR '':'' then
                             if ell \<noteq> None then None
                             else if s2 = [] then Some (gs @ [acc], Some (length gs + 1), [])
                             else parseIPv6_loop s2 (gs @ [acc]) (Some (length gs + 1))
                           else parseIPv6_loop s1 (gs @ [acc]) ell)))"
  by pat_completeness auto
termination
  by (relation "measure (\<lambda>(s, gs, ell). 8 - length gs)") auto

declare parseIPv6_loop.simps [simp del]

text \<open>The tail of \<^verbatim>\<open>parseIPv6\<close>: the whole string must be read, and an ellipsis stands for at least
  one group of zeros.\<close>

fun expand_groups :: "(nat list \<times> nat option \<times> string) option \<Rightarrow> nat list option" where
  "expand_groups None = None"
| "expand_groups (Some (gs, ell, rest)) =
     (if rest \<noteq> [] then None
      else if length gs < 8 then
        (case ell of
           None \<Rightarrow> None
         | Some e \<Rightarrow> Some (take e gs @ replicate (8 - length gs) 0 @ drop e gs))
      else if ell \<noteq> None then None
      else Some gs)"

definition parseIPv6_groups :: "string \<Rightarrow> nat list option" where
  "parseIPv6_groups s =
     (if HasPrefix s ''::'' then
        let s' = drop 2 s in
        if s' = [] then Some (replicate 8 0)
        else expand_groups (parseIPv6_loop s' [] (Some 0))
      else expand_groups (parseIPv6_loop s [] None))"

definition parseIPv6 :: "string \<Rightarrow> Addr option" where
  "parseIPv6 s =
     (case IndexByte s CHR ''%'' of
        None \<Rightarrow> map_option (\<lambda>gs. Addr6 (word_of_digits 16 gs) []) (parseIPv6_groups s)
      | Some i \<Rightarrow>
          let zone = drop (Suc i) s in
          if zone = [] then None
          else map_option (\<lambda>gs. Addr6 (word_of_digits 16 gs) zone) (parseIPv6_groups (take i s)))"

text \<open>\<^verbatim>\<open>ParseAddr\<close> chooses by the first of the bytes dot, colon and percent it meets.\<close>

definition ParseAddr :: "string \<Rightarrow> Addr option" where
  "ParseAddr s =
     (case find (\<lambda>c. c \<in> set ''.:%'') s of
        None \<Rightarrow> None
      | Some c \<Rightarrow>
          if c = CHR ''.'' then parseIPv4 s
          else if c = CHR '':'' then parseIPv6 s
          else None)"

section \<open>Printing addresses\<close>

text \<open>Digits of a number in a base up to 16, without leading zeros.\<close>

fun show_base :: "nat \<Rightarrow> nat \<Rightarrow> string" where
  "show_base b n =
     (if n < b \<or> b < 2 then [hex_digit n] else show_base b (n div b) @ [hex_digit (n mod b)])"

declare show_base.simps [simp del]

definition v4_octets :: "32 word \<Rightarrow> nat list" where
  "v4_octets w = map (\<lambda>i. unat (drop_bit (24 - 8 * i) w AND 0xff)) [0..<4]"

definition v6_groups :: "128 word \<Rightarrow> nat list" where
  "v6_groups w = map (\<lambda>i. unat (drop_bit (112 - 16 * i) w AND 0xffff)) [0..<8]"

definition string4 :: "32 word \<Rightarrow> string" where
  "string4 w = Join (map (show_base 10) (v4_octets w)) ''.''"

text \<open>The run of at least two zero groups \<^verbatim>\<open>appendTo6\<close> elides: the longest, the first of equals.\<close>

definition zero_run :: "nat list \<Rightarrow> (nat \<times> nat) option" where
  "zero_run gs =
     fold (\<lambda>i best.
             let l = length (takeWhile (\<lambda>g. g = 0) (drop i gs));
                 old = (case best of None \<Rightarrow> 0 | Some (s, e) \<Rightarrow> e - s)
             in if l \<ge> 2 \<and> l > old then Some (i, i + l) else best) [0..<8] None"

definition show_groups :: "nat list \<Rightarrow> string" where
  "show_groups gs = Join (map (show_base 16) gs) '':''"

definition string6_groups :: "nat list \<Rightarrow> string" where
  "string6_groups gs =
     (case zero_run gs of
        None \<Rightarrow> show_groups gs
      | Some (s, e) \<Rightarrow> show_groups (take s gs) @ ''::'' @ show_groups (drop e gs))"

definition Is4In6 :: "Addr \<Rightarrow> bool" where
  "Is4In6 a = (case a of Addr4 _ \<Rightarrow> False | Addr6 w _ \<Rightarrow> drop_bit 32 w = 0xffff)"

definition Is4 :: "Addr \<Rightarrow> bool" where
  "Is4 a = (case a of Addr4 _ \<Rightarrow> True | Addr6 _ _ \<Rightarrow> False)"

definition Zone :: "Addr \<Rightarrow> string" where
  "Zone a = (case a of Addr4 _ \<Rightarrow> [] | Addr6 _ z \<Rightarrow> z)"

text \<open>\<^verbatim>\<open>Unmap\<close> turns an IPv4-mapped IPv6 address into the IPv4 one, dropping its zone.\<close>

definition Unmap :: "Addr \<Rightarrow> Addr" where
  "Unmap a = (case a of Addr4 w \<Rightarrow> Addr4 w
                      | Addr6 w z \<Rightarrow> if Is4In6 (Addr6 w z) then Addr4 (ucast w) else Addr6 w z)"

definition AddrString :: "Addr \<Rightarrow> string" where
  "AddrString a =
     (case a of
        Addr4 w \<Rightarrow> string4 w
      | Addr6 w z \<Rightarrow>
          (if Is4In6 a then ''::ffff:'' @ string4 (ucast w) else string6_groups (v6_groups w)) @
          (if z = [] then [] else CHR ''%'' # z))"

section \<open>Prefixes\<close>

text \<open>\<^verbatim>\<open>netip.Prefix\<close>: the address, without a zone, and the number of leading bits.\<close>

datatype Prefix = Prefix (prefix_addr: Addr) (prefix_bits: nat)

definition BitLen :: "Addr \<Rightarrow> nat" where
  "BitLen a = (if Is4 a then 32 else 128)"

definition withoutZone :: "Addr \<Rightarrow> Addr" where
  "withoutZone a = (case a of Addr4 w \<Rightarrow> Addr4 w | Addr6 w _ \<Rightarrow> Addr6 w [])"

text \<open>The word with the \<open>n\<close> most significant bits set.\<close>

definition high_mask :: "nat \<Rightarrow> 'a :: len word" where
  "high_mask n = NOT (mask (LENGTH('a) - n))"

text \<open>\<^verbatim>\<open>Addr.Prefix(b)\<close>: an error outside the address family's range, else the masked address.\<close>

definition Prefix_of :: "Addr \<Rightarrow> int \<Rightarrow> Prefix option" where
  "Prefix_of a b =
     (if b < 0 \<or> b > int (BitLen a) then None
      else Some (Prefix
        (case a of Addr4 w \<Rightarrow> Addr4 (w AND high_mask (nat b))
                 | Addr6 w _ \<Rightarrow> Addr6 (w AND high_mask (nat b)) []) (nat b)))"

fun digits_value :: "nat \<Rightarrow> string \<Rightarrow> nat option" where
  "digits_value acc [] = Some acc"
| "digits_value acc (c # s) =
     (case dec_val c of None \<Rightarrow> None | Some d \<Rightarrow> digits_value (acc * 10 + d) s)"

definition ParsePrefix :: "string \<Rightarrow> Prefix option" where
  "ParsePrefix s =
     (case LastIndexByte s CHR ''/'' of
        None \<Rightarrow> None
      | Some i \<Rightarrow>
          (case ParseAddr (take i s) of
             None \<Rightarrow> None
           | Some a \<Rightarrow>
               let bits = drop (Suc i) s in
               if Zone a \<noteq> [] then None
               else if bits = [] then None
               else if length bits > 1 \<and>
                 (ord (hd bits) < ord CHR ''1'' \<or> ord (hd bits) > ord CHR ''9'') then None
               else (case digits_value 0 bits of
                       None \<Rightarrow> None
                     | Some n \<Rightarrow> if n > BitLen a then None else Some (Prefix a n))))"

text \<open>\<^verbatim>\<open>PrefixFrom(a, a.BitLen())\<close>, for a bare address.\<close>

definition PrefixFrom :: "Addr \<Rightarrow> nat \<Rightarrow> Prefix" where
  "PrefixFrom a n = Prefix (withoutZone a) n"

definition Contains_addr :: "Prefix \<Rightarrow> Addr \<Rightarrow> bool" where
  "Contains_addr p a =
     (Zone a = [] \<and>
      (case (prefix_addr p, a) of
         (Addr4 v, Addr4 w) \<Rightarrow> (v XOR w) AND high_mask (prefix_bits p) = 0
       | (Addr6 v _, Addr6 w _) \<Rightarrow> (v XOR w) AND high_mask (prefix_bits p) = 0
       | _ \<Rightarrow> False))"

section \<open>Host and port\<close>

text \<open>\<^verbatim>\<open>net.SplitHostPort\<close>; the callers use only the host.\<close>

definition SplitHostPort :: "string \<Rightarrow> (string \<times> string) option" where
  "SplitHostPort hp =
     (case LastIndexByte hp CHR '':'' of
        None \<Rightarrow> None
      | Some i \<Rightarrow>
          if HasPrefix hp ''['' then
            (case IndexByte hp CHR '']'' of
               None \<Rightarrow> None
             | Some e \<Rightarrow>
                 if Suc e = length hp then None
                 else if Suc e \<noteq> i then None
                 else if CHR ''['' \<in> set (drop 1 hp) then None
                 else if CHR '']'' \<in> set (drop (Suc e) hp) then None
                 else Some (take (e - 1) (drop 1 hp), drop (Suc i) hp))
          else
            let host = take i hp in
            if CHR '':'' \<in> set host then None
            else if CHR ''['' \<in> set hp then None
            else if CHR '']'' \<in> set hp then None
            else Some (host, drop (Suc i) hp))"

end
