(* ===== verification/NetipRoundtrip.thy ===== *)
theory NetipRoundtrip
  imports Netip
begin

text \<open>
  Printing an address and parsing it again gives the address back: the law that makes
  \<^verbatim>\<open>CanonIP\<close> stable, since the code canonicalizes an already canonical address (the rate-limit
  key, the nonce MAC) and must get the same bytes. IPv4 first, then the compressed IPv6 form,
  whose \<^verbatim>\<open>::\<close> the parser has to expand to exactly the run of zeros the printer elided.
\<close>


section \<open>Digits\<close>

lemma dec_val_hex_digit: "d < 10 \<Longrightarrow> dec_val (hex_digit d) = Some d"
proof -
  have "\<forall>d \<in> set [0..<10]. dec_val (hex_digit d) = Some d" by code_simp
  then show "d < 10 \<Longrightarrow> dec_val (hex_digit d) = Some d" by auto
qed

lemma hex_val_hex_digit: "d < 16 \<Longrightarrow> hex_val (hex_digit d) = Some d"
proof -
  have "\<forall>d \<in> set [0..<16]. hex_val (hex_digit d) = Some d" by code_simp
  then show "d < 16 \<Longrightarrow> hex_val (hex_digit d) = Some d" by auto
qed

lemma hex_digit_plain: "d < 16 \<Longrightarrow> hex_digit d \<notin> set ''.:%''"
proof -
  have "\<forall>d \<in> set [0..<16]. hex_digit d \<notin> set ''.:%''" by code_simp
  then show "d < 16 \<Longrightarrow> hex_digit d \<notin> set ''.:%''" by auto
qed

lemma show_base_nonempty [simp]: "show_base b n \<noteq> []"
  by (subst show_base.simps) simp

lemma show_base_hex: "2 \<le> b \<Longrightarrow> b \<le> 16 \<Longrightarrow> c \<in> set (show_base b n) \<Longrightarrow> \<exists>d < 16. c = hex_digit d"
proof (induction b n rule: show_base.induct)
  case (1 b n)
  show ?case
  proof (cases "n < b")
    case True
    then have "n < 16" and "c = hex_digit n" using "1.prems" by (auto simp: show_base.simps [of b n])
    then show ?thesis by blast
  next
    case False
    have "n mod b < b" using "1.prems"(1) by simp
    then have "n mod b < 16" using "1.prems"(2) by simp
    then show ?thesis using 1 False by (auto simp: show_base.simps [of b n])
  qed
qed

lemma show_base_plain: "b \<le> 16 \<Longrightarrow> 2 \<le> b \<Longrightarrow> c \<in> set (show_base b n) \<Longrightarrow> c \<notin> set ''.:%''"
  using show_base_hex hex_digit_plain by blast

section \<open>IPv4\<close>

text \<open>Reading one printed octet.\<close>

lemma parse_octet:
  assumes "n < 256"
  shows "\<exists>c k. c \<noteq> CHR ''.'' \<and> (\<forall>rest. parseIPv4Fields prev 0 0 fs (show_base 10 n @ rest) =
    parseIPv4Fields (Some c) n k fs rest)"
proof -
  have nd: "hex_digit d \<noteq> CHR ''.''" if "d < 10" for d using hex_digit_plain [of d] that by auto
  consider "n < 10" | "10 \<le> n" "n < 100" | "100 \<le> n" by linarith
  then show ?thesis
  proof cases
    case 1
    then have "show_base 10 n = [hex_digit n]" by (simp add: show_base.simps)
    with 1 show ?thesis
      by (intro exI [of _ "hex_digit n"] exI [of _ 1]) (simp add: nd dec_val_hex_digit)
  next
    case 2
    then have s: "show_base 10 n = [hex_digit (n div 10), hex_digit (n mod 10)]"
      by (simp add: show_base.simps)
    have d: "n div 10 < 10" "0 < n div 10" "n mod 10 < 10" "n div 10 * 10 + n mod 10 = n" using 2 by auto
    show ?thesis
      by (rule exI [of _ "hex_digit (n mod 10)"], rule exI [of _ 2])
        (use d assms in \<open>simp add: s nd dec_val_hex_digit numeral_2_eq_2\<close>)
  next
    case 3
    then have "10 \<le> n" "10 \<le> n div 10" "n div 100 < 10" using assms by auto
    then have s: "show_base 10 n = [hex_digit (n div 100), hex_digit (n div 10 mod 10), hex_digit (n mod 10)]"
      by (simp add: show_base.simps div_mult2_eq [symmetric])
    have d: "n div 100 < 10" "0 < n div 100" "n div 10 mod 10 < 10" "n mod 10 < 10"
      "n div 10 * 10 + n mod 10 = n" "n div 10 < 256" using 3 assms by auto
    have "n div 100 = n div 10 div 10" by (simp add: div_mult2_eq [symmetric])
    then have e: "n div 100 * 10 + n div 10 mod 10 = n div 10" by simp
    show ?thesis
      by (rule exI [of _ "hex_digit (n mod 10)"], rule exI [of _ 3])
        (use d e assms in \<open>simp add: s nd dec_val_hex_digit numeral_3_eq_3\<close>)
  qed
qed

lemma dec_val_dot: "dec_val CHR ''.'' = None"
  by (simp add: dec_val_def ord_def)

lemma parse_octet_dot:
  assumes "n < 256" and "length fs < 3" and "rest \<noteq> []"
  shows "parseIPv4Fields prev 0 0 fs (show_base 10 n @ CHR ''.'' # rest) =
    parseIPv4Fields (Some CHR ''.'') 0 0 (fs @ [n]) rest"
proof -
  obtain c k where "c \<noteq> CHR ''.''" and
    "\<forall>r. parseIPv4Fields prev 0 0 fs (show_base 10 n @ r) = parseIPv4Fields (Some c) n k fs r"
    using parse_octet [OF assms(1)] by metis
  with assms(2,3) show ?thesis by (simp add: dec_val_dot)
qed

lemma parse_octet_end:
  assumes "n < 256" and "length fs = 3"
  shows "parseIPv4Fields prev 0 0 fs (show_base 10 n) = Some (fs @ [n])"
proof -
  obtain c k where
    "\<forall>r. parseIPv4Fields prev 0 0 fs (show_base 10 n @ r) = parseIPv4Fields (Some c) n k fs r"
    using parse_octet [OF assms(1)] by metis
  from spec [OF this, of "[]"] assms(2) show ?thesis by simp
qed

lemma parseIPv4Fields_string:
  assumes "a < 256" "b < 256" "c < 256" "d < 256"
  shows "parseIPv4Fields None 0 0 [] (Join (map (show_base 10) [a, b, c, d]) ''.'') = Some [a, b, c, d]"
  using assms by (simp add: parse_octet_dot parse_octet_end)

text \<open>A word is the value of its digits.\<close>

lemma bit_digit:
  "bit (push_bit s (drop_bit s (w :: 'a :: len word) AND mask m) :: 'a word) k \<longleftrightarrow>
     s \<le> k \<and> k < s + m \<and> bit w k"
  by (auto simp: bit_push_bit_iff bit_and_iff bit_drop_bit_eq bit_mask_iff dest: bit_imp_le_length)

lemma mask_ff: "(0xff :: 32 word) = mask 8" "(0xffff :: 128 word) = mask 16"
  by (simp_all add: mask_eq_exp_minus_1)

lemma push_digits:
  "push_bit k (push_bit j x OR y) OR z = push_bit (j + k) x OR push_bit k (y :: 'a :: len word) OR z"
  by (simp add: push_bit_or push_bit_push_bit add.commute or.assoc)

lemma word_of_digits_v4 [simp]: "word_of_digits 8 (v4_octets w) = w"
proof (rule bit_word_eqI)
  fix k assume "k < LENGTH(32)"
  then have k: "k < 32" by simp
  let ?d = "\<lambda>s. push_bit s (drop_bit s w AND mask 8) :: 32 word"
  have "word_of_digits 8 (v4_octets w) = ?d 24 OR ?d 16 OR ?d 8 OR ?d 0"
    by (simp add: word_of_digits_def v4_octets_def upt_rec mask_ff push_bit_or push_bit_push_bit or.assoc)
  then have "bit (word_of_digits 8 (v4_octets w) :: 32 word) k \<longleftrightarrow>
      (24 \<le> k \<and> k < 32 \<or> 16 \<le> k \<and> k < 24 \<or> 8 \<le> k \<and> k < 16 \<or> k < 8) \<and> bit w k"
    by (simp only: bit_or_iff bit_digit) auto
  with k show "bit (word_of_digits 8 (v4_octets w) :: 32 word) k \<longleftrightarrow> bit w k" by linarith
qed

lemma word_of_digits_v6 [simp]: "word_of_digits 16 (v6_groups w) = w"
proof (rule bit_word_eqI)
  fix k assume "k < LENGTH(128)"
  then have k: "k < 128" by simp
  let ?d = "\<lambda>s. push_bit s (drop_bit s w AND mask 16) :: 128 word"
  have "word_of_digits 16 (v6_groups w) =
      ?d 112 OR ?d 96 OR ?d 80 OR ?d 64 OR ?d 48 OR ?d 32 OR ?d 16 OR ?d 0"
    by (simp add: word_of_digits_def v6_groups_def upt_rec mask_ff push_bit_or push_bit_push_bit or.assoc)
  then have "bit (word_of_digits 16 (v6_groups w) :: 128 word) k \<longleftrightarrow>
      (112 \<le> k \<and> k < 128 \<or> 96 \<le> k \<and> k < 112 \<or> 80 \<le> k \<and> k < 96 \<or> 64 \<le> k \<and> k < 80 \<or>
       48 \<le> k \<and> k < 64 \<or> 32 \<le> k \<and> k < 48 \<or> 16 \<le> k \<and> k < 32 \<or> k < 16) \<and> bit w k"
    by (simp only: bit_or_iff bit_digit) auto
  with k show "bit (word_of_digits 16 (v6_groups w) :: 128 word) k \<longleftrightarrow> bit w k" by linarith
qed

lemma unat_and_mask_less: "unat (x AND mask m) < 2 ^ m"
  by (simp add: unsigned_take_bit_eq flip: take_bit_eq_mask)

lemma v4_octets_bound: "n \<in> set (v4_octets w) \<Longrightarrow> n < 256"
  using unat_and_mask_less [where m = 8] by (auto simp: v4_octets_def mask_ff)

lemma v6_groups_bound: "n \<in> set (v6_groups w) \<Longrightarrow> n < 65536"
  using unat_and_mask_less [where m = 16] by (auto simp: v6_groups_def mask_ff)

lemma set_Join: "set (Join ws sep) \<subseteq> (\<Union>w \<in> set ws. set w) \<union> set sep"
  by (induction ws sep rule: Join.induct) auto

lemma parseIPv4_string4: "parseIPv4 (string4 w) = Some (Addr4 w)"
proof -
  obtain a b c d where q: "v4_octets w = [a, b, c, d]" by (simp add: v4_octets_def upt_rec)
  then have "a < 256" "b < 256" "c < 256" "d < 256" using v4_octets_bound [of _ w] by simp_all
  then have "parseIPv4Fields None 0 0 [] (string4 w) = Some (v4_octets w)"
    unfolding string4_def q by (rule parseIPv4Fields_string)
  then show ?thesis by (simp add: parseIPv4_def)
qed

text \<open>\<^verbatim>\<open>ParseAddr\<close> looks for the first of three bytes; when the string holds only one of them, that
  is the one found.\<close>

lemma find_only:
  assumes "c \<in> set s" and "P c" and "\<And>x. x \<in> set s \<Longrightarrow> P x \<Longrightarrow> x = c"
  shows "find P s = Some c"
proof -
  have "find P s \<noteq> None" using assms(1,2) by (auto simp: find_None_iff)
  then obtain x where x: "find P s = Some x" by blast
  then have "x \<in> set s" and "P x" by (auto simp: find_Some_iff)
  with x assms(3) show ?thesis by simp
qed

lemma ParseAddr_string4: "ParseAddr (string4 w) = Some (Addr4 w)"
proof -
  obtain a b c d where q: "v4_octets w = [a, b, c, d]" by (simp add: v4_octets_def upt_rec)
  have "find (\<lambda>c. c \<in> set ''.:%'') (string4 w) = Some CHR ''.''"
  proof (rule find_only)
    show "CHR ''.'' \<in> set (string4 w)" by (simp add: string4_def q)
    fix x assume "x \<in> set (string4 w)" and "x \<in> set ''.:%''"
    then show "x = CHR ''.''"
      using set_Join [of "map (show_base 10) (v4_octets w)" "''.''"] show_base_plain [of 10 x]
      by (fastforce simp: string4_def)
  qed simp
  then show ?thesis by (simp add: ParseAddr_def parseIPv4_string4)
qed

section \<open>IPv6\<close>

text \<open>Reading one printed group.\<close>

lemma hex_group_show_aux:
  "n < 16 ^ k \<Longrightarrow> 0 < k \<Longrightarrow> k \<le> 4 \<Longrightarrow>
     \<exists>j. 0 < j \<and> j \<le> k \<and> hex_group 0 0 (show_base 16 n @ rest) = hex_group j n rest"
proof (induction k arbitrary: n rest)
  case 0
  then show ?case by simp
next
  case (Suc k)
  have "n < 16 ^ 4" using Suc.prems power_increasing [of "Suc k" 4 "16 :: nat"] by simp
  then have bound: "n \<le> 65535" by simp
  show ?case
  proof (cases "n < 16")
    case True
    then have "show_base 16 n = [hex_digit n]" by (simp add: show_base.simps)
    with True bound show ?thesis by (intro exI [of _ 1]) (simp add: hex_val_hex_digit)
  next
    case False
    then have s: "show_base 16 n = show_base 16 (n div 16) @ [hex_digit (n mod 16)]"
      by (simp add: show_base.simps [of 16 n])
    have "0 < k" using False Suc.prems by (cases k) simp_all
    moreover have "n div 16 < 16 ^ k" using Suc.prems(1) by (simp add: less_mult_imp_div_less)
    ultimately obtain j where j: "0 < j" "j \<le> k" and
      "hex_group 0 0 (show_base 16 (n div 16) @ hex_digit (n mod 16) # rest) =
       hex_group j (n div 16) (hex_digit (n mod 16) # rest)"
      using Suc.IH [of "n div 16" "hex_digit (n mod 16) # rest"] Suc.prems by auto
    with s bound Suc.prems(3) show ?thesis
      by (intro exI [of _ "Suc j"]) (simp add: hex_val_hex_digit)
  qed
qed

lemma hex_group_show:
  assumes "n < 65536" and "rest = [] \<or> hex_val (hd rest) = None"
  shows "\<exists>j. 0 < j \<and> hex_group 0 0 (show_base 16 n @ rest) = Some (j, n, rest)"
proof -
  obtain j where "0 < j" "hex_group 0 0 (show_base 16 n @ rest) = hex_group j n rest"
    using hex_group_show_aux [of n 4 rest] assms(1) by auto
  moreover have "hex_group j n rest = Some (j, n, rest)" using assms(2) by (cases rest) auto
  ultimately show ?thesis by auto
qed

lemma hex_val_colon: "hex_val CHR '':'' = None"
  by (simp add: hex_val_def ord_def)

lemma show_groups_Nil [simp]: "show_groups [] = []"
  by (simp add: show_groups_def)

lemma show_groups_Cons:
  "show_groups (h # hs) = show_base 16 h @ (if hs = [] then [] else CHR '':'' # show_groups hs)"
  by (cases hs) (simp_all add: show_groups_def)

text \<open>Printed groups start with a digit.\<close>

lemma show_groups_start:
  assumes "hs \<noteq> []"
  shows "\<exists>y t. show_groups hs @ r = y # t \<and> y \<noteq> CHR '':''"
proof -
  obtain h hs' where hs: "hs = h # hs'" using assms by (cases hs) auto
  obtain y t where y: "show_base 16 h = y # t" by (cases "show_base 16 h") simp_all
  then have "y \<notin> set ''.:%''" using show_base_plain [of 16 y h] by simp
  with hs y show ?thesis by (simp add: show_groups_Cons)
qed

lemma parseIPv6_loop_end:
  assumes "h < 65536" and "length gs < 8"
  shows "parseIPv6_loop (show_base 16 h) gs ell = Some (gs @ [h], ell, [])"
proof -
  obtain j where "0 < j" "hex_group 0 0 (show_base 16 h) = Some (j, h, [])"
    using hex_group_show [of h "[]"] assms(1) by auto
  with assms(2) show ?thesis by (subst parseIPv6_loop.simps) (simp add: HasPrefix_def)
qed

lemma parseIPv6_loop_colon:
  assumes "h < 65536" and "length gs < 8" and "y \<noteq> CHR '':''"
  shows "parseIPv6_loop (show_base 16 h @ CHR '':'' # y # t) gs ell = parseIPv6_loop (y # t) (gs @ [h]) ell"
proof -
  obtain j where "0 < j"
    "hex_group 0 0 (show_base 16 h @ CHR '':'' # y # t) = Some (j, h, CHR '':'' # y # t)"
    using hex_group_show [of h "CHR '':'' # y # t"] assms(1) by (auto simp: hex_val_colon)
  with assms(2,3) show ?thesis by (subst parseIPv6_loop.simps) (simp add: HasPrefix_def)
qed

lemma parseIPv6_loop_ellipsis:
  assumes "h < 65536" and "length gs < 8"
  shows "parseIPv6_loop (show_base 16 h @ CHR '':'' # CHR '':'' # t) gs None =
    (if t = [] then Some (gs @ [h], Some (length gs + 1), [])
     else parseIPv6_loop t (gs @ [h]) (Some (length gs + 1)))"
proof -
  obtain j where "0 < j"
    "hex_group 0 0 (show_base 16 h @ CHR '':'' # CHR '':'' # t) = Some (j, h, CHR '':'' # CHR '':'' # t)"
    using hex_group_show [of h "CHR '':'' # CHR '':'' # t"] assms(1) by (auto simp: hex_val_colon)
  with assms(2) show ?thesis by (subst parseIPv6_loop.simps) (simp add: HasPrefix_def)
qed

lemma parseIPv6_loop_groups:
  "hs \<noteq> [] \<Longrightarrow> \<forall>h \<in> set hs. h < 65536 \<Longrightarrow> length gs + length hs \<le> 8 \<Longrightarrow>
     parseIPv6_loop (show_groups hs) gs ell = Some (gs @ hs, ell, [])"
proof (induction hs arbitrary: gs)
  case (Cons h hs)
  show ?case
  proof (cases "hs = []")
    case True
    with Cons.prems show ?thesis by (simp add: show_groups_Cons parseIPv6_loop_end)
  next
    case False
    then obtain y t where y: "show_groups hs = y # t" "y \<noteq> CHR '':''"
      using show_groups_start [of hs "[]"] by auto
    have "parseIPv6_loop (show_groups (h # hs)) gs ell = parseIPv6_loop (show_groups hs) (gs @ [h]) ell"
      using Cons.prems y False by (simp only: show_groups_Cons) (simp add: parseIPv6_loop_colon)
    also have "\<dots> = Some ((gs @ [h]) @ hs, ell, [])" by (rule Cons.IH) (use Cons.prems False in auto)
    finally show ?thesis by simp
  qed
qed simp

lemma parseIPv6_loop_groups_ellipsis:
  "hs \<noteq> [] \<Longrightarrow> \<forall>h \<in> set hs. h < 65536 \<Longrightarrow> length gs + length hs \<le> 8 \<Longrightarrow>
     parseIPv6_loop (show_groups hs @ ''::'' @ t) gs None =
       (if t = [] then Some (gs @ hs, Some (length gs + length hs), [])
        else parseIPv6_loop t (gs @ hs) (Some (length gs + length hs)))"
proof (induction hs arbitrary: gs)
  case (Cons h hs)
  show ?case
  proof (cases "hs = []")
    case True
    with Cons.prems show ?thesis by (simp add: show_groups_Cons parseIPv6_loop_ellipsis)
  next
    case False
    then obtain y u where y: "show_groups hs @ ''::'' @ t = y # u" "y \<noteq> CHR '':''"
      using show_groups_start [of hs "''::'' @ t"] by blast
    have split: "show_groups (h # hs) @ ''::'' @ t = show_base 16 h @ CHR '':'' # (show_groups hs @ ''::'' @ t)"
      using False by (simp add: show_groups_Cons)
    have "parseIPv6_loop (show_groups (h # hs) @ ''::'' @ t) gs None =
        parseIPv6_loop (show_groups hs @ ''::'' @ t) (gs @ [h]) None"
      unfolding split y(1) using Cons.prems y(2) by (intro parseIPv6_loop_colon) auto
    also have "\<dots> = (if t = [] then Some ((gs @ [h]) @ hs, Some (length (gs @ [h]) + length hs), [])
        else parseIPv6_loop t ((gs @ [h]) @ hs) (Some (length (gs @ [h]) + length hs)))"
      by (rule Cons.IH) (use Cons.prems False in auto)
    finally show ?thesis by simp
  qed
qed simp

text \<open>The elided run really is a run of zeros.\<close>

lemma takeWhile_zero: "takeWhile (\<lambda>g. g = 0) gs = replicate (length (takeWhile (\<lambda>g. g = (0::nat)) gs)) 0"
  by (induction gs) simp_all

lemma zero_run_Some:
  assumes "zero_run gs = Some (s, e)" and "length gs = 8"
  shows "s < e \<and> e \<le> 8 \<and> gs = take s gs @ replicate (e - s) 0 @ drop e gs"
proof -
  let ?P = "\<lambda>best. case best of None \<Rightarrow> True
      | Some (s, e) \<Rightarrow> e = s + length (takeWhile (\<lambda>g. g = 0) (drop s gs)) \<and> s < e"
  have inv: "?P (zero_run gs)"
    unfolding zero_run_def
    by (rule fold_invariant [where Q = "\<lambda>_. True"]) (auto simp: Let_def split: option.splits)
  from inv [unfolded assms(1) option.case prod.case]
  have e: "e = s + length (takeWhile (\<lambda>g. g = 0) (drop s gs))" and "s < e" by blast+
  let ?z = "takeWhile (\<lambda>g. g = 0) (drop s gs)"
  have "length ?z \<le> 8 - s" using length_takeWhile_le [of _ "drop s gs"] assms(2) by simp
  with e \<open>s < e\<close> have "e \<le> 8" by linarith
  have "drop s gs = ?z @ dropWhile (\<lambda>g. g = 0) (drop s gs)" by simp
  also have "dropWhile (\<lambda>g. g = 0) (drop s gs) = drop e gs"
    using e by (simp add: dropWhile_eq_drop add.commute)
  finally have "drop s gs = replicate (e - s) 0 @ drop e gs"
    using takeWhile_zero [of "drop s gs"] e by simp
  then have "gs = take s gs @ replicate (e - s) 0 @ drop e gs" by (metis append_take_drop_id)
  with \<open>s < e\<close> \<open>e \<le> 8\<close> show ?thesis by blast
qed

lemma parseIPv6_groups_string:
  assumes "length gs = 8" and "\<forall>g \<in> set gs. g < 65536"
  shows "parseIPv6_groups (string6_groups gs) = Some gs"
proof (cases "zero_run gs")
  case None
  have "gs \<noteq> []" using assms(1) by auto
  then obtain y t where y: "show_groups gs = y # t" "y \<noteq> CHR '':''"
    using show_groups_start [of gs "[]"] by auto
  have "parseIPv6_loop (show_groups gs) [] None = Some (gs, None, [])"
    using parseIPv6_loop_groups [of gs "[]" None] assms \<open>gs \<noteq> []\<close> by simp
  with None y assms(1) show ?thesis
    by (simp add: string6_groups_def parseIPv6_groups_def HasPrefix_def)
next
  case (Some se)
  obtain s e where se: "se = (s, e)" by (cases se)
  with Some zero_run_Some assms(1) have lt: "s < e" "e \<le> 8"
    and gs: "gs = take s gs @ replicate (e - s) 0 @ drop e gs" by blast+
  let ?tail = "show_groups (drop e gs)"
  have tail: "parseIPv6_loop ?tail (take s gs) (Some s) = Some (take s gs @ drop e gs, Some s, [])"
    if "drop e gs \<noteq> []"
  proof -
    have "\<forall>h \<in> set (drop e gs). h < 65536" using assms(2) by (auto dest: in_set_dropD)
    with that parseIPv6_loop_groups [of "drop e gs" "take s gs" "Some s"] assms(1) lt
    show ?thesis by simp
  qed
  have tail_nil: "?tail = [] \<longleftrightarrow> drop e gs = []"
    by (cases "drop e gs") (simp_all add: show_groups_Cons)
  have expand: "expand_groups (Some (take s gs @ drop e gs, Some s, [])) = Some gs"
    using lt assms(1) gs by simp
  have str: "string6_groups gs = show_groups (take s gs) @ ''::'' @ ?tail"
    using Some se by (simp add: string6_groups_def)
  show ?thesis
  proof (cases "s = 0")
    case True
    show ?thesis
    proof (cases "drop e gs = []")
      case nil: True
      then have "gs = replicate 8 0" using gs True lt assms(1) by simp
      with nil True str show ?thesis by (simp add: parseIPv6_groups_def HasPrefix_def)
    next
      case False
      with True str tail expand tail_nil show ?thesis
        by (simp add: parseIPv6_groups_def HasPrefix_def)
    qed
  next
    case False
    then have ne: "take s gs \<noteq> []" using assms(1) by auto
    then obtain y u where y: "show_groups (take s gs) @ ''::'' @ ?tail = y # u" "y \<noteq> CHR '':''"
      using show_groups_start [of "take s gs" "''::'' @ ?tail"] by blast
    have "\<forall>h \<in> set (take s gs). h < 65536" using assms(2) by (auto dest: in_set_takeD)
    then have "parseIPv6_loop (string6_groups gs) [] None = Some (take s gs @ drop e gs, Some s, [])"
      using parseIPv6_loop_groups_ellipsis [of "take s gs" "[]" ?tail] ne assms(1) lt tail tail_nil
      unfolding str by (cases "drop e gs = []") simp_all
    moreover have "\<not> HasPrefix (string6_groups gs) ''::''" using str y by (simp add: HasPrefix_def)
    ultimately show ?thesis using expand by (simp add: parseIPv6_groups_def)
  qed
qed

lemma set_show_groups: "x \<in> set (show_groups gs) \<Longrightarrow> x \<in> set ''.:%'' \<Longrightarrow> x = CHR '':''"
  using set_Join [of "map (show_base 16) gs" "'':''"] show_base_plain [of 16 x]
  by (fastforce simp: show_groups_def)

lemma string6_groups_bytes:
  assumes "length gs = 8"
  shows "CHR '':'' \<in> set (string6_groups gs)"
    and "x \<in> set (string6_groups gs) \<Longrightarrow> x \<in> set ''.:%'' \<Longrightarrow> x = CHR '':''"
proof -
  obtain g h gs' where "gs = g # h # gs'"
    using assms by (cases gs; cases "tl gs") auto
  then show "CHR '':'' \<in> set (string6_groups gs)"
    by (simp add: string6_groups_def show_groups_Cons split: option.splits)
  show "x \<in> set (string6_groups gs) \<Longrightarrow> x \<in> set ''.:%'' \<Longrightarrow> x = CHR '':''"
    by (auto simp: string6_groups_def split: option.splits dest: set_show_groups)
qed

lemma length_v6_groups [simp]: "length (v6_groups w) = 8"
  by (simp add: v6_groups_def)

lemma ParseAddr_string6: "ParseAddr (string6_groups (v6_groups w)) = Some (Addr6 w [])"
proof -
  let ?s = "string6_groups (v6_groups w)"
  note bytes = string6_groups_bytes [OF length_v6_groups [of w]]
  have "find (\<lambda>c. c \<in> set ''.:%'') ?s = Some CHR '':''"
    by (rule find_only) (auto dest: bytes(2) intro: bytes(1))
  moreover have "IndexByte ?s CHR ''%'' = None"
    using bytes(2) by (fastforce simp: IndexByte_def index_of_None_iff)
  ultimately show ?thesis
    by (simp add: ParseAddr_def parseIPv6_def parseIPv6_groups_string v6_groups_bound)
qed

section \<open>Parsing what was printed\<close>

text \<open>An address without a zone that is not IPv4-mapped is read back as itself. (A mapped one is
  printed in the mixed notation; the code unmaps every address before it prints it.)\<close>

lemma ParseAddr_AddrString:
  "Zone a = [] \<Longrightarrow> \<not> Is4In6 a \<Longrightarrow> ParseAddr (AddrString a) = Some a"
  by (cases a) (simp_all add: AddrString_def Zone_def ParseAddr_string4 ParseAddr_string6)

lemma AddrString_inject:
  assumes "Zone a = []" "\<not> Is4In6 a" "Zone b = []" "\<not> Is4In6 b"
  shows "AddrString a = AddrString b \<longleftrightarrow> a = b"
  using ParseAddr_AddrString assms by (metis option.inject)

text \<open>The bytes of a printed address.\<close>

definition addr_byte :: "char \<Rightarrow> bool" where
  "addr_byte c \<longleftrightarrow> c \<in> set ''0123456789abcdef.:''"

lemma addr_byte_show_base: "2 \<le> b \<Longrightarrow> b \<le> 16 \<Longrightarrow> c \<in> set (show_base b n) \<Longrightarrow> addr_byte c"
proof -
  have "\<forall>d \<in> set [0..<16]. addr_byte (hex_digit d)" by code_simp
  then have "addr_byte (hex_digit d)" if "d < 16" for d using that by auto
  then show "2 \<le> b \<Longrightarrow> b \<le> 16 \<Longrightarrow> c \<in> set (show_base b n) \<Longrightarrow> addr_byte c"
    using show_base_hex by blast
qed

lemma addr_byte_string4: "c \<in> set (string4 w) \<Longrightarrow> addr_byte c"
  using set_Join [of "map (show_base 10) (v4_octets w)" "''.''"] addr_byte_show_base [of 10 c]
  by (fastforce simp: string4_def addr_byte_def)

lemma addr_byte_show_groups: "c \<in> set (show_groups gs) \<Longrightarrow> addr_byte c"
  using set_Join [of "map (show_base 16) gs" "'':''"] addr_byte_show_base [of 16 c]
  by (fastforce simp: show_groups_def addr_byte_def)

lemma addr_byte_AddrString: "Zone a = [] \<Longrightarrow> \<not> Is4In6 a \<Longrightarrow> c \<in> set (AddrString a) \<Longrightarrow> addr_byte c"
  by (cases a)
    (auto simp: AddrString_def Zone_def string6_groups_def addr_byte_def [of "CHR '':''"]
      dest: addr_byte_string4 addr_byte_show_groups split: option.splits)

text \<open>The length of a printed address.\<close>

lemma length_show_base: "2 \<le> b \<Longrightarrow> n < b ^ Suc k \<Longrightarrow> length (show_base b n) \<le> Suc k"
proof (induction k arbitrary: n)
  case 0
  then show ?case by (simp add: show_base.simps [of b n])
next
  case (Suc k)
  have "n div b < b ^ Suc k" using Suc.prems by (simp add: less_mult_imp_div_less mult.commute)
  then have "length (show_base b (n div b)) \<le> Suc k" using Suc by blast
  then show ?case by (simp add: show_base.simps [of b n])
qed

lemma length_Join: "(\<And>w. w \<in> set ws \<Longrightarrow> length w \<le> m) \<Longrightarrow>
    length (Join ws sep) \<le> length ws * (m + length sep)"
proof (induction ws sep rule: Join.induct)
  case (3 w v vs sep)
  then have "length w \<le> m" and "length (Join (v # vs) sep) \<le> length (v # vs) * (m + length sep)"
    by simp_all
  then show ?case by simp
qed (simp_all add: le_add1 order.trans)

lemma length_string4: "length (string4 w) \<le> 16"
proof -
  have "length v \<le> 3" if "v \<in> set (map (show_base 10) (v4_octets w))" for v
    using that v4_octets_bound [of _ w] length_show_base [of 10 _ 2] by force
  then show ?thesis
    using length_Join [of "map (show_base 10) (v4_octets w)" 3 "''.''"]
    by (simp add: string4_def) (simp add: v4_octets_def)
qed

lemma length_show_groups:
  assumes "\<And>g. g \<in> set gs \<Longrightarrow> g < 65536"
  shows "length (show_groups gs) \<le> 5 * length gs"
proof -
  have "length v \<le> 4" if "v \<in> set (map (show_base 16) gs)" for v
    using that assms length_show_base [of 16 _ 3] by force
  then show ?thesis using length_Join [of "map (show_base 16) gs" 4 "'':''"] by (simp add: show_groups_def)
qed

lemma length_string6: "length (string6_groups (v6_groups w)) \<le> 40"
proof -
  have part: "length (show_groups gs) \<le> 5 * length gs" if "set gs \<subseteq> set (v6_groups w)" for gs
    using length_show_groups [of gs] v6_groups_bound that by blast
  show ?thesis
  proof (cases "zero_run (v6_groups w)")
    case None
    then show ?thesis using part [of "v6_groups w"] by (simp add: string6_groups_def)
  next
    case (Some p)
    obtain s e where p: "p = (s, e)" by (cases p)
    then have "s < e" "e \<le> 8" using zero_run_Some [of "v6_groups w" s e] Some by simp_all
    then show ?thesis
      using part [of "take s (v6_groups w)"] part [of "drop e (v6_groups w)"] Some p
      by (simp add: string6_groups_def set_take_subset set_drop_subset)
  qed
qed

end
