(* ===== verification/Canon.thy ===== *)
theory Canon
  imports NetipRoundtrip
begin

text \<open>
  Canonicalization, \<^verbatim>\<open>core/go/canon.go\<close>: \<open>CanonServerName\<close> and \<open>CanonIP\<close> decide what a MAC is
  computed over and what a grant is keyed by. The property that matters is that they name each
  thing once: canonicalizing an already canonical value changes nothing, so layers that
  canonicalize a different number of times still agree. That contract is the locale
  \<open>canonicalizer\<close>, interpreted here on the string functions.
\<close>

section \<open>Interface\<close>

locale canonicalizer =
  fixes canon :: "'a \<Rightarrow> 'a"
  assumes canon_idem: "canon (canon x) = canon x"
begin

lemma canon_funpow: "(canon ^^ Suc n) x = canon x"
  by (induction n) (simp_all add: canon_idem)

lemma canon_range_iff: "x \<in> range canon \<longleftrightarrow> canon x = x"
  by (metis canon_idem rangeE rangeI)

end

section \<open>Server names\<close>

definition asciiSpace :: string where
  "asciiSpace = [CHR '' '', CHR 0x09, CHR 0x0A, CHR 0x0B, CHR 0x0C, CHR 0x0D]"

definition lower_byte :: "char \<Rightarrow> char" where
  "lower_byte c = (if ord CHR ''A'' \<le> ord c \<and> ord c \<le> ord CHR ''Z'' then char_of (ord c + 32) else c)"

definition asciiLower :: "string \<Rightarrow> string" where
  "asciiLower s = map lower_byte s"

text \<open>One iteration of the loop of \<open>trimDotsAndSpace\<close>.\<close>

definition trimStep :: "string \<Rightarrow> string" where
  "trimStep s = TrimSuffix (Trim s asciiSpace) ''.''"

lemma TrimLeft_suffix: "suffix (TrimLeft s cs) s"
  by (simp add: TrimLeft_def suffix_dropWhile)

lemma TrimRight_prefix: "prefix (TrimRight s cs) s"
  by (metis TrimRight_def suffix_dropWhile suffix_to_prefix rev_rev_ident)

lemma TrimSuffix_prefix: "prefix (TrimSuffix s p) s"
  by (simp add: TrimSuffix_def take_is_prefix)

lemma trimStep_length_le: "length (trimStep s) \<le> length s"
  and trimStep_length_eq: "length (trimStep s) = length s \<Longrightarrow> trimStep s = s"
proof -
  let ?l = "TrimLeft s asciiSpace" and ?r = "TrimRight (TrimLeft s asciiSpace) asciiSpace"
  have l: "suffix ?l s" and r: "prefix ?r ?l" and t: "prefix (trimStep s) ?r"
    by (simp_all add: TrimLeft_suffix TrimRight_prefix TrimSuffix_prefix trimStep_def Trim_def)
  have len: "length (trimStep s) \<le> length ?r" "length ?r \<le> length ?l" "length ?l \<le> length s"
    using l r t by (auto dest: prefix_length_le suffix_length_le)
  then show "length (trimStep s) \<le> length s" by simp
  assume "length (trimStep s) = length s"
  with len have "length ?l = length s" "length ?r = length ?l" "length (trimStep s) = length ?r"
    by simp_all
  with l r t show "trimStep s = s"
    by (metis prefix_order.order_refl prefix_length_less less_irrefl prefix_order.less_le
        suffix_length_less suffix_order.less_le)
qed

function trimDotsAndSpace :: "string \<Rightarrow> string" where
  "trimDotsAndSpace s = (let t = trimStep s in if t = s then s else trimDotsAndSpace t)"
  by pat_completeness auto
termination
  by (relation "measure length") (auto simp: Let_def intro: le_neq_trans trimStep_length_le dest: trimStep_length_eq)

declare trimDotsAndSpace.simps [simp del]

definition isASCIIDigits :: "string \<Rightarrow> bool" where
  "isASCIIDigits s \<longleftrightarrow> s \<noteq> [] \<and> list_all (\<lambda>c. ord CHR ''0'' \<le> ord c \<and> ord c \<le> ord CHR ''9'') s"

text \<open>The bracket step and the port step of \<open>CanonServerName\<close>.\<close>

definition unbracket :: "string \<Rightarrow> string" where
  "unbracket h =
     (if HasPrefix h ''['' then
        (case IndexByte h CHR '']'' of
           None \<Rightarrow> h
         | Some e \<Rightarrow> trimDotsAndSpace (take (e - 1) (drop 1 h)))
      else h)"

definition stripPort :: "string \<Rightarrow> string" where
  "stripPort h =
     (if CountByte h CHR '':'' = 1 then
        (case LastIndexByte h CHR '':'' of
           None \<Rightarrow> h
         | Some i \<Rightarrow> if isASCIIDigits (drop (Suc i) h) then take i h else h)
      else h)"

definition CanonServerName :: "string \<Rightarrow> string" where
  "CanonServerName host =
     (let h = trimDotsAndSpace host;
          h = unbracket h;
          h = stripPort h
      in asciiLower (trimDotsAndSpace h))"

section \<open>Client addresses\<close>

datatype canon_error = ParseError | ZonedAddress | PrefixOutOfRange | PrefixError

definition CanonIP :: "string \<Rightarrow> int \<Rightarrow> int \<Rightarrow> canon_error + string" where
  "CanonIP addr v6Prefix v4Prefix =
     (case ParseAddr addr of
        None \<Rightarrow> Inl ParseError
      | Some a \<Rightarrow>
          if Zone a \<noteq> [] then Inl ZonedAddress
          else
            let a = Unmap a in
            if v6Prefix < 0 \<or> v6Prefix > 128 \<or> v4Prefix < 0 \<or> v4Prefix > 32
            then Inl PrefixOutOfRange
            else
              let prefix = (if Is4 a then v4Prefix else v6Prefix);
                  full = (if Is4 a then 32 else 128)
              in if prefix \<ge> full then Inr (AddrString a)
                 else (case Prefix_of a prefix of
                         None \<Rightarrow> Inl PrefixError
                       | Some p \<Rightarrow> Inr (AddrString (prefix_addr p))))"

section \<open>Trimming\<close>

text \<open>A string the trimming loop leaves alone: no blank at either end, no dot at the end.\<close>

definition trimmed :: "string \<Rightarrow> bool" where
  "trimmed s \<longleftrightarrow> s = [] \<or> hd s \<notin> set asciiSpace \<and> last s \<notin> set asciiSpace \<and> last s \<noteq> CHR ''.''"

lemma trimDotsAndSpace_fix: "trimStep (trimDotsAndSpace s) = trimDotsAndSpace s"
proof (induction s rule: trimDotsAndSpace.induct)
  case (1 s)
  then show ?case by (cases "trimStep s = s") (simp_all add: trimDotsAndSpace.simps [of s] Let_def)
qed

lemma trimDotsAndSpace_step: "trimStep s = s \<Longrightarrow> trimDotsAndSpace s = s"
  by (subst trimDotsAndSpace.simps) (simp add: Let_def)

lemma TrimLeft_id_iff: "TrimLeft s cs = s \<longleftrightarrow> s = [] \<or> hd s \<notin> set cs"
proof (cases s)
  case (Cons a t)
  have "length (dropWhile (\<lambda>c. c \<in> set cs) t) \<le> length t" by (rule length_dropWhile_le)
  then have "dropWhile (\<lambda>c. c \<in> set cs) t \<noteq> a # t" by (metis impossible_Cons)
  then show ?thesis by (simp add: Cons TrimLeft_def)
qed (simp add: TrimLeft_def)

lemma TrimRight_id_iff: "TrimRight s cs = s \<longleftrightarrow> s = [] \<or> last s \<notin> set cs"
  using TrimLeft_id_iff [of "rev s" cs]
  by (auto simp: TrimRight_def TrimLeft_def hd_rev rev_swap)

lemma trimStep_id: "trimmed s \<Longrightarrow> trimStep s = s"
proof -
  assume t: "trimmed s"
  then have "Trim s asciiSpace = s"
    by (simp add: Trim_def trimmed_def) (metis TrimLeft_id_iff TrimRight_id_iff)
  moreover have "\<not> HasSuffix s ''.''"
    using t by (cases s rule: rev_cases) (auto simp: HasSuffix_def trimmed_def)
  ultimately show ?thesis by (simp add: trimStep_def TrimSuffix_def)
qed

lemma trimStep_trimmed: "trimStep s = s \<Longrightarrow> trimmed s"
proof -
  assume eq: "trimStep s = s"
  let ?l = "TrimLeft s asciiSpace" and ?r = "TrimRight (TrimLeft s asciiSpace) asciiSpace"
  have len: "length (trimStep s) \<le> length ?r" "length ?r \<le> length ?l" "length ?l \<le> length s"
    by (simp_all add: prefix_length_le suffix_length_le TrimLeft_suffix TrimRight_prefix
        TrimSuffix_prefix trimStep_def Trim_def)
  with eq have l: "?l = s"
    by (metis TrimLeft_suffix suffix_length_less suffix_order.less_le order.trans leD le_antisym)
  with eq len have r: "TrimRight s asciiSpace = s"
    by (metis TrimRight_prefix prefix_length_less prefix_order.less_le leD)
  from eq l r have "TrimSuffix s ''.'' = s" by (simp add: trimStep_def Trim_def)
  then have "\<not> HasSuffix s ''.''"
    by (auto simp: TrimSuffix_def HasSuffix_def dest: arg_cong [where f = length])
  then have "s = [] \<or> last s \<noteq> CHR ''.''"
    by (cases s rule: rev_cases) (auto simp: HasSuffix_def)
  with l r show "trimmed s"
    using TrimLeft_id_iff [of s asciiSpace] TrimRight_id_iff [of s asciiSpace]
    by (auto simp: trimmed_def)
qed

lemma trimmed_trimDotsAndSpace [simp]: "trimmed (trimDotsAndSpace s)"
  by (rule trimStep_trimmed) (rule trimDotsAndSpace_fix)

lemma trimDotsAndSpace_id: "trimmed s \<Longrightarrow> trimDotsAndSpace s = s"
  by (simp add: trimDotsAndSpace_step trimStep_id)

interpretation trim: canonicalizer trimDotsAndSpace
  by unfold_locales (simp add: trimDotsAndSpace_id)

lemma set_trimStep: "set (trimStep s) \<subseteq> set s"
  by (metis (no_types, lifting) TrimLeft_suffix TrimRight_prefix TrimSuffix_prefix Trim_def
      trimStep_def set_mono_prefix set_mono_suffix subset_trans)

lemma set_trimDotsAndSpace: "set (trimDotsAndSpace s) \<subseteq> set s"
proof (induction s rule: trimDotsAndSpace.induct)
  case (1 s)
  show ?case
  proof (cases "trimStep s = s")
    case False
    with 1 have "set (trimDotsAndSpace (trimStep s)) \<subseteq> set (trimStep s)" by simp
    with False set_trimStep [of s] show ?thesis
      by (auto simp: trimDotsAndSpace.simps [of s] Let_def)
  qed (simp add: trimDotsAndSpace_step)
qed

text \<open>Where nothing is trimmed on the left, the result is an initial part.\<close>

lemma prefix_trimStep:
  assumes "s = [] \<or> hd s \<notin> set asciiSpace"
  shows "prefix (trimStep s) s"
proof -
  have "TrimLeft s asciiSpace = s" using assms by (simp add: TrimLeft_id_iff)
  then show ?thesis
    by (metis TrimRight_prefix TrimSuffix_prefix Trim_def prefix_order.trans trimStep_def)
qed

lemma prefix_trimDotsAndSpace:
  "s = [] \<or> hd s \<notin> set asciiSpace \<Longrightarrow> prefix (trimDotsAndSpace s) s"
proof (induction s rule: trimDotsAndSpace.induct)
  case (1 s)
  show ?case
  proof (cases "trimStep s = s")
    case False
    have p: "prefix (trimStep s) s" using 1 by (simp add: prefix_trimStep)
    then have "trimStep s = [] \<or> hd (trimStep s) \<notin> set asciiSpace"
      using "1.prems" p by (metis append_is_Nil_conv hd_append2 prefix_def)
    with 1 False have "prefix (trimDotsAndSpace (trimStep s)) (trimStep s)" by simp
    with False p show ?thesis
      by (auto simp: trimDotsAndSpace.simps [of s] Let_def intro: prefix_order.trans)
  qed (simp add: trimDotsAndSpace_step)
qed

section \<open>Lower case\<close>

lemma lower_byte_cases:
  "lower_byte c = c \<or> (ord CHR ''a'' \<le> ord (lower_byte c) \<and> ord (lower_byte c) \<le> ord CHR ''z''
     \<and> ord CHR ''A'' \<le> ord c \<and> ord c \<le> ord CHR ''Z'')"
  by (simp add: lower_byte_def ord_def)

text \<open>A byte that is no ASCII letter is the image of itself only.\<close>

lemma lower_byte_nonletter:
  assumes "\<not> (ord CHR ''a'' \<le> ord d \<and> ord d \<le> ord CHR ''z'')"
    and "\<not> (ord CHR ''A'' \<le> ord d \<and> ord d \<le> ord CHR ''Z'')"
  shows "lower_byte c = d \<longleftrightarrow> c = d"
  using assms lower_byte_cases [of c] lower_byte_cases [of d] by (auto simp: lower_byte_def)

lemma lower_byte_colon [simp]: "lower_byte c = CHR '':'' \<longleftrightarrow> c = CHR '':''"
  by (rule lower_byte_nonletter) (simp_all add: ord_def)

lemma lower_byte_lbracket [simp]: "lower_byte c = CHR ''['' \<longleftrightarrow> c = CHR ''[''"
  by (rule lower_byte_nonletter) (simp_all add: ord_def)

lemma lower_byte_rbracket [simp]: "lower_byte c = CHR '']'' \<longleftrightarrow> c = CHR '']''"
  by (rule lower_byte_nonletter) (simp_all add: ord_def)

lemma lower_byte_dot [simp]: "lower_byte c = CHR ''.'' \<longleftrightarrow> c = CHR ''.''"
  by (rule lower_byte_nonletter) (simp_all add: ord_def)

lemma lower_byte_space [simp]: "lower_byte c \<in> set asciiSpace \<longleftrightarrow> c \<in> set asciiSpace"
proof -
  have eq: "lower_byte c = d \<longleftrightarrow> c = d" if "d \<in> set asciiSpace" for d
  proof (rule lower_byte_nonletter)
    from that have "ord d < ord CHR ''A''" by (auto simp: asciiSpace_def ord_def)
    then show "\<not> (ord CHR ''a'' \<le> ord d \<and> ord d \<le> ord CHR ''z'')"
      and "\<not> (ord CHR ''A'' \<le> ord d \<and> ord d \<le> ord CHR ''Z'')" by (simp_all add: ord_def)
  qed
  show ?thesis using eq [of c] eq [of "lower_byte c"] by auto
qed

lemma lower_byte_digit:
  "ord CHR ''0'' \<le> ord (lower_byte c) \<and> ord (lower_byte c) \<le> ord CHR ''9'' \<longleftrightarrow>
   ord CHR ''0'' \<le> ord c \<and> ord c \<le> ord CHR ''9''"
  using lower_byte_cases [of c] by (auto simp: ord_def)

lemma lower_byte_idem [simp]: "lower_byte (lower_byte c) = lower_byte c"
  by (simp add: lower_byte_def ord_def)

interpretation lower: canonicalizer asciiLower
  by unfold_locales (simp add: asciiLower_def)

lemma colon_mem_lower: "CHR '':'' \<in> set (asciiLower s) \<longleftrightarrow> CHR '':'' \<in> set s"
  by (simp add: asciiLower_def image_iff) (metis lower_byte_colon)

lemma rbracket_mem_lower: "CHR '']'' \<in> set (asciiLower s) \<longleftrightarrow> CHR '']'' \<in> set s"
  by (simp add: asciiLower_def image_iff) (metis lower_byte_rbracket)

lemma isASCIIDigits_lower [simp]: "isASCIIDigits (asciiLower s) = isASCIIDigits s"
  by (simp add: isASCIIDigits_def asciiLower_def list_all_iff lower_byte_digit)

lemma trimmed_lower [simp]: "trimmed (asciiLower s) = trimmed s"
  by (cases "s = []") (simp_all add: trimmed_def asciiLower_def hd_map last_map)

section \<open>Canonical names\<close>

definition bracketed :: "string \<Rightarrow> bool" where
  "bracketed h \<longleftrightarrow> HasPrefix h ''['' \<and> CHR '']'' \<in> set h"

definition has_port :: "string \<Rightarrow> string \<Rightarrow> string \<Rightarrow> bool" where
  "has_port h a b \<longleftrightarrow> h = a @ CHR '':'' # b \<and> CHR '':'' \<notin> set a \<and> CHR '':'' \<notin> set b \<and> isASCIIDigits b"

definition canonical_name :: "string \<Rightarrow> bool" where
  "canonical_name h \<longleftrightarrow> trimmed h \<and> \<not> bracketed h \<and> (\<forall>a b. \<not> has_port h a b)"

lemma unbracket_id:
  assumes "\<not> bracketed h"
  shows "unbracket h = h"
proof -
  have "IndexByte h CHR '']'' = None" if "HasPrefix h ''[''"
    using that assms by (auto simp: bracketed_def IndexByte_def index_of_None_iff)
  then show ?thesis by (simp add: unbracket_def)
qed

lemma LastIndexByte_Some:
  assumes "LastIndexByte s c = Some i"
  shows "s = take i s @ c # drop (Suc i) s" and "c \<notin> set (drop (Suc i) s)"
proof -
  from assms obtain j where j: "index_of (\<lambda>x. x = c) (rev s) = Some j" and i: "i = length s - 1 - j"
    by (auto simp: LastIndexByte_def split: option.splits)
  from index_of_Some [OF j] have lt: "j < length s" and at: "rev s ! j = c"
    and before: "c \<notin> set (take j (rev s))" by auto
  from lt at i have "i < length s" and "s ! i = c" by (simp_all add: rev_nth)
  then show "s = take i s @ c # drop (Suc i) s" by (metis id_take_nth_drop)
  have "Suc i = length s - j" using lt i by simp
  then have "take j (rev s) = rev (drop (Suc i) s)" by (simp add: take_rev)
  with before show "c \<notin> set (drop (Suc i) s)" by simp
qed

lemma LastIndexByte_None_iff: "LastIndexByte s c = None \<longleftrightarrow> c \<notin> set s"
  using index_of_None_iff [of "\<lambda>x. x = c" "rev s"]
  by (auto simp: LastIndexByte_def split: option.splits)

lemma stripPort_cases:
  obtains (port) a b where "has_port h a b" and "stripPort h = a"
  | (none) "\<forall>a b. \<not> has_port h a b" and "stripPort h = h"
proof (cases "\<exists>a b. has_port h a b")
  case True
  then obtain a b where p: "has_port h a b" by blast
  then have one: "CountByte h CHR '':'' = 1"
    by (auto simp: has_port_def CountByte_def filter_empty_conv)
  from p obtain i where i: "LastIndexByte h CHR '':'' = Some i"
    by (metis LastIndexByte_None_iff has_port_def in_set_conv_decomp not_None_eq)
  note s = LastIndexByte_Some [OF i]
  from p have nc: "CHR '':'' \<notin> set a" "CHR '':'' \<notin> set b" by (simp_all add: has_port_def)
  from p s(1) have "a @ CHR '':'' # b = take i h @ CHR '':'' # drop (Suc i) h"
    by (metis has_port_def)
  then have "take i h = a \<and> drop (Suc i) h = b" by (simp only: append_Cons_eq_iff [OF nc])
  with p one i have "stripPort h = a" by (simp add: stripPort_def has_port_def)
  with p show thesis by (rule port)
next
  case False
  have "stripPort h = h"
  proof (rule ccontr)
    assume "stripPort h \<noteq> h"
    then obtain i where one: "CountByte h CHR '':'' = 1"
      and i: "LastIndexByte h CHR '':'' = Some i" and d: "isASCIIDigits (drop (Suc i) h)"
      by (auto simp: stripPort_def split: if_splits option.splits)
    note s = LastIndexByte_Some [OF i]
    from one have "CountByte (take i h @ CHR '':'' # drop (Suc i) h) CHR '':'' = 1" using s(1) by simp
    then have "CHR '':'' \<notin> set (take i h)" by (auto simp: CountByte_def filter_empty_conv)
    with s d have "has_port h (take i h) (drop (Suc i) h)" by (simp add: has_port_def)
    with False show False by blast
  qed
  with False show thesis by (intro none) blast+
qed

lemma CanonServerName_canonical: "canonical_name h \<Longrightarrow> CanonServerName h = asciiLower h"
  by (rule stripPort_cases [of h])
    (auto simp: CanonServerName_def canonical_name_def unbracket_id trimDotsAndSpace_id Let_def)

lemma unbracket_not_bracketed:
  assumes "trimmed h"
  shows "trimmed (unbracket h) \<and> \<not> bracketed (unbracket h)"
proof (cases "bracketed h")
  case True
  then obtain e where e: "IndexByte h CHR '']'' = Some e"
    by (cases "IndexByte h CHR '']''") (auto simp: bracketed_def IndexByte_def index_of_None_iff)
  then have none: "CHR '']'' \<notin> set (take e h)" by (auto simp: IndexByte_def dest: index_of_Some)
  have "take (e - 1) (drop 1 h) = drop 1 (take e h)" by (simp add: drop_take)
  then have "CHR '']'' \<notin> set (take (e - 1) (drop 1 h))" using none by (metis in_set_dropD)
  then have "CHR '']'' \<notin> set (unbracket h)"
    using True e set_trimDotsAndSpace by (auto simp: unbracket_def bracketed_def)
  with True e show ?thesis by (simp add: unbracket_def bracketed_def)
qed (simp add: assms unbracket_id)

lemma canonical_name_stripPort:
  assumes "trimmed h" and "\<not> bracketed h"
  shows "canonical_name (trimDotsAndSpace (stripPort h))"
proof (rule stripPort_cases [of h])
  fix a b assume p: "has_port h a b" and s: "stripPort h = a"
  have hd: "a = [] \<or> hd a \<notin> set asciiSpace"
    using assms(1) p by (cases a) (auto simp: trimmed_def has_port_def)
  have pre: "prefix (trimDotsAndSpace a) h"
    using prefix_trimDotsAndSpace [OF hd] p by (simp add: has_port_def prefix_append)
  have "\<not> bracketed (trimDotsAndSpace a)"
    using assms(2) pre by (auto simp: bracketed_def HasPrefix_def prefix_def)
  moreover have "CHR '':'' \<notin> set (trimDotsAndSpace a)"
    using p set_trimDotsAndSpace by (auto simp: has_port_def)
  ultimately show ?thesis by (auto simp: s canonical_name_def has_port_def)
qed (use assms in \<open>simp add: canonical_name_def trimDotsAndSpace_id\<close>)

lemma canonical_name_lower:
  assumes "canonical_name h"
  shows "canonical_name (asciiLower h)"
proof -
  have "\<not> has_port (asciiLower h) a b" for a b
  proof
    assume "has_port (asciiLower h) a b"
    then have split: "map lower_byte h = a @ CHR '':'' # b" and nc: "CHR '':'' \<notin> set a" "CHR '':'' \<notin> set b"
      and digits: "isASCIIDigits b" by (simp_all add: has_port_def asciiLower_def)
    from split obtain a' t where "h = a' @ t" and a: "a = asciiLower a'"
      and t: "map lower_byte t = CHR '':'' # b"
      by (auto simp: map_eq_append_conv asciiLower_def)
    with t obtain c b' where h: "h = a' @ c # b'" and c: "lower_byte c = CHR '':''"
      and b: "b = asciiLower b'"
      by (auto simp: map_eq_Cons_conv asciiLower_def)
    from nc a b have "CHR '':'' \<notin> set a'" "CHR '':'' \<notin> set b'" by (simp_all add: colon_mem_lower)
    with h c b digits have "has_port h a' b'" by (simp add: has_port_def)
    with assms show False by (auto simp: canonical_name_def)
  qed
  moreover have "bracketed (asciiLower h) = bracketed h"
    unfolding bracketed_def rbracket_mem_lower
    by (cases h) (simp_all add: asciiLower_def HasPrefix_def)
  ultimately show ?thesis using assms by (simp add: canonical_name_def)
qed

lemma canonical_name_CanonServerName: "canonical_name (CanonServerName host)"
  by (simp add: CanonServerName_def Let_def canonical_name_lower canonical_name_stripPort
      unbracket_not_bracketed)

lemma CanonServerName_idem: "CanonServerName (CanonServerName host) = CanonServerName host"
proof -
  have "CanonServerName (CanonServerName host) = asciiLower (CanonServerName host)"
    by (simp add: CanonServerName_canonical canonical_name_CanonServerName)
  then show ?thesis by (simp add: CanonServerName_def Let_def lower.canon_idem)
qed

interpretation server_name: canonicalizer CanonServerName
  by unfold_locales (rule CanonServerName_idem)

section \<open>Canonical addresses\<close>

text \<open>What \<open>CanonIP\<close> prints: the unmapped address with the bits beyond the configured prefix of its
  family cleared.\<close>

definition mask_addr :: "int \<Rightarrow> int \<Rightarrow> Addr \<Rightarrow> Addr" where
  "mask_addr v6Prefix v4Prefix a =
     (case a of Addr4 w \<Rightarrow> Addr4 (w AND high_mask (nat v4Prefix))
              | Addr6 w z \<Rightarrow> Addr6 (w AND high_mask (nat v6Prefix)) [])"

definition prefixes_ok :: "int \<Rightarrow> int \<Rightarrow> bool" where
  "prefixes_ok v6Prefix v4Prefix \<longleftrightarrow> 0 \<le> v6Prefix \<and> v6Prefix \<le> 128 \<and> 0 \<le> v4Prefix \<and> v4Prefix \<le> 32"

lemma high_mask_full [simp]: "(high_mask 32 :: 32 word) = - 1" "(high_mask 128 :: 128 word) = - 1"
  by (simp_all add: high_mask_def)

lemma Zone_Unmap: "Zone a = [] \<Longrightarrow> Zone (Unmap a) = []"
  by (cases a) (simp_all add: Zone_def Unmap_def)

lemma not_Is4In6_Unmap [simp]: "\<not> Is4In6 (Unmap a)"
  by (cases a) (auto simp: Is4In6_def Unmap_def)

lemma Unmap_id: "\<not> Is4In6 a \<Longrightarrow> Unmap a = a"
  by (cases a) (simp_all add: Unmap_def)

lemma CanonIP_eq:
  "CanonIP addr p6 p4 =
     (case ParseAddr addr of
        None \<Rightarrow> Inl ParseError
      | Some a \<Rightarrow>
          if Zone a \<noteq> [] then Inl ZonedAddress
          else if \<not> prefixes_ok p6 p4 then Inl PrefixOutOfRange
          else Inr (AddrString (mask_addr p6 p4 (Unmap a))))"
proof (cases "ParseAddr addr")
  case (Some a)
  show ?thesis
  proof (cases "Zone a = [] \<and> prefixes_ok p6 p4")
    case True
    then have z: "Zone (Unmap a) = []" by (simp add: Zone_Unmap)
    show ?thesis
    proof (cases "Unmap a")
      case (Addr4 w)
      with True Some show ?thesis
        by (cases "p4 = 32")
          (auto simp: CanonIP_def Let_def Is4_def mask_addr_def prefixes_ok_def Prefix_of_def BitLen_def)
    next
      case (Addr6 w zn)
      with z have "zn = []" by (simp add: Zone_def)
      with Addr6 True Some show ?thesis
        by (cases "p6 = 128")
          (auto simp: CanonIP_def Let_def Is4_def mask_addr_def prefixes_ok_def Prefix_of_def BitLen_def)
    qed
  qed (use Some in \<open>auto simp: CanonIP_def Let_def prefixes_ok_def\<close>)
qed (simp add: CanonIP_def)

lemma bit_high_mask: "bit (high_mask n :: 'a :: len word) k \<longleftrightarrow> LENGTH('a) - n \<le> k \<and> k < LENGTH('a)"
  by (auto simp: high_mask_def bit_not_iff bit_mask_iff)

text \<open>Clearing low bits never makes an address IPv4-mapped.\<close>

lemma not_Is4In6_mask:
  assumes "\<not> Is4In6 a"
  shows "\<not> Is4In6 (mask_addr p6 p4 a)"
proof (cases a)
  case (Addr6 w z)
  show ?thesis
  proof
    assume "Is4In6 (mask_addr p6 p4 a)"
    then have eq: "drop_bit 32 (w AND high_mask (nat p6)) = 0xffff"
      by (simp add: Addr6 mask_addr_def Is4In6_def)
    have m: "bit (w AND high_mask (nat p6)) (k + 32) \<longleftrightarrow> bit (0xffff :: 128 word) k" for k
      using arg_cong [OF eq, of "\<lambda>x. bit x k"] by (simp only: bit_drop_bit_eq comp_apply add.commute)
    have "bit (w AND high_mask (nat p6)) (0 + 32)" unfolding m by simp
    then have "128 - nat p6 \<le> 32" by (simp add: bit_and_iff bit_high_mask)
    have "drop_bit 32 w = 0xffff"
    proof (rule bit_word_eqI)
      fix k
      show "bit (drop_bit 32 w) k \<longleftrightarrow> bit (0xffff :: 128 word) k"
        unfolding m [symmetric] using \<open>128 - nat p6 \<le> 32\<close>
        by (auto simp: bit_drop_bit_eq bit_and_iff bit_high_mask add.commute dest: bit_imp_le_length)
    qed
    with assms show False by (simp add: Addr6 Is4In6_def)
  qed
qed (simp add: mask_addr_def Is4In6_def)

lemma Zone_mask [simp]: "Zone (mask_addr p6 p4 a) = []"
  by (cases a) (simp_all add: mask_addr_def Zone_def)

lemma mask_addr_idem [simp]: "mask_addr p6 p4 (mask_addr p6 p4 a) = mask_addr p6 p4 a"
  by (cases a) (simp_all add: mask_addr_def and.assoc)

lemma ParseAddr_CanonIP:
  "CanonIP addr p6 p4 = Inr s \<Longrightarrow> \<exists>a. \<not> Is4In6 a \<and> s = AddrString (mask_addr p6 p4 a) \<and>
     ParseAddr s = Some (mask_addr p6 p4 a) \<and> prefixes_ok p6 p4"
  by (force simp: CanonIP_eq ParseAddr_AddrString not_Is4In6_mask split: option.splits if_splits)

lemma CanonIP_idem: "CanonIP addr p6 p4 = Inr s \<Longrightarrow> CanonIP s p6 p4 = Inr s"
  by (drule ParseAddr_CanonIP) (auto simp: CanonIP_eq Unmap_id not_Is4In6_mask)

text \<open>Two addresses get one canonical name exactly when they lie in the same block.\<close>

lemma CanonIP_same_iff:
  assumes "ParseAddr x = Some a" "Zone a = []" "ParseAddr y = Some b" "Zone b = []"
    and "prefixes_ok p6 p4"
  shows "CanonIP x p6 p4 = CanonIP y p6 p4 \<longleftrightarrow> mask_addr p6 p4 (Unmap a) = mask_addr p6 p4 (Unmap b)"
  using assms by (simp add: CanonIP_eq AddrString_inject not_Is4In6_mask)

lemma length_CanonIP:
  assumes "CanonIP addr p6 p4 = Inr s"
  shows "length s \<le> 40"
proof -
  from assms obtain a where s: "s = AddrString a" and z: "Zone a = []" and m: "\<not> Is4In6 a"
    using ParseAddr_CanonIP not_Is4In6_mask Zone_mask by blast
  show ?thesis
  proof (cases a)
    case (Addr4 w)
    then show ?thesis using length_string4 [of w] by (simp add: s AddrString_def)
  next
    case (Addr6 w zn)
    then show ?thesis using length_string6 [of w] z m by (simp add: s AddrString_def Zone_def)
  qed
qed

text \<open>An IPv4 address and its IPv4-mapped IPv6 spelling are one client.\<close>

lemma CanonIP_Unmap:
  assumes "ParseAddr x = Some a" "Zone a = []" "ParseAddr y = Some (Unmap a)"
  shows "CanonIP x p6 p4 = CanonIP y p6 p4"
  using assms by (simp add: CanonIP_eq Zone_Unmap Unmap_id)

section \<open>Properties\<close>

text \<open>canonicalizing a server name is idempotent, and its result is trimmed, without
  brackets and without a port.\<close>

theorem server_name_canonical:
  "CanonServerName (CanonServerName host) = CanonServerName host \<and> canonical_name (CanonServerName host)"
  by (simp add: CanonServerName_idem canonical_name_CanonServerName)

text \<open>canonicalizing an address is idempotent: a canonical address is its own canonical form,
  so every layer that canonicalizes again keys on the same string.\<close>

theorem client_address_canonical:
  assumes "CanonIP addr v6Prefix v4Prefix = Inr s"
  shows "CanonIP s v6Prefix v4Prefix = Inr s"
  using assms by (rule CanonIP_idem)

theorem client_address_canonical_witness: "CanonIP ''192.0.2.0'' 64 24 = Inr ''192.0.2.0''"
proof -
  have "CanonIP ''192.0.2.77'' 64 24 = Inr ''192.0.2.0''" by code_simp
  then show ?thesis by (rule client_address_canonical)
qed

text \<open>C33: two addresses get one canonical form exactly when they lie in the same block of the
  configured prefix length, an IPv4-mapped address counting as the IPv4 one.\<close>

theorem same_client_iff_same_block:
  assumes "ParseAddr x = Some a" "Zone a = []" "ParseAddr y = Some b" "Zone b = []"
    and "prefixes_ok v6Prefix v4Prefix"
  shows "CanonIP x v6Prefix v4Prefix = CanonIP y v6Prefix v4Prefix \<longleftrightarrow>
    mask_addr v6Prefix v4Prefix (Unmap a) = mask_addr v6Prefix v4Prefix (Unmap b)"
  using assms by (rule CanonIP_same_iff)

theorem same_client_iff_same_block_witness:
  "CanonIP ''192.0.2.77'' 128 24 = CanonIP ''192.0.2.1'' 128 24"
proof -
  have x: "ParseAddr ''192.0.2.77'' = Some (Addr4 0xc000024d)" by code_simp
  have y: "ParseAddr ''192.0.2.1'' = Some (Addr4 0xc0000201)" by code_simp
  have m: "mask_addr 128 24 (Unmap (Addr4 0xc000024d)) = mask_addr 128 24 (Unmap (Addr4 0xc0000201))"
    by (simp add: mask_addr_def Unmap_def high_mask_def mask_eq_exp_minus_1)
  show ?thesis
    using same_client_iff_same_block [OF x _ y _, of 128 24] m by (simp add: Zone_def prefixes_ok_def)
qed

end
