(* ===== verification/Crypto.thy ===== *)
theory Crypto
  imports Canon
begin

text \<open>
  \<^verbatim>\<open>core/go/crypto.go\<close>: the proof a client computes over a nonce (\<open>ProofCanonical\<close>, \<open>BuildProof\<close>,
  \<open>VerifyProof\<close>) and the stateless, authenticated nonce (\<open>IssueNonce\<close>, \<open>VerifyNonce\<close>).

  Both are tags over a pre-authentication encoding. What a tag binds is stated without any
  assumption on HMAC: if one tag is accepted for two inputs, then the inputs are equal or the
  two exhibited messages are a collision of HMAC-SHA-256 under that key. The interface
  \<open>tag_scheme\<close> derives this once from the injectivity of the encoding and is interpreted on the
  proof and on the nonce.
\<close>

section \<open>Interface\<close>

locale tag_scheme = injective_encoding enc dom
  for enc :: "'a \<Rightarrow> bytes" and dom :: "'a \<Rightarrow> bool" +
  fixes tag :: "bytes \<Rightarrow> bytes \<Rightarrow> bytes"
begin

lemma tag_binds:
  "dom x \<Longrightarrow> dom y \<Longrightarrow> tag k (enc x) = tag k (enc y) \<Longrightarrow>
     x = y \<or> (enc x \<noteq> enc y \<and> tag k (enc x) = tag k (enc y))"
  using enc_eqD by auto

end

text \<open>Two different messages with one HMAC-SHA-256 tag under one key.\<close>

definition hmac_collision :: "bytes \<Rightarrow> bytes \<Rightarrow> bytes \<Rightarrow> bool" where
  "hmac_collision key m m' \<longleftrightarrow> m \<noteq> m' \<and> hmacSHA256 key m = hmacSHA256 key m'"

section \<open>Constants and randomness\<close>

definition ProofDomain :: string where
  "ProofDomain = ''jitaccess-v1''"

definition NonceDomain :: string where
  "NonceDomain = ''jitaccess-nonce-v1''"

definition NonceLen :: nat where
  "NonceLen = 56"

text \<open>One read of \<^verbatim>\<open>crypto/rand\<close>: it fails, or it yields bytes.\<close>

type_synonym draw = "(nat \<Rightarrow> byte) option"

datatype rand_error = RandError

definition RandomBytes :: "nat \<Rightarrow> draw \<Rightarrow> rand_error + bytes" where
  "RandomBytes n d = (case d of None \<Rightarrow> Inl RandError | Some f \<Rightarrow> Inr (map f [0..<n]))"

lemma length_RandomBytes: "RandomBytes n d = Inr b \<Longrightarrow> length b = n"
  by (auto simp: RandomBytes_def split: option.splits)

section \<open>The proof\<close>

definition ProofCanonical :: "string \<Rightarrow> string \<Rightarrow> bytes \<Rightarrow> bytes" where
  "ProofCanonical serverName kid nonceRaw =
     PAE [bytes_of ProofDomain, bytes_of (CanonServerName serverName), bytes_of kid, nonceRaw]"

definition BuildProof :: "bytes \<Rightarrow> string \<Rightarrow> string \<Rightarrow> bytes \<Rightarrow> bytes" where
  "BuildProof secret serverName kid nonceRaw =
     hmacSHA256 secret (ProofCanonical serverName kid nonceRaw)"

definition VerifyProof :: "bytes \<Rightarrow> string \<Rightarrow> string \<Rightarrow> bytes \<Rightarrow> bytes \<Rightarrow> bool" where
  "VerifyProof secret serverName kid nonceRaw tag \<longleftrightarrow>
     BuildProof secret serverName kid nonceRaw = tag"

section \<open>The nonce\<close>

definition nonceMACInput :: "64 word \<Rightarrow> bytes \<Rightarrow> string \<Rightarrow> string \<Rightarrow> int \<Rightarrow> canon_error + bytes" where
  "nonceMACInput ts rand16 serverName ip v6Prefix =
     (case CanonIP ip v6Prefix 32 of
        Inl err \<Rightarrow> Inl err
      | Inr ipc \<Rightarrow>
          Inr (PAE [bytes_of NonceDomain, be64 ts, rand16,
                    bytes_of (CanonServerName serverName), bytes_of ipc]))"

datatype nonce_error = BadRandLen | BadIP canon_error

definition IssueNonce ::
  "bytes \<Rightarrow> 64 word \<Rightarrow> bytes \<Rightarrow> string \<Rightarrow> string \<Rightarrow> int \<Rightarrow> nonce_error + bytes" where
  "IssueNonce nonceKey ts rand16 serverName ip v6Prefix =
     (if length rand16 \<noteq> 16 then Inl BadRandLen
      else (case nonceMACInput ts rand16 serverName ip v6Prefix of
              Inl err \<Rightarrow> Inl (BadIP err)
            | Inr inp \<Rightarrow> Inr (be64 ts @ rand16 @ hmacSHA256 nonceKey inp)))"

text \<open>The freshness test keeps the source's order: the unsigned bound first, then two signed
  comparisons, the second on a difference that wraps.\<close>

definition VerifyNonce ::
  "bytes \<Rightarrow> bytes \<Rightarrow> string \<Rightarrow> string \<Rightarrow> int \<Rightarrow> int \<Rightarrow> int \<Rightarrow> bool \<times> bytes" where
  "VerifyNonce nonceKey nonce serverName ip now ttl v6Prefix =
     (if length nonce \<noteq> NonceLen then (False, [])
      else
        let ts = be64_decode (take 8 nonce);
            rand16 = take 16 (drop 8 nonce);
            mac = drop 24 nonce
        in case nonceMACInput ts rand16 serverName ip v6Prefix of
             Inl err \<Rightarrow> (False, [])
           | Inr inp \<Rightarrow>
               if hmacSHA256 nonceKey inp \<noteq> mac then (False, [])
               else if uint ts > 2 ^ 63 - 1 \<or> now < sint ts \<or> i64 (now - sint ts) \<ge> ttl
               then (False, [])
               else (True, rand16))"

section \<open>Sizes\<close>

lemma length_trimDotsAndSpace: "length (trimDotsAndSpace s) \<le> length s"
proof (induction s rule: trimDotsAndSpace.induct)
  case (1 s)
  then show ?case
    using trimStep_length_le [of s]
    by (cases "trimStep s = s") (auto simp: trimDotsAndSpace.simps [of s] Let_def)
qed

lemma length_unbracket: "length (unbracket h) \<le> length h"
proof -
  have "length (trimDotsAndSpace (take n (drop 1 h))) \<le> length h" for n
    by (rule order.trans [OF length_trimDotsAndSpace]) simp
  then show ?thesis by (auto simp: unbracket_def split: option.splits)
qed

lemma length_stripPort: "length (stripPort h) \<le> length h"
  by (auto simp: stripPort_def split: option.splits)

lemma length_CanonServerName: "length (CanonServerName host) \<le> length host"
proof -
  have "length (CanonServerName host) \<le> length (stripPort (unbracket (trimDotsAndSpace host)))"
    by (simp add: CanonServerName_def Let_def asciiLower_def length_trimDotsAndSpace)
  also have "\<dots> \<le> length host"
    by (meson length_stripPort length_unbracket length_trimDotsAndSpace order.trans)
  finally show ?thesis .
qed

lemma go_len_CanonIP: "CanonIP addr p6 p4 = Inr s \<Longrightarrow> go_len s"
  using length_CanonIP [of addr p6 p4 s] by (simp add: go_len_def)

section \<open>What a proof binds\<close>

lemma go_len_CanonServerName:
  "go_len sn \<Longrightarrow> go_len (CanonServerName sn)"
  using length_CanonServerName [of sn] by (simp add: go_len_def)

text \<open>The proof's message, over an already canonical name.\<close>

definition proof_input :: "string \<times> string \<times> bytes \<Rightarrow> bytes" where
  "proof_input = (\<lambda>(sn, kid, n). PAE [bytes_of ProofDomain, bytes_of sn, bytes_of kid, n])"

definition proof_input_ok :: "string \<times> string \<times> bytes \<Rightarrow> bool" where
  "proof_input_ok = (\<lambda>(sn, kid, n). go_len sn \<and> go_len kid \<and> go_len n)"

interpretation proof_tag: tag_scheme proof_input proof_input_ok hmacSHA256
proof unfold_locales
  fix x y
  assume "proof_input_ok x" "proof_input_ok y" "proof_input x = proof_input y"
  then show "x = y"
    by (auto simp: proof_input_def proof_input_ok_def go_slices_def go_len_def ProofDomain_def
        dest!: pae.enc_eqD [rotated 2] split: prod.splits)
qed

lemma ProofCanonical_eq: "ProofCanonical sn kid n = proof_input (CanonServerName sn, kid, n)"
  by (simp add: ProofCanonical_def proof_input_def)

lemma BuildProof_eq:
  "BuildProof secret sn kid n = hmacSHA256 secret (proof_input (CanonServerName sn, kid, n))"
  by (simp add: BuildProof_def ProofCanonical_eq)

lemma VerifyProof_binds:
  assumes "VerifyProof secret sn kid n tag" and "VerifyProof secret sn' kid' n' tag"
    and "go_len sn" "go_len kid" "go_len n" "go_len sn'" "go_len kid'" "go_len n'"
  shows "(CanonServerName sn, kid, n) = (CanonServerName sn', kid', n') \<or>
     hmac_collision secret (ProofCanonical sn kid n) (ProofCanonical sn' kid' n')"
  using assms proof_tag.tag_binds [of "(CanonServerName sn, kid, n)" "(CanonServerName sn', kid', n')" secret]
  by (auto simp: VerifyProof_def BuildProof_eq proof_input_ok_def go_len_CanonServerName hmac_collision_def ProofCanonical_eq)

section \<open>What a nonce binds\<close>

definition nonce_input :: "64 word \<times> bytes \<times> string \<times> string \<Rightarrow> bytes" where
  "nonce_input = (\<lambda>(ts, r, sn, ipc). PAE [bytes_of NonceDomain, be64 ts, r, bytes_of sn, bytes_of ipc])"

definition nonce_input_ok :: "64 word \<times> bytes \<times> string \<times> string \<Rightarrow> bool" where
  "nonce_input_ok = (\<lambda>(ts, r, sn, ipc). go_len r \<and> go_len sn \<and> go_len ipc)"

interpretation nonce_tag: tag_scheme nonce_input nonce_input_ok hmacSHA256
proof unfold_locales
  fix x y
  assume "nonce_input_ok x" "nonce_input_ok y" "nonce_input x = nonce_input y"
  then show "x = y"
    by (auto simp: nonce_input_def nonce_input_ok_def go_slices_def go_len_def NonceDomain_def
        dest!: pae.enc_eqD [rotated 2] split: prod.splits)
qed

text \<open>No message is both a proof's and a nonce's: the encodings have different domains.\<close>

lemma proof_nonce_separate:
  assumes "proof_input_ok x" and "nonce_input_ok y"
  shows "proof_input x \<noteq> nonce_input y"
  using assms
  by (auto simp: nonce_input_def nonce_input_ok_def proof_input_def proof_input_ok_def
      go_slices_def go_len_def NonceDomain_def ProofDomain_def
      dest!: pae.enc_eqD [rotated 2] split: prod.splits)

lemma nonceMACInput_eq:
  "nonceMACInput ts r sn ip p6 =
     map_sum id (\<lambda>ipc. nonce_input (ts, r, CanonServerName sn, ipc)) (CanonIP ip p6 32)"
  by (simp add: nonceMACInput_def nonce_input_def split: sum.splits)

lemma IssueNonce_Inr_iff:
  "IssueNonce key ts r sn ip p6 = Inr nonce \<longleftrightarrow>
     length r = 16 \<and> (\<exists>ipc. CanonIP ip p6 32 = Inr ipc \<and>
       nonce = be64 ts @ r @ hmacSHA256 key (nonce_input (ts, r, CanonServerName sn, ipc)))"
  by (cases "CanonIP ip p6 32") (auto simp: IssueNonce_def nonceMACInput_eq)

lemma length_IssueNonce: "IssueNonce key ts r sn ip p6 = Inr nonce \<Longrightarrow> length nonce = NonceLen"
  by (auto simp: IssueNonce_Inr_iff NonceLen_def)

lemma IssueNonce_error_iff:
  "(\<exists>e. IssueNonce key ts r sn ip p6 = Inl e) \<longleftrightarrow>
     length r \<noteq> 16 \<or> (\<exists>e. CanonIP ip p6 32 = Inl e)"
  by (cases "CanonIP ip p6 32") (auto simp: IssueNonce_def nonceMACInput_eq)

text \<open>The freshness window in plain integers, free of wrap-around.\<close>

definition fresh :: "64 word \<Rightarrow> int \<Rightarrow> int \<Rightarrow> bool" where
  "fresh ts now ttl \<longleftrightarrow> uint ts < 2 ^ 63 \<and> uint ts \<le> now \<and> now - uint ts < ttl"

lemma sint_small: "uint (ts :: 64 word) < 2 ^ 63 \<Longrightarrow> sint ts = uint ts"
  using signed_take_bit_int_eq_self [of 63 "uint ts"] uint_ge_0 [of ts] by (simp add: sint_uint)

lemma fresh_iff:
  assumes "is_i64 now"
  shows "fresh ts now ttl \<longleftrightarrow> \<not> (uint ts > 2 ^ 63 - 1 \<or> now < sint ts \<or> i64 (now - sint ts) \<ge> ttl)"
proof (cases "uint ts < 2 ^ 63 \<and> uint ts \<le> now")
  case True
  then have "sint ts = uint ts" by (simp add: sint_small)
  moreover have "0 \<le> now" using True uint_ge_0 [of ts] by linarith
  then have "i64 (now - uint ts) = now - uint ts"
    using True assms by (intro i64_diff) (auto simp: is_i64_def)
  ultimately show ?thesis using True by (auto simp: fresh_def)
qed (auto simp: fresh_def sint_small)

lemma nonce_parts:
  fixes nonce :: bytes
  assumes "length nonce = 56"
  obtains ts r mac where "nonce = be64 ts @ r @ mac" and "length r = 16" and "length mac = 32"
proof
  have "nonce = take 8 nonce @ take 16 (drop 8 nonce) @ drop 16 (drop 8 nonce)"
    by (simp only: append_take_drop_id)
  then show "nonce = be64 (be64_decode (take 8 nonce)) @ take 16 (drop 8 nonce) @ drop 16 (drop 8 nonce)"
    using assms by simp
qed (use assms in simp_all)

lemma VerifyNonce_parts:
  assumes "length r = 16" and "length mac = 32" and "is_i64 now"
  shows "VerifyNonce key (be64 ts @ r @ mac) sn ip now ttl p6 =
    (case CanonIP ip p6 32 of
       Inl _ \<Rightarrow> (False, [])
     | Inr ipc \<Rightarrow>
         if mac = hmacSHA256 key (nonce_input (ts, r, CanonServerName sn, ipc)) \<and> fresh ts now ttl
         then (True, r) else (False, []))"
proof -
  have "be64_decode (be64 ts) = ts" using be64_decode_be64 [of ts "[]"] by simp
  moreover have "(uint ts > 2 ^ 63 - 1 \<or> now < sint ts \<or> i64 (now - sint ts) \<ge> ttl) = (\<not> fresh ts now ttl)"
    by (simp only: fresh_iff [OF assms(3)] not_not)
  ultimately show ?thesis
    using assms(1,2) unfolding VerifyNonce_def Let_def
    by (cases "CanonIP ip p6 32") (auto simp: NonceLen_def nonceMACInput_eq)
qed

text \<open>A nonce verifies exactly when it is one this key issues to the service and the client, at a
  time inside the window.\<close>

lemma VerifyNonce_iff:
  assumes "is_i64 now"
  shows "VerifyNonce key nonce sn ip now ttl p6 = (True, r) \<longleftrightarrow>
    (\<exists>ts. IssueNonce key ts r sn ip p6 = Inr nonce \<and> fresh ts now ttl)" (is "?L = ?R")
proof (cases "length nonce = 56")
  case True
  then obtain ts s mac where n: "nonce = be64 ts @ s @ mac" "length s = 16" "length mac = 32"
    by (rule nonce_parts)
  then have issued: "IssueNonce key ts' r sn ip p6 = Inr nonce \<longleftrightarrow> ts' = ts \<and> r = s \<and>
      (\<exists>ipc. CanonIP ip p6 32 = Inr ipc \<and>
         mac = hmacSHA256 key (nonce_input (ts, s, CanonServerName sn, ipc)))" for ts'
    unfolding IssueNonce_Inr_iff by auto
  from n show ?thesis
    unfolding issued by (cases "CanonIP ip p6 32") (auto simp: VerifyNonce_parts assms)
next
  case False
  then show ?thesis
    by (metis NonceLen_def VerifyNonce_def length_IssueNonce Pair_inject)
qed

lemma VerifyNonce_fst:
  assumes "is_i64 now"
  shows "fst (VerifyNonce key nonce sn ip now ttl p6) \<longleftrightarrow>
    (\<exists>r ts. IssueNonce key ts r sn ip p6 = Inr nonce \<and> fresh ts now ttl)"
proof -
  have "fst x \<longleftrightarrow> (\<exists>r. x = (True, r))" for x :: "bool \<times> bytes" by (cases x) simp
  then show ?thesis unfolding VerifyNonce_iff [OF assms, symmetric] by blast
qed

text \<open>An issued nonce that verifies anywhere else was issued for the same place, or the two MAC
  inputs are a collision.\<close>

lemma VerifyNonce_binds:
  assumes "IssueNonce key ts r sn ip p6 = Inr nonce"
    and "VerifyNonce key nonce sn' ip' now ttl p6' = (True, r')"
    and "is_i64 now" "go_len sn" "go_len sn'"
  shows "fresh ts now ttl \<and> r' = r \<and>
    (CanonServerName sn' = CanonServerName sn \<and> CanonIP ip' p6' 32 = CanonIP ip p6 32 \<or>
     (\<exists>m m'. nonceMACInput ts r sn ip p6 = Inr m \<and> nonceMACInput ts r sn' ip' p6' = Inr m' \<and>
        hmac_collision key m m'))"
proof -
  from assms(1) obtain ipc where r: "length r = 16" and ipc: "CanonIP ip p6 32 = Inr ipc"
    and n: "nonce = be64 ts @ r @ hmacSHA256 key (nonce_input (ts, r, CanonServerName sn, ipc))"
    by (auto simp: IssueNonce_Inr_iff)
  from assms(2) obtain ipc' where ipc': "CanonIP ip' p6' 32 = Inr ipc'" and "r' = r" and f: "fresh ts now ttl"
    and t: "hmacSHA256 key (nonce_input (ts, r, CanonServerName sn, ipc)) =
      hmacSHA256 key (nonce_input (ts, r, CanonServerName sn', ipc'))"
    by (auto simp: n VerifyNonce_parts r assms(3) split: sum.splits if_splits)
  have "go_len ipc" "go_len ipc'" using ipc ipc' by (auto intro: go_len_CanonIP)
  then have "(ts, r, CanonServerName sn, ipc) = (ts, r, CanonServerName sn', ipc') \<or>
      nonce_input (ts, r, CanonServerName sn, ipc) \<noteq> nonce_input (ts, r, CanonServerName sn', ipc')"
    using nonce_tag.enc_eqD [of "(ts, r, CanonServerName sn, ipc)" "(ts, r, CanonServerName sn', ipc')"]
      r go_len_CanonServerName [OF assms(4)] go_len_CanonServerName [OF assms(5)]
    by (auto simp: nonce_input_ok_def go_len_def)
  then show ?thesis
    using f \<open>r' = r\<close> ipc ipc' t by (auto simp: nonceMACInput_eq hmac_collision_def)
qed

section \<open>Properties\<close>

text \<open>C29: a nonce verifies for a service and a client exactly when it is the one this key
  issues to them at some time inside the freshness window; the window is exact in spite of the
  unsigned time stamp and the wrapping difference.\<close>

theorem nonce_verifies_iff_issued_and_fresh:
  assumes "is_i64 now"
  shows "VerifyNonce nonceKey nonce serverName ip now ttl v6Prefix = (True, rand16) \<longleftrightarrow>
    (\<exists>ts. IssueNonce nonceKey ts rand16 serverName ip v6Prefix = Inr nonce \<and> fresh ts now ttl)"
  using assms by (rule VerifyNonce_iff)

theorem nonce_verifies_iff_issued_and_fresh_witness:
  "\<exists>nonce. IssueNonce [1, 2, 3] 100 (replicate 16 7) ''app.example.com'' ''192.0.2.1'' 128 = Inr nonce \<and>
     VerifyNonce [1, 2, 3] nonce ''app.example.com'' ''192.0.2.1'' 159 60 128 = (True, replicate 16 7)"
proof -
  have ip: "CanonIP ''192.0.2.1'' 128 32 = Inr ''192.0.2.1''" by code_simp
  then obtain nonce where
    n: "IssueNonce [1, 2, 3] 100 (replicate 16 7) ''app.example.com'' ''192.0.2.1'' 128 = Inr nonce"
    by (auto simp: IssueNonce_Inr_iff)
  moreover have "fresh 100 159 60" by (simp add: fresh_def)
  moreover have "is_i64 159" by (simp add: is_i64_def)
  ultimately show ?thesis
    using nonce_verifies_iff_issued_and_fresh
      [of 159 "[1, 2, 3]" nonce "''app.example.com''" "''192.0.2.1''" 60 128 "replicate 16 7"] by blast
qed

text \<open>a nonce issued for one service and one client verifies nowhere else: if it verifies,
  the service and the client are canonically the same, or the two authenticated messages are a
  collision of HMAC-SHA-256 under the nonce key.\<close>

theorem nonce_bound_to_service_and_client:
  assumes "IssueNonce nonceKey ts rand16 serverName ip v6Prefix = Inr nonce"
    and "VerifyNonce nonceKey nonce serverName' ip' now ttl v6Prefix' = (True, rand16')"
    and "is_i64 now" "go_len serverName" "go_len serverName'"
  shows "CanonServerName serverName' = CanonServerName serverName \<and>
      CanonIP ip' v6Prefix' 32 = CanonIP ip v6Prefix 32 \<or>
    (\<exists>m m'. nonceMACInput ts rand16 serverName ip v6Prefix = Inr m \<and>
       nonceMACInput ts rand16 serverName' ip' v6Prefix' = Inr m' \<and> hmac_collision nonceKey m m')"
  using VerifyNonce_binds [OF assms] by blast

theorem nonce_bound_to_service_and_client_witness:
  "\<exists>nonce. IssueNonce [1, 2, 3] 100 (replicate 16 7) ''app'' ''192.0.2.1'' 128 = Inr nonce \<and>
     VerifyNonce [1, 2, 3] nonce ''APP.'' ''192.0.2.1'' 159 60 128 = (True, replicate 16 7) \<and>
     (CanonServerName ''APP.'' = CanonServerName ''app'' \<and> CanonIP ''192.0.2.1'' 128 32 = CanonIP ''192.0.2.1'' 128 32 \<or>
      (\<exists>m m'. nonceMACInput 100 (replicate 16 7) ''app'' ''192.0.2.1'' 128 = Inr m \<and>
         nonceMACInput 100 (replicate 16 7) ''APP.'' ''192.0.2.1'' 128 = Inr m' \<and> hmac_collision [1, 2, 3] m m'))"
proof -
  have ip: "CanonIP ''192.0.2.1'' 128 32 = Inr ''192.0.2.1''" by code_simp
  have names: "CanonServerName ''APP.'' = CanonServerName ''app''" by code_simp
  obtain nonce where n: "IssueNonce [1, 2, 3] 100 (replicate 16 7) ''app'' ''192.0.2.1'' 128 = Inr nonce"
    and n': "IssueNonce [1, 2, 3] 100 (replicate 16 7) ''APP.'' ''192.0.2.1'' 128 = Inr nonce"
    using ip by (auto simp: IssueNonce_Inr_iff names)
  have now: "is_i64 159" "fresh 100 159 60" by (simp_all add: is_i64_def fresh_def)
  have v: "VerifyNonce [1, 2, 3] nonce ''APP.'' ''192.0.2.1'' 159 60 128 = (True, replicate 16 7)"
    unfolding VerifyNonce_iff [OF now(1)] using n' now(2) by blast
  have "go_len ''app''" "go_len ''APP.''" by (simp_all add: go_len_def)
  then show ?thesis using nonce_bound_to_service_and_client [OF n v now(1)] n v by blast
qed

text \<open>C30: a proof is bound to the service, the kid and the nonce: one tag accepted for two
  knocks under one secret means the knocks are the same, or an HMAC collision; and no message of
  a proof is a message of a nonce.\<close>

theorem proof_bound_to_knock:
  assumes "VerifyProof secret sn kid nonce tag" and "VerifyProof secret sn' kid' nonce' tag"
    and "go_len sn" "go_len kid" "go_len nonce" "go_len sn'" "go_len kid'" "go_len nonce'"
  shows "(CanonServerName sn, kid, nonce) = (CanonServerName sn', kid', nonce') \<or>
    hmac_collision secret (ProofCanonical sn kid nonce) (ProofCanonical sn' kid' nonce')"
  using assms by (rule VerifyProof_binds)

theorem proof_bound_to_knock_witness:
  "VerifyProof [9] ''app'' ''laptop'' [1] (BuildProof [9] ''app'' ''laptop'' [1]) \<and>
   ((CanonServerName ''app'', ''laptop'', [1]) = (CanonServerName ''app'', ''laptop'', [1 :: byte]) \<or>
    hmac_collision [9] (ProofCanonical ''app'' ''laptop'' [1]) (ProofCanonical ''app'' ''laptop'' [1]))"
proof -
  let ?tag = "BuildProof [9] ''app'' ''laptop'' [1]"
  have v: "VerifyProof [9] ''app'' ''laptop'' [1] ?tag" by (simp add: VerifyProof_def)
  have "go_len ''app''" "go_len ''laptop''" "go_len [1 :: byte]" by (simp_all add: go_len_def)
  then show ?thesis using proof_bound_to_knock [OF v v] v by blast
qed

end
