(* ===== verification/Registry.thy ===== *)
theory Registry
  imports Crypto
begin

text \<open>
  \<^verbatim>\<open>core/go/registry.go\<close>: the token registry, read-only at request time. A \<^verbatim>\<open>*Registry\<close> or \<^verbatim>\<open>*Token\<close>
  that may be nil is an option. \<open>Authorize\<close> is the policy check of a knock; \<open>permits\<close> is what
  it decides, in one formula.
\<close>

definition AlgHMACSHA256 :: string where
  "AlgHMACSHA256 = ''HMAC-SHA256''"

record Token =
  tok_Secret :: bytes
  tok_Alg :: string
  tok_Label :: string
  tok_Expires :: int

record Registry =
  reg_Tokens :: "(string, Token) gomap"
  reg_Services :: "(string, (string, bool) gomap) gomap"

definition NewRegistry ::
  "(string, Token) gomap option \<Rightarrow> (string, (string, bool) gomap) gomap option \<Rightarrow> Registry" where
  "NewRegistry tokens services =
     \<lparr>reg_Tokens = (case tokens of None \<Rightarrow> mempty | Some m \<Rightarrow> m),
      reg_Services = (case services of None \<Rightarrow> mempty | Some m \<Rightarrow> m)\<rparr>"

definition Lookup :: "Registry option \<Rightarrow> string \<Rightarrow> Token option" where
  "Lookup r kid = (case r of None \<Rightarrow> None | Some r \<Rightarrow> mget (reg_Tokens r) kid)"

definition IsExpired :: "Token option \<Rightarrow> int \<Rightarrow> bool" where
  "IsExpired t now \<longleftrightarrow> (case t of None \<Rightarrow> False | Some t \<Rightarrow> tok_Expires t \<noteq> 0 \<and> now \<ge> tok_Expires t)"

definition Fingerprint :: "Token option \<Rightarrow> string" where
  "Fingerprint t = (case t of None \<Rightarrow> [] | Some t \<Rightarrow> hex_encode (sha256 (tok_Secret t)))"

definition allowKey :: "Registry \<Rightarrow> string \<Rightarrow> string" where
  "allowKey r serviceCanon =
     (if mget (reg_Services r) serviceCanon \<noteq> None then serviceCanon
      else if mget (reg_Services r) ''*'' \<noteq> None \<and> mlen (reg_Services r) = 1 then ''*''
      else serviceCanon)"

text \<open>Reading a \<^verbatim>\<open>map[string]bool\<close>: false where there is no entry.\<close>

definition mflag :: "('k, bool) gomap \<Rightarrow> 'k \<Rightarrow> bool" where
  "mflag m k \<longleftrightarrow> mget m k = Some True"

definition AllowedForService :: "Registry option \<Rightarrow> string \<Rightarrow> string \<Rightarrow> bool" where
  "AllowedForService r kid serviceCanon \<longleftrightarrow>
     (case r of
        None \<Rightarrow> False
      | Some r \<Rightarrow>
          (case mget (reg_Services r) (allowKey r serviceCanon) of
             None \<Rightarrow> False
           | Some svc \<Rightarrow> mflag svc ''*'' \<or> mflag svc kid))"

datatype auth_error = ErrUnknownKid | ErrTokenExpired | ErrNotAllowed | ErrBadAlg

definition Authorize :: "Registry option \<Rightarrow> string \<Rightarrow> string \<Rightarrow> int \<Rightarrow> auth_error + Token" where
  "Authorize r kid serviceCanon now =
     (case Lookup r kid of
        None \<Rightarrow> Inl ErrUnknownKid
      | Some t \<Rightarrow>
          if tok_Alg t \<noteq> AlgHMACSHA256 then Inl ErrBadAlg
          else if IsExpired (Some t) now then Inl ErrTokenExpired
          else if \<not> AllowedForService r kid serviceCanon then Inl ErrNotAllowed
          else Inr t)"

section \<open>What a registry permits\<close>

text \<open>A registered token that may open the service at the time.\<close>

definition permits :: "Registry option \<Rightarrow> string \<Rightarrow> string \<Rightarrow> int \<Rightarrow> Token \<Rightarrow> bool" where
  "permits r kid serviceCanon now t \<longleftrightarrow>
     Lookup r kid = Some t \<and> tok_Alg t = AlgHMACSHA256 \<and> \<not> IsExpired (Some t) now \<and>
     AllowedForService r kid serviceCanon"

lemma Authorize_Inr_iff: "Authorize r kid svc now = Inr t \<longleftrightarrow> permits r kid svc now t"
  by (auto simp: Authorize_def permits_def split: option.splits)

lemma permits_unique: "permits r kid svc now t \<Longrightarrow> permits r kid svc now' t' \<Longrightarrow> t = t'"
  by (simp add: permits_def)

lemma permits_mono: "permits r kid svc now t \<Longrightarrow> now' \<le> now \<Longrightarrow> permits r kid svc now' t"
  by (auto simp: permits_def IsExpired_def)

lemma permits_nil [simp]: "\<not> permits None kid svc now t"
  by (simp add: permits_def Lookup_def)

lemma Authorize_total:
  "(\<exists>t. Authorize r kid svc now = Inr t) \<or> (\<exists>e. Authorize r kid svc now = Inl e)"
  by (cases "Authorize r kid svc now") auto

text \<open>The two registry shapes: per-service lists, and one list under \<open>*\<close> for every service.\<close>

lemma AllowedForService_multi:
  assumes "mget (reg_Services r) svc = Some m"
  shows "AllowedForService (Some r) kid svc \<longleftrightarrow> mflag m ''*'' \<or> mflag m kid"
  using assms by (simp add: AllowedForService_def allowKey_def)

lemma AllowedForService_site:
  assumes "mget (reg_Services r) ''*'' = Some m" and "mlen (reg_Services r) = 1"
  shows "AllowedForService (Some r) kid svc \<longleftrightarrow> mflag m ''*'' \<or> mflag m kid"
proof (cases "svc = ''*''")
  case False
  have "mget (reg_Services r) svc = None"
  proof (rule ccontr)
    assume "mget (reg_Services r) svc \<noteq> None"
    then have "{svc, ''*''} \<subseteq> dom (mget (reg_Services r))" using assms(1) by auto
    then have "2 \<le> card (dom (mget (reg_Services r)))"
      using False card_mono [OF finite_dom_mget, of "{svc, ''*''}" "reg_Services r"] by simp
    then show False using assms(2) by (simp add: mlen_card)
  qed
  then show ?thesis using assms by (simp add: AllowedForService_def allowKey_def)
qed (use assms in \<open>simp add: AllowedForService_multi\<close>)

lemma AllowedForService_unlisted:
  assumes "mget (reg_Services r) svc = None" and "mlen (reg_Services r) \<noteq> 1"
  shows "\<not> AllowedForService (Some r) kid svc"
  using assms by (simp add: AllowedForService_def allowKey_def)

text \<open>A fingerprint determines the secret up to a collision of SHA-256.\<close>

lemma Fingerprint_eq_iff:
  "Fingerprint (Some t) = Fingerprint (Some t') \<longleftrightarrow> sha256 (tok_Secret t) = sha256 (tok_Secret t')"
  by (simp add: Fingerprint_def)

lemma length_Fingerprint: "length (Fingerprint (Some t)) = 64"
  by (simp add: Fingerprint_def length_sha256)

end
