(* ===== verification/Expiring.thy ===== *)
theory Expiring
  imports Prelude
begin

text \<open>
  Tables whose entries expire. Every table of the program (grants, spent nonces, enrollment
  codes, rate-limit windows) is read lazily, ignoring what has expired, and swept on a timer.
  The interface \<open>expiring_table\<close> states what a sweep promises; \<open>expiring_table_mono\<close> adds that
  what has expired stays expired, and shows that a sweep is then invisible to every later lazy
  read. The loop all the sweeps share is \<open>mpurge\<close>.
\<close>

section \<open>The sweeping loop\<close>

text \<open>The loop deletes the entries that satisfy \<open>P\<close> and counts them.\<close>

definition mpurge :: "('k \<Rightarrow> 'v \<Rightarrow> bool) \<Rightarrow> ('k, 'v) gomap \<Rightarrow> int \<times> ('k, 'v) gomap" where
  "mpurge P m = fold (\<lambda>(k, v) (n, a). if P k v then (n + 1, mdel a k) else (n, a)) (mrange m) (0, m)"

lemma snd_mpurge_fold:
  "snd (fold (\<lambda>(k, v) (n, a). if P k v then (n + 1, mdel a k) else (n, a)) xs (c :: int, m)) =
     fold (\<lambda>(k, v) a. if P k v then mdel a k else a) xs m"
  by (induction xs arbitrary: c m) auto

lemma fst_mpurge_fold:
  "fst (fold (\<lambda>(k, v) (n, a). if P k v then (n + 1, mdel a k) else (n, a)) xs (c :: int, m)) =
     c + int (length (filter (\<lambda>(k, v). P k v) xs))"
  by (induction xs arbitrary: c m) auto

lemma mget_mpurge [gomap]:
  "mget (snd (mpurge P m)) k =
     (case mget m k of Some v \<Rightarrow> if P k v then None else Some v | None \<Rightarrow> None)"
  by (auto simp: mpurge_def snd_mpurge_fold mget_fold_mdel mem_mrange split: option.splits)

lemma fst_mpurge: "fst (mpurge P m) = int (card {k. \<exists>v. mget m k = Some v \<and> P k v})"
proof -
  let ?xs = "filter (\<lambda>(k, v). P k v) (mrange m)"
  have "distinct (map fst ?xs)"
    by (rule distinct_map_filter) simp
  then have "length ?xs = card (fst ` set ?xs)"
    by (metis distinct_card length_map set_map)
  moreover have "fst ` set ?xs = {k. \<exists>v. mget m k = Some v \<and> P k v}"
    by (force simp: mem_mrange)
  ultimately show ?thesis by (simp add: mpurge_def fst_mpurge_fold)
qed

lemma mpurge_none: "(\<And>k v. mget m k = Some v \<Longrightarrow> \<not> P k v) \<Longrightarrow> mpurge P m = (0, m)"
proof -
  assume none: "\<And>k v. mget m k = Some v \<Longrightarrow> \<not> P k v"
  have "fold (\<lambda>(k, v) (n, a). if P k v then (n + 1, mdel a k) else (n, a)) xs (0 :: int, m) = (0, m)"
    if "set xs \<subseteq> set (mrange m)" for xs
    using that none by (induction xs) (auto simp: mem_mrange)
  then show ?thesis by (simp add: mpurge_def)
qed

section \<open>Interfaces\<close>

locale expiring_table =
  fixes inv :: "'s \<Rightarrow> bool"
    and get :: "'s \<Rightarrow> 'k \<Rightarrow> 'v option"
    and expired :: "'v \<Rightarrow> int \<Rightarrow> bool"
    and sweep :: "'s \<Rightarrow> int \<Rightarrow> 's"
  assumes inv_sweep: "inv s \<Longrightarrow> inv (sweep s now)"
    and get_sweep: "inv s \<Longrightarrow> get (sweep s now) k =
      (case get s k of Some v \<Rightarrow> if expired v now then None else Some v | None \<Rightarrow> None)"
begin

definition live :: "'s \<Rightarrow> int \<Rightarrow> 'k \<Rightarrow> 'v option" where
  "live s now k = (case get s k of Some v \<Rightarrow> if expired v now then None else Some v | None \<Rightarrow> None)"

lemma live_Some_iff: "live s now k = Some v \<longleftrightarrow> get s k = Some v \<and> \<not> expired v now"
  by (auto simp: live_def split: option.splits)

lemma get_sweep_live: "inv s \<Longrightarrow> get (sweep s now) = live s now"
  by (auto simp: live_def get_sweep)

lemma live_sweep_now: "inv s \<Longrightarrow> live (sweep s now) now = live s now"
  by (auto simp: live_def get_sweep fun_eq_iff split: option.splits)

lemma dom_sweep: "inv s \<Longrightarrow> dom (get (sweep s now)) \<subseteq> dom (get s)"
  by (auto simp: get_sweep split: option.splits if_splits)

end

locale expiring_table_mono = expiring_table +
  assumes expired_mono: "expired v now \<Longrightarrow> now \<le> now' \<Longrightarrow> expired v now'"
begin

text \<open>A sweep cannot be seen by a read that ignores expired entries, then or later.\<close>

lemma live_sweep: "inv s \<Longrightarrow> now \<le> now' \<Longrightarrow> live (sweep s now) now' = live s now'"
  by (auto simp: live_def get_sweep fun_eq_iff expired_mono split: option.splits)

lemma sweep_sweep:
  "inv s \<Longrightarrow> now \<le> now' \<Longrightarrow> get (sweep (sweep s now) now') = get (sweep s now')"
  by (simp add: get_sweep_live inv_sweep live_sweep)

end

end
