(* ===== verification/GrantStore.thy ===== *)
theory GrantStore
  imports Registry Expiring
begin

text \<open>
  The grant store of \<^verbatim>\<open>core/go/store.go\<close>: the records that open a dark service, and the index of
  their keys by token. Each operation runs under the store's mutex, so an execution is a sequence
  of operations. A \<^verbatim>\<open>*Grant\<close> is never written after \<open>Put\<close>; it is the record itself.

  \<open>grant_inv\<close> is the store's invariant: a record lies under the key its own fields give, and the
  index lists exactly the keys of the records of each token. The abstract store is the partial
  map from keys to records (\<open>abs_grants\<close>); every operation refines an update of that map.
\<close>

section \<open>Records and keys\<close>

definition BindingIP :: string where
  "BindingIP = ''ip''"

definition BindingIPCookie :: string where
  "BindingIPCookie = ''ip+cookie''"

record Grant =
  g_V :: int
  g_Kid :: string
  g_Service :: string
  g_IP :: string
  g_Binding :: string
  g_CookieHash :: string
  g_Issued :: int
  g_Exp :: int
  g_Manual :: bool
  g_SecretFP :: string

definition CookieHash :: "string \<Rightarrow> string" where
  "CookieHash v = hex_encode (sha256 (bytes_of v))"

definition GrantKey :: "string \<Rightarrow> string \<Rightarrow> string" where
  "GrantKey serviceCanon ipCanon = ''jit:grant:'' @ serviceCanon @ '':'' @ ipCanon"

definition GrantKeyCookie :: "string \<Rightarrow> string \<Rightarrow> string \<Rightarrow> string" where
  "GrantKeyCookie serviceCanon ipCanon cookieHash =
     GrantKey serviceCanon ipCanon @ '':'' @ cookieHash"

definition keyFor :: "Grant \<Rightarrow> string" where
  "keyFor g =
     (if g_Binding g = BindingIPCookie \<and> g_CookieHash g \<noteq> []
      then GrantKeyCookie (g_Service g) (g_IP g) (g_CookieHash g)
      else GrantKey (g_Service g) (g_IP g))"

section \<open>The store\<close>

record GrantStore =
  gs_grants :: "(string, Grant) gomap"
  gs_byKid :: "(string, (string, bool) gomap) gomap"

definition NewGrantStore :: GrantStore where
  "NewGrantStore = \<lparr>gs_grants = mempty, gs_byKid = mempty\<rparr>"

definition unindexLocked :: "GrantStore \<Rightarrow> string \<Rightarrow> string \<Rightarrow> GrantStore" where
  "unindexLocked s kid key =
     (case mget (gs_byKid s) kid of
        None \<Rightarrow> s
      | Some m \<Rightarrow>
          let m = mdel m key in
          if mlen m = 0 then s\<lparr>gs_byKid := mdel (gs_byKid s) kid\<rparr>
          else s\<lparr>gs_byKid := mput (gs_byKid s) kid m\<rparr>)"

text \<open>\<open>unindexLocked\<close> followed by \<^verbatim>\<open>delete(s.grants, k)\<close>, as \<open>Put\<close>, \<open>Revoke\<close> and \<open>Sweep\<close> do.\<close>

definition dropGrant :: "GrantStore \<Rightarrow> string \<Rightarrow> Grant \<Rightarrow> GrantStore" where
  "dropGrant s k g =
     (let s = unindexLocked s (g_Kid g) k in s\<lparr>gs_grants := mdel (gs_grants s) k\<rparr>)"

text \<open>The loop of \<open>Put\<close> over the old cookie hashes, and the rest of \<open>Put\<close>.\<close>

definition retireOld :: "Grant \<Rightarrow> string \<Rightarrow> GrantStore \<Rightarrow> GrantStore" where
  "retireOld g oh s =
     (if oh = [] \<or> oh = g_CookieHash g then s
      else let ok = GrantKeyCookie (g_Service g) (g_IP g) oh in
           case mget (gs_grants s) ok of None \<Rightarrow> s | Some prev \<Rightarrow> dropGrant s ok prev)"

definition Put :: "GrantStore \<Rightarrow> Grant option \<Rightarrow> string list \<Rightarrow> GrantStore" where
  "Put s g oldCookieHash =
     (case g of
        None \<Rightarrow> s
      | Some g \<Rightarrow>
          let k = keyFor g;
              s = fold (retireOld g) oldCookieHash s;
              s = (case mget (gs_grants s) k of
                     None \<Rightarrow> s | Some old \<Rightarrow> unindexLocked s (g_Kid old) k);
              s = s\<lparr>gs_grants := mput (gs_grants s) k g\<rparr>;
              s = (if mget (gs_byKid s) (g_Kid g) = None
                   then s\<lparr>gs_byKid := mput (gs_byKid s) (g_Kid g) mempty\<rparr> else s);
              m = the (mget (gs_byKid s) (g_Kid g))
          in s\<lparr>gs_byKid := mput (gs_byKid s) (g_Kid g) (mput m k True)\<rparr>)"

text \<open>\<open>IsAllowed\<close>: the record found for the request, then the checks in the source's order.\<close>

definition findGrant :: "GrantStore \<Rightarrow> string \<Rightarrow> string \<Rightarrow> string \<Rightarrow> Grant option" where
  "findGrant s serviceCanon ipCanon cookie =
     (let g = (if cookie \<noteq> []
               then mget (gs_grants s) (GrantKeyCookie serviceCanon ipCanon (CookieHash cookie))
               else None)
      in case g of None \<Rightarrow> mget (gs_grants s) (GrantKey serviceCanon ipCanon) | Some g \<Rightarrow> Some g)"

definition IsAllowed ::
  "GrantStore \<Rightarrow> string \<Rightarrow> string \<Rightarrow> Registry option \<Rightarrow> int \<Rightarrow> string \<Rightarrow> Grant option" where
  "IsAllowed s serviceCanon ipCanon reg now cookie =
     (case findGrant s serviceCanon ipCanon cookie of
        None \<Rightarrow> None
      | Some g \<Rightarrow>
          if now \<ge> g_Exp g then None
          else if g_Service g \<noteq> serviceCanon \<or> g_IP g \<noteq> ipCanon then None
          else if \<not> g_Manual g \<and>
            (let t = Lookup reg (g_Kid g) in
               (case t of None \<Rightarrow> True | Some t \<Rightarrow> tok_Alg t \<noteq> AlgHMACSHA256) \<or> IsExpired t now \<or>
               \<not> AllowedForService reg (g_Kid g) serviceCanon \<or>
               g_SecretFP g \<noteq> Fingerprint t) then None
          else if g_Binding g = BindingIPCookie \<and>
            (cookie = [] \<or> g_CookieHash g = [] \<or> CookieHash cookie \<noteq> g_CookieHash g) then None
          else Some g)"

text \<open>\<open>Get\<close> scans the table in the order of the runtime when no ip-bound record is there.\<close>

definition Get :: "GrantStore \<Rightarrow> string \<Rightarrow> string \<Rightarrow> Grant option" where
  "Get s serviceCanon ipCanon =
     (case mget (gs_grants s) (GrantKey serviceCanon ipCanon) of
        Some g \<Rightarrow> Some g
      | None \<Rightarrow> find (\<lambda>g. g_Service g = serviceCanon \<and> g_IP g = ipCanon) (map snd (mrange (gs_grants s))))"

definition Revoke :: "GrantStore \<Rightarrow> string \<Rightarrow> string \<Rightarrow> bool \<times> GrantStore" where
  "Revoke s serviceCanon ipCanon =
     fold (\<lambda>(k, g) (removed, s).
             if g_Service g = serviceCanon \<and> g_IP g = ipCanon
             then (True, dropGrant s k g) else (removed, s))
       (mrange (gs_grants s)) (False, s)"

definition RevokeToken :: "GrantStore \<Rightarrow> string \<Rightarrow> int \<times> GrantStore" where
  "RevokeToken s kid =
     (let keys = (case mget (gs_byKid s) kid of None \<Rightarrow> [] | Some m \<Rightarrow> mrange m);
          (n, s) = fold (\<lambda>(k, _) (n, s).
                     if mget (gs_grants s) k \<noteq> None
                     then (n + 1, s\<lparr>gs_grants := mdel (gs_grants s) k\<rparr>) else (n, s)) keys (0, s)
      in (n, s\<lparr>gs_byKid := mdel (gs_byKid s) kid\<rparr>))"

definition List :: "GrantStore \<Rightarrow> int \<Rightarrow> Grant list" where
  "List s now = filter (\<lambda>g. now < g_Exp g) (map snd (mrange (gs_grants s)))"

definition Sweep :: "GrantStore \<Rightarrow> int \<Rightarrow> int \<times> GrantStore" where
  "Sweep s now =
     fold (\<lambda>(k, g) (n, s). if now \<ge> g_Exp g then (n + 1, dropGrant s k g) else (n, s))
       (mrange (gs_grants s)) (0, s)"

section \<open>The invariant\<close>

text \<open>The key is in the index of the token.\<close>

definition indexed :: "GrantStore \<Rightarrow> string \<Rightarrow> string \<Rightarrow> bool" where
  "indexed s kid k \<longleftrightarrow> (\<exists>m. mget (gs_byKid s) kid = Some m \<and> mget m k \<noteq> None)"

abbreviation abs_grants :: "GrantStore \<Rightarrow> string \<Rightarrow> Grant option" where
  "abs_grants s \<equiv> mget (gs_grants s)"

definition grant_inv :: "GrantStore \<Rightarrow> bool" where
  "grant_inv s \<longleftrightarrow>
     (\<forall>k g. abs_grants s k = Some g \<longrightarrow> k = keyFor g) \<and>
     (\<forall>kid k. indexed s kid k \<longleftrightarrow> (\<exists>g. abs_grants s k = Some g \<and> g_Kid g = kid)) \<and>
     (\<forall>kid m. mget (gs_byKid s) kid = Some m \<longrightarrow> mlen m \<noteq> 0)"

lemma grant_inv_New: "grant_inv NewGrantStore"
  by (simp add: grant_inv_def NewGrantStore_def indexed_def)

lemma grant_inv_key: "grant_inv s \<Longrightarrow> abs_grants s k = Some g \<Longrightarrow> k = keyFor g"
  by (simp add: grant_inv_def)

lemma grant_inv_indexed:
  "grant_inv s \<Longrightarrow> indexed s kid k \<longleftrightarrow> (\<exists>g. abs_grants s k = Some g \<and> g_Kid g = kid)"
  by (simp add: grant_inv_def)

lemma abs_grants_unindex [simp]: "gs_grants (unindexLocked s kid k) = gs_grants s"
  by (simp add: unindexLocked_def Let_def split: option.splits)

lemma indexed_unindex:
  "indexed (unindexLocked s kid k) kid' k' \<longleftrightarrow> indexed s kid' k' \<and> (kid', k') \<noteq> (kid, k)"
  by (auto simp: indexed_def unindexLocked_def Let_def mlen_0_iff split: option.splits if_splits)

lemma nonempty_unindex:
  "(\<And>kid m. mget (gs_byKid s) kid = Some m \<Longrightarrow> mlen m \<noteq> 0) \<Longrightarrow>
     mget (gs_byKid (unindexLocked s kid k)) kid' = Some m' \<Longrightarrow> mlen m' \<noteq> 0"
  by (auto simp: unindexLocked_def Let_def split: option.splits if_splits)

lemma abs_grants_drop [simp]: "gs_grants (dropGrant s k g) = mdel (gs_grants s) k"
  by (simp add: dropGrant_def Let_def)

lemma grant_inv_drop:
  assumes "grant_inv s" and "abs_grants s k = Some g"
  shows "grant_inv (dropGrant s k g)"
proof -
  have "indexed (dropGrant s k g) kid k' \<longleftrightarrow> indexed s kid k' \<and> (kid, k') \<noteq> (g_Kid g, k)" for kid k'
    using indexed_unindex [of s "g_Kid g" k kid k'] by (simp add: dropGrant_def Let_def indexed_def)
  moreover have "mlen m \<noteq> 0" if "mget (gs_byKid (dropGrant s k g)) kid = Some m" for kid m
    using that nonempty_unindex [of s "g_Kid g" k kid m] assms(1)
    by (simp add: dropGrant_def Let_def grant_inv_def)
  ultimately show ?thesis
    using assms unfolding grant_inv_def by (auto split: if_splits)
qed

section \<open>Loops that drop records\<close>

definition dropWhere :: "(Grant \<Rightarrow> bool) \<Rightarrow> (string \<times> Grant) list \<Rightarrow> GrantStore \<Rightarrow> GrantStore" where
  "dropWhere P xs s = fold (\<lambda>(k, g) s. if P g then dropGrant s k g else s) xs s"

lemma dropWhere_inv:
  assumes "grant_inv s" and "distinct (map fst xs)" and "\<And>k g. (k, g) \<in> set xs \<Longrightarrow> abs_grants s k = Some g"
  shows "grant_inv (dropWhere P xs s)"
  using assms
proof (induction xs arbitrary: s)
  case (Cons x xs)
  obtain k g where x: "x = (k, g)" by (cases x)
  have "k' \<noteq> k" if "(k', g') \<in> set xs" for k' g' using Cons.prems(2) x that by force
  then have "grant_inv (dropWhere P xs (if P g then dropGrant s k g else s))"
    using Cons.prems x grant_inv_drop [of s k g] by (intro Cons.IH) auto
  then show ?case by (simp add: x dropWhere_def)
qed (simp add: dropWhere_def)

lemma abs_dropWhere:
  "abs_grants (dropWhere P xs s) k =
     (if \<exists>g. (k, g) \<in> set xs \<and> P g then None else abs_grants s k)"
  by (induction xs arbitrary: s) (auto simp: dropWhere_def)

lemma dropWhere_all:
  assumes "grant_inv s"
  shows "grant_inv (dropWhere P (mrange (gs_grants s)) s)"
    and "abs_grants (dropWhere P (mrange (gs_grants s)) s) k =
      (case abs_grants s k of Some g \<Rightarrow> if P g then None else Some g | None \<Rightarrow> None)"
  using assms dropWhere_inv [of s "mrange (gs_grants s)" P]
  by (auto simp: abs_dropWhere mem_mrange split: option.splits)

lemma snd_Revoke:
  "snd (Revoke s svc ip) = dropWhere (\<lambda>g. g_Service g = svc \<and> g_IP g = ip) (mrange (gs_grants s)) s"
proof -
  have "snd (fold (\<lambda>(k, g) (removed, s). if g_Service g = svc \<and> g_IP g = ip
      then (True, dropGrant s k g) else (removed, s)) xs (b, s)) =
    dropWhere (\<lambda>g. g_Service g = svc \<and> g_IP g = ip) xs s" for xs b
    by (induction xs arbitrary: s b) (auto simp: dropWhere_def)
  then show ?thesis by (simp add: Revoke_def)
qed

lemma fst_Revoke:
  "fst (Revoke s svc ip) \<longleftrightarrow> (\<exists>k g. abs_grants s k = Some g \<and> g_Service g = svc \<and> g_IP g = ip)"
proof -
  have "fst (fold (\<lambda>(k, g) (removed, s). if g_Service g = svc \<and> g_IP g = ip
      then (True, dropGrant s k g) else (removed, s)) xs (b, s)) \<longleftrightarrow>
    b \<or> list_ex (\<lambda>(k, g). g_Service g = svc \<and> g_IP g = ip) xs" for xs b
    by (induction xs arbitrary: s b) (simp_all split: prod.splits, blast)
  then show ?thesis by (force simp: Revoke_def list_ex_iff mem_mrange)
qed

lemma snd_Sweep: "snd (Sweep s now) = dropWhere (\<lambda>g. now \<ge> g_Exp g) (mrange (gs_grants s)) s"
proof -
  have "snd (fold (\<lambda>(k, g) (n, s). if now \<ge> g_Exp g then (n + 1, dropGrant s k g) else (n, s)) xs (c :: int, s)) =
    dropWhere (\<lambda>g. now \<ge> g_Exp g) xs s" for xs c
    by (induction xs arbitrary: s c) (auto simp: dropWhere_def)
  then show ?thesis by (simp add: Sweep_def)
qed

lemma fst_Sweep: "fst (Sweep s now) = int (card {k. \<exists>g. abs_grants s k = Some g \<and> now \<ge> g_Exp g})"
proof -
  have "fst (fold (\<lambda>(k, g) (n, s). if now \<ge> g_Exp g then (n + 1, dropGrant s k g) else (n, s)) xs (c, s)) =
    fst (fold (\<lambda>(k, g) (n, m). if now \<ge> g_Exp g then (n + 1, mdel m k) else (n, m)) xs (c :: int, gs_grants s))"
    for xs c
    by (induction xs arbitrary: s c) auto
  then show ?thesis
    using fst_mpurge [of "\<lambda>k g. now \<ge> g_Exp g" "gs_grants s"] by (simp add: Sweep_def mpurge_def)
qed

lemma grant_inv_Revoke: "grant_inv s \<Longrightarrow> grant_inv (snd (Revoke s svc ip))"
  by (simp add: snd_Revoke dropWhere_all)

lemma abs_Revoke:
  "grant_inv s \<Longrightarrow> abs_grants (snd (Revoke s svc ip)) k =
     (case abs_grants s k of
        Some g \<Rightarrow> if g_Service g = svc \<and> g_IP g = ip then None else Some g | None \<Rightarrow> None)"
  by (simp add: snd_Revoke dropWhere_all)

lemma grant_inv_Sweep: "grant_inv s \<Longrightarrow> grant_inv (snd (Sweep s now))"
  by (simp add: snd_Sweep dropWhere_all)

lemma abs_Sweep:
  "grant_inv s \<Longrightarrow> abs_grants (snd (Sweep s now)) k =
     (case abs_grants s k of Some g \<Rightarrow> if now \<ge> g_Exp g then None else Some g | None \<Rightarrow> None)"
  by (simp add: snd_Sweep dropWhere_all)

interpretation grants: expiring_table_mono grant_inv abs_grants "\<lambda>g now. now \<ge> g_Exp g" "\<lambda>s now. snd (Sweep s now)"
  by unfold_locales (simp_all add: grant_inv_Sweep abs_Sweep)

section \<open>Put\<close>

definition retired :: "Grant \<Rightarrow> string list \<Rightarrow> string \<Rightarrow> bool" where
  "retired g ohs k \<longleftrightarrow> (\<exists>oh \<in> set ohs. oh \<noteq> [] \<and> oh \<noteq> g_CookieHash g \<and>
     k = GrantKeyCookie (g_Service g) (g_IP g) oh)"

lemma retireOld_inv: "grant_inv s \<Longrightarrow> grant_inv (retireOld g oh s)"
  by (auto simp: retireOld_def Let_def grant_inv_drop split: option.splits)

lemma abs_retireOld:
  "abs_grants (retireOld g oh s) k =
     (if oh \<noteq> [] \<and> oh \<noteq> g_CookieHash g \<and> k = GrantKeyCookie (g_Service g) (g_IP g) oh
      then None else abs_grants s k)"
  by (auto simp: retireOld_def Let_def split: option.splits)

lemma fold_retireOld_inv: "grant_inv s \<Longrightarrow> grant_inv (fold (retireOld g) ohs s)"
  by (induction ohs arbitrary: s) (auto simp: retireOld_inv)

lemma abs_fold_retireOld:
  "abs_grants (fold (retireOld g) ohs s) k = (if retired g ohs k then None else abs_grants s k)"
  by (induction ohs arbitrary: s) (auto simp: abs_retireOld retired_def)

text \<open>\<open>Put\<close> on the abstract map: the old records go, then the new one is filed.\<close>

lemma abs_Put:
  "abs_grants (Put s (Some g) ohs) k =
     (if k = keyFor g then Some g else if retired g ohs k then None else abs_grants s k)"
  by (simp add: Put_def Let_def abs_fold_retireOld split: option.splits)

lemma grant_inv_Put: "grant_inv s \<Longrightarrow> grant_inv (Put s g ohs)"
proof (cases g)
  case (Some g)
  assume "grant_inv s"
  define s1 where "s1 = fold (retireOld g) ohs s"
  define k where "k = keyFor g"
  define s2 where "s2 = (case abs_grants s1 k of None \<Rightarrow> s1 | Some old \<Rightarrow> unindexLocked s1 (g_Kid old) k)"
  have inv1: "grant_inv s1" using \<open>grant_inv s\<close> by (simp add: s1_def fold_retireOld_inv)
  have idx2: "indexed s2 kid k' \<longleftrightarrow> indexed s1 kid k' \<and> k' \<noteq> k" for kid k'
    using inv1 by (auto simp: s2_def indexed_unindex grant_inv_indexed split: option.splits)
  have ne2: "mlen m \<noteq> 0" if "mget (gs_byKid s2) kid = Some m" for kid m
    using that inv1 nonempty_unindex [of s1 _ k kid m]
    by (auto simp: s2_def grant_inv_def split: option.splits)
  have g2: "gs_grants s2 = gs_grants s1" by (simp add: s2_def split: option.splits)
  define m where "m = (case mget (gs_byKid s2) (g_Kid g) of None \<Rightarrow> mempty | Some m \<Rightarrow> m)"
  have byKid: "mget (gs_byKid (Put s (Some g) ohs)) kid =
      (if kid = g_Kid g then Some (mput m k True) else mget (gs_byKid s2) kid)" for kid
    by (simp add: Put_def Let_def s1_def [symmetric] k_def [symmetric] s2_def [symmetric] m_def split: option.splits)
  have "indexed (Put s (Some g) ohs) kid k' \<longleftrightarrow> indexed s2 kid k' \<or> kid = g_Kid g \<and> k' = k" for kid k'
    by (auto simp: indexed_def byKid m_def split: option.splits)
  moreover have "abs_grants (Put s (Some g) ohs) k' = (if k' = k then Some g else abs_grants s1 k')" for k'
    by (simp add: abs_Put k_def s1_def abs_fold_retireOld)
  moreover have "mlen m' \<noteq> 0" if "mget (gs_byKid (Put s (Some g) ohs)) kid = Some m'" for kid m'
    using that ne2 by (auto simp: byKid split: if_splits)
  ultimately show ?thesis
    using inv1 idx2 unfolding grant_inv_def Some k_def by auto
qed (simp add: Put_def)

section \<open>Revoking a token\<close>

text \<open>\<open>RevokeToken\<close> trusts the index; the invariant makes that exact.\<close>

lemma RevokeToken_fold:
  "distinct (map fst xs) \<Longrightarrow>
   fold (\<lambda>(k, _) (n, s). if mget (gs_grants s) k \<noteq> None
           then (n + 1, s\<lparr>gs_grants := mdel (gs_grants s) k\<rparr>) else (n, s)) xs (c :: int, s) =
    (c + int (length (filter (\<lambda>(k, _). abs_grants s k \<noteq> None) xs)),
     s\<lparr>gs_grants := fold (\<lambda>(k, _) m. if mget m k \<noteq> None then mdel m k else m) xs (gs_grants s)\<rparr>)"
proof (induction xs arbitrary: c s)
  case (Cons x xs)
  obtain k b where x: "x = (k, b)" by (cases x)
  have "filter (\<lambda>(k', _). (if k = k' then None else abs_grants s k') \<noteq> None) xs =
      filter (\<lambda>(k', _). abs_grants s k' \<noteq> None) xs"
    using Cons.prems by (force simp: x intro!: filter_cong)
  then show ?case using Cons by (simp add: x del: not_None_eq)
qed simp

lemma mget_fold_mdel_present:
  "mget (fold (\<lambda>(k, _) m. if mget m k \<noteq> None then mdel m k else m) xs m) k =
     (if k \<in> fst ` set xs then None else mget m k)"
  by (induction xs arbitrary: m) (auto split: prod.splits)

lemma index_keys:
  assumes "grant_inv s"
  shows "fst ` set (case mget (gs_byKid s) kid of None \<Rightarrow> [] | Some m \<Rightarrow> mrange m) =
     {k. \<exists>g. abs_grants s k = Some g \<and> g_Kid g = kid}"
proof -
  have mem: "mget m k \<noteq> None \<longleftrightarrow> k \<in> fst ` set (mrange m)" for m :: "(string, bool) gomap" and k
    by (simp only: mget_None_iff not_not)
  have "{k. indexed s kid k} = fst ` set (case mget (gs_byKid s) kid of None \<Rightarrow> [] | Some m \<Rightarrow> mrange m)"
    by (cases "mget (gs_byKid s) kid") (simp_all add: indexed_def mem del: not_None_eq)
  then show ?thesis using assms by (simp add: grant_inv_indexed)
qed

lemma RevokeToken_eq:
  assumes "grant_inv s"
  shows "abs_grants (snd (RevokeToken s kid)) k =
      (case abs_grants s k of Some g \<Rightarrow> if g_Kid g = kid then None else Some g | None \<Rightarrow> None)"
    and "fst (RevokeToken s kid) = int (card {k. \<exists>g. abs_grants s k = Some g \<and> g_Kid g = kid})"
    and "gs_byKid (snd (RevokeToken s kid)) = mdel (gs_byKid s) kid"
proof -
  define xs where "xs = (case mget (gs_byKid s) kid of None \<Rightarrow> [] | Some m \<Rightarrow> mrange m)"
  have d: "distinct (map fst xs)" by (simp add: xs_def split: option.splits)
  have keys: "fst ` set xs = {k. \<exists>g. abs_grants s k = Some g \<and> g_Kid g = kid}"
    using index_keys [OF assms] by (simp add: xs_def)
  note eq = RevokeToken_def [of s kid, folded xs_def, unfolded RevokeToken_fold [OF d] Let_def prod.case]
  have "abs_grants s (fst x) \<noteq> None" if "x \<in> set xs" for x
    using keys imageI [OF that, of fst] by auto
  then have "filter (\<lambda>(k, _). abs_grants s k \<noteq> None) xs = xs"
    by (simp add: filter_id_conv split_beta)
  then have "fst (RevokeToken s kid) = int (length xs)" by (simp add: eq)
  also have "length xs = card (fst ` set xs)" using d by (metis distinct_card length_map set_map)
  finally show "fst (RevokeToken s kid) = int (card {k. \<exists>g. abs_grants s k = Some g \<and> g_Kid g = kid})"
    by (simp add: keys)
  show "abs_grants (snd (RevokeToken s kid)) k =
      (case abs_grants s k of Some g \<Rightarrow> if g_Kid g = kid then None else Some g | None \<Rightarrow> None)"
    by (simp add: eq mget_fold_mdel_present keys del: not_None_eq split: option.splits)
  show "gs_byKid (snd (RevokeToken s kid)) = mdel (gs_byKid s) kid" by (simp add: eq)
qed

lemma grant_inv_RevokeToken: "grant_inv s \<Longrightarrow> grant_inv (snd (RevokeToken s kid))"
proof -
  assume inv: "grant_inv s"
  have "indexed (snd (RevokeToken s kid)) kid' k \<longleftrightarrow> indexed s kid' k \<and> kid' \<noteq> kid" for kid' k
    by (auto simp: indexed_def RevokeToken_eq(3) [OF inv] split: if_splits)
  then show ?thesis
    using inv unfolding grant_inv_def RevokeToken_eq(1) [OF inv] RevokeToken_eq(3) [OF inv]
    by (auto split: option.splits if_splits)
qed

section \<open>The request-path check\<close>

text \<open>What a record must satisfy to open the service for the request.\<close>

definition grant_ok :: "Registry option \<Rightarrow> int \<Rightarrow> string \<Rightarrow> string \<Rightarrow> string \<Rightarrow> Grant \<Rightarrow> bool" where
  "grant_ok reg now svc ip cookie g \<longleftrightarrow>
     now < g_Exp g \<and> g_Service g = svc \<and> g_IP g = ip \<and>
     (g_Manual g \<or> (\<exists>t. permits reg (g_Kid g) svc now t \<and> g_SecretFP g = Fingerprint (Some t))) \<and>
     (g_Binding g = BindingIPCookie \<longrightarrow>
        cookie \<noteq> [] \<and> g_CookieHash g \<noteq> [] \<and> g_CookieHash g = CookieHash cookie)"

text \<open>The registry part of the check.\<close>

lemma token_check:
  "(let t = Lookup reg kid in
      (case t of None \<Rightarrow> True | Some t \<Rightarrow> tok_Alg t \<noteq> AlgHMACSHA256) \<or> IsExpired t now \<or>
      \<not> AllowedForService reg kid svc \<or> fp \<noteq> Fingerprint t) \<longleftrightarrow>
   \<not> (\<exists>t. permits reg kid svc now t \<and> fp = Fingerprint (Some t))"
  by (cases "Lookup reg kid") (auto simp: permits_def)

lemma IsAllowed_eq:
  "IsAllowed s svc ip reg now cookie =
     (case findGrant s svc ip cookie of
        None \<Rightarrow> None
      | Some g \<Rightarrow> if grant_ok reg now svc ip cookie g then Some g else None)"
proof (cases "findGrant s svc ip cookie")
  case (Some g)
  show ?thesis
    unfolding IsAllowed_def grant_ok_def Some option.case token_check
    by simp metis
qed (simp add: IsAllowed_def)

lemma IsAllowed_Some_iff:
  "IsAllowed s svc ip reg now cookie = Some g \<longleftrightarrow>
     findGrant s svc ip cookie = Some g \<and> grant_ok reg now svc ip cookie g"
  by (cases "findGrant s svc ip cookie") (auto simp: IsAllowed_eq)

lemma IsAllowed_stored:
  "IsAllowed s svc ip reg now cookie = Some g \<Longrightarrow>
     grant_ok reg now svc ip cookie g \<and> (\<exists>k. abs_grants s k = Some g)"
  by (auto simp: IsAllowed_Some_iff findGrant_def Let_def split: option.splits if_splits)

lemma findGrant_cong:
  assumes "abs_grants s (GrantKey svc ip) = abs_grants s' (GrantKey svc ip)"
    and "cookie \<noteq> [] \<Longrightarrow> abs_grants s (GrantKeyCookie svc ip (CookieHash cookie)) =
      abs_grants s' (GrantKeyCookie svc ip (CookieHash cookie))"
  shows "findGrant s svc ip cookie = findGrant s' svc ip cookie"
  using assms by (cases "cookie = []") (simp_all add: findGrant_def split: option.splits)

lemma IsAllowed_cong:
  "findGrant s svc ip cookie = findGrant s' svc ip cookie \<Longrightarrow>
     IsAllowed s svc ip reg now cookie = IsAllowed s' svc ip reg now cookie"
  by (simp add: IsAllowed_def)

text \<open>With no record left for the address, nothing is allowed from it.\<close>

lemma IsAllowed_none:
  assumes "\<And>k g. abs_grants s k = Some g \<Longrightarrow> \<not> (g_Service g = svc \<and> g_IP g = ip)"
  shows "IsAllowed s svc ip reg now cookie = None"
proof (rule ccontr)
  assume "IsAllowed s svc ip reg now cookie \<noteq> None"
  then obtain g where "IsAllowed s svc ip reg now cookie = Some g" by blast
  from IsAllowed_stored [OF this] assms show False by (auto simp: grant_ok_def)
qed

section \<open>Keys\<close>

lemma length_CookieHash [simp]: "length (CookieHash c) = 64"
  by (simp add: CookieHash_def length_sha256)

lemma CookieHash_nonempty [simp]: "CookieHash c \<noteq> []"
  using length_CookieHash [of c] by force

lemma colon_not_hex: "CHR '':'' \<notin> set (hex_encode b)"
proof -
  have "\<forall>d \<in> set [0..<16]. hex_digit d \<noteq> CHR '':''" by code_simp
  then have "hex_digit d \<noteq> CHR '':''" if "d < 16" for d using that by auto
  then have "hex_digit (unat x div 16) \<noteq> CHR '':''" "hex_digit (unat x mod 16) \<noteq> CHR '':''" for x :: byte
    using unat_byte_less [of x] by (simp_all add: less_mult_imp_div_less)
  then show ?thesis by (fastforce simp: hex_encode_def)
qed

lemma colon_not_CookieHash [simp]: "CHR '':'' \<notin> set (CookieHash c)"
  by (simp add: CookieHash_def colon_not_hex)

text \<open>Between names without a colon and canonical addresses, which are shorter than a hash, keys
  are unambiguous.\<close>

definition plain_service :: "string \<Rightarrow> bool" where
  "plain_service svc \<longleftrightarrow> CHR '':'' \<notin> set svc"

definition short_addr :: "string \<Rightarrow> bool" where
  "short_addr ip \<longleftrightarrow> length ip < 64"

lemma short_CanonIP: "CanonIP addr p6 p4 = Inr s \<Longrightarrow> short_addr s"
  using length_CanonIP by (fastforce simp: short_addr_def)

lemma GrantKey_inject:
  "plain_service svc \<Longrightarrow> plain_service svc' \<Longrightarrow>
     GrantKey svc ip = GrantKey svc' ip' \<longleftrightarrow> svc = svc' \<and> ip = ip'"
  using split_first [of "CHR '':''" svc svc' ip ip'] by (simp add: GrantKey_def plain_service_def)

lemma GrantKeyCookie_eq: "GrantKeyCookie svc ip h = GrantKey svc (ip @ '':'' @ h)"
  by (simp add: GrantKeyCookie_def GrantKey_def)

lemma GrantKeyCookie_inject:
  assumes "plain_service svc" "plain_service svc'" "CHR '':'' \<notin> set h" "CHR '':'' \<notin> set h'"
  shows "GrantKeyCookie svc ip h = GrantKeyCookie svc' ip' h' \<longleftrightarrow> svc = svc' \<and> ip = ip' \<and> h = h'"
  using split_last [of "CHR '':''" h h' ip ip'] assms
  by (simp add: GrantKeyCookie_eq GrantKey_inject)

lemma GrantKey_neq_Cookie:
  assumes "plain_service svc" "plain_service svc'" "short_addr ip" "length h = 64"
  shows "GrantKey svc ip \<noteq> GrantKeyCookie svc' ip' h"
  using assms by (auto simp: GrantKeyCookie_eq GrantKey_inject short_addr_def)

section \<open>What the operations do to the check\<close>

text \<open>A record just put is the one its holder's requests find.\<close>

lemma findGrant_Put_cookie:
  assumes "g_Binding g = BindingIPCookie" "g_CookieHash g = CookieHash cookie" "cookie \<noteq> []"
  shows "findGrant (Put s (Some g) ohs) (g_Service g) (g_IP g) cookie = Some g"
  using assms by (simp add: findGrant_def abs_Put keyFor_def)

lemma findGrant_Put_ip:
  assumes "g_Binding g \<noteq> BindingIPCookie \<or> g_CookieHash g = []"
    and "cookie = [] \<or> abs_grants (Put s (Some g) ohs) (GrantKeyCookie (g_Service g) (g_IP g) (CookieHash cookie)) = None"
  shows "findGrant (Put s (Some g) ohs) (g_Service g) (g_IP g) cookie = Some g"
  using assms by (auto simp: findGrant_def abs_Put keyFor_def split: option.splits)

text \<open>A cookie hash as the code makes them: absent, or the hash of a cookie.\<close>

definition hash_shape :: "string \<Rightarrow> bool" where
  "hash_shape h \<longleftrightarrow> h = [] \<or> (\<exists>c. h = CookieHash c)"

lemma hash_shape_CookieHash [simp]: "hash_shape (CookieHash c)" "hash_shape []"
  by (auto simp: hash_shape_def)

lemma hash_shapeD: "hash_shape h \<Longrightarrow> h \<noteq> [] \<Longrightarrow> length h = 64 \<and> CHR '':'' \<notin> set h"
  by (auto simp: hash_shape_def)

text \<open>The keys one client's requests read are not the keys of another client.\<close>

lemma keys_of_other_client:
  assumes "plain_service svc" "plain_service svc'" "short_addr ip" "short_addr ip'"
    and "(svc', ip') \<noteq> (svc, ip)" and "hash_shape h" "h \<noteq> []"
  shows "GrantKey svc' ip' \<noteq> GrantKey svc ip"
    and "GrantKey svc' ip' \<noteq> GrantKeyCookie svc ip h"
    and "GrantKeyCookie svc' ip' (CookieHash cookie) \<noteq> GrantKey svc ip"
    and "GrantKeyCookie svc' ip' (CookieHash cookie) \<noteq> GrantKeyCookie svc ip h"
  using assms hash_shapeD [OF assms(6,7)]
  by (auto simp: GrantKey_inject GrantKeyCookie_inject GrantKey_neq_Cookie GrantKey_neq_Cookie [symmetric])

lemma keyFor_other:
  assumes "plain_service svc'" "plain_service (g_Service g)" "short_addr ip'" "short_addr (g_IP g)"
    and "hash_shape (g_CookieHash g)" and "(svc', ip') \<noteq> (g_Service g, g_IP g)"
  shows "keyFor g \<noteq> GrantKey svc' ip'" and "keyFor g \<noteq> GrantKeyCookie svc' ip' (CookieHash cookie)"
proof -
  note other_keys = keys_of_other_client [OF assms(2,1,4,3,6)]
  show "keyFor g \<noteq> GrantKey svc' ip'" and "keyFor g \<noteq> GrantKeyCookie svc' ip' (CookieHash cookie)"
    using other_keys [of "g_CookieHash g", symmetric] other_keys(1,3) [of "CookieHash []", symmetric] assms(5)
    by (simp_all add: keyFor_def)
qed

lemma findGrant_Put_other:
  assumes svc: "plain_service svc'" "plain_service (g_Service g)"
    and ip: "short_addr ip'" "short_addr (g_IP g)"
    and hashes: "hash_shape (g_CookieHash g)" "list_all hash_shape ohs"
    and other: "(svc', ip') \<noteq> (g_Service g, g_IP g)"
  shows "findGrant (Put s (Some g) ohs) svc' ip' cookie = findGrant s svc' ip' cookie"
proof (rule findGrant_cong)
  note other_keys = keys_of_other_client [OF svc(2,1) ip(2,1) other]
  have "\<not> retired g ohs (GrantKey svc' ip')"
    and "\<not> retired g ohs (GrantKeyCookie svc' ip' (CookieHash cookie))"
    using hashes(2) by (auto simp: retired_def list_all_iff other_keys(2,4))
  moreover note keyFor_other(1) [OF svc ip hashes(1) other, symmetric]
    and keyFor_other(2) [OF svc ip hashes(1) other, of cookie, symmetric]
  ultimately show "abs_grants (Put s (Some g) ohs) (GrantKey svc' ip') = abs_grants s (GrantKey svc' ip')"
    and "abs_grants (Put s (Some g) ohs) (GrantKeyCookie svc' ip' (CookieHash cookie)) =
      abs_grants s (GrantKeyCookie svc' ip' (CookieHash cookie))"
    by (simp_all add: abs_Put)
qed

text \<open>Nor does a device evict another device at the same address.\<close>

lemma findGrant_Put_other_device:
  assumes svc: "plain_service (g_Service g)" and ip: "short_addr (g_IP g)"
    and hashes: "hash_shape (g_CookieHash g)" "list_all hash_shape ohs"
    and dev: "g_Binding g = BindingIPCookie" "g_CookieHash g \<noteq> []"
    and other: "CookieHash cookie \<noteq> g_CookieHash g" "CookieHash cookie \<notin> set ohs"
  shows "findGrant (Put s (Some g) ohs) (g_Service g) (g_IP g) cookie = findGrant s (g_Service g) (g_IP g) cookie"
proof (rule findGrant_cong)
  let ?K = "GrantKey (g_Service g) (g_IP g)"
  let ?C = "GrantKeyCookie (g_Service g) (g_IP g) (CookieHash cookie)"
  have "\<not> retired g ohs ?K" and "\<not> retired g ohs ?C"
    using hashes(2) other svc ip
    by (auto simp: retired_def list_all_iff GrantKeyCookie_inject GrantKey_neq_Cookie dest!: hash_shapeD)
  moreover have "keyFor g \<noteq> ?K" and "keyFor g \<noteq> ?C"
    using dev hash_shapeD [OF hashes(1) dev(2)] svc ip other GrantKey_neq_Cookie [OF svc svc ip, of "g_CookieHash g" "g_IP g"]
    by (auto simp: keyFor_def GrantKeyCookie_inject)
  ultimately show "abs_grants (Put s (Some g) ohs) ?K = abs_grants s ?K"
    and "abs_grants (Put s (Some g) ohs) ?C = abs_grants s ?C"
    by (simp_all add: abs_Put)
qed

text \<open>Revoking an address or a token closes what it should, at once.\<close>

lemma IsAllowed_Revoke:
  "grant_inv s \<Longrightarrow> IsAllowed (snd (Revoke s svc ip)) svc ip reg now cookie = None"
  by (rule IsAllowed_none) (auto simp: abs_Revoke split: option.splits if_splits)

lemma IsAllowed_Revoke_other:
  assumes inv: "grant_inv s" and svc: "plain_service svc" "plain_service svc'" and ip: "short_addr ip" "short_addr ip'"
    and hashes: "\<And>k g. abs_grants s k = Some g \<Longrightarrow> hash_shape (g_CookieHash g)"
    and other: "(svc', ip') \<noteq> (svc, ip)"
  shows "IsAllowed (snd (Revoke s svc ip)) svc' ip' reg now cookie = IsAllowed s svc' ip' reg now cookie"
proof (intro IsAllowed_cong findGrant_cong)
  have "\<not> (g_Service g = svc \<and> g_IP g = ip)"
    if "abs_grants s k = Some g" "k = GrantKey svc' ip' \<or> k = GrantKeyCookie svc' ip' (CookieHash cookie)" for k g
    using that svc ip other keyFor_other(1) [of svc' g ip', OF _ _ _ _ hashes [OF that(1)]]
      keyFor_other(2) [of svc' g ip' cookie, OF _ _ _ _ hashes [OF that(1)]] grant_inv_key [OF inv that(1)]
    by auto
  then have "abs_grants (snd (Revoke s svc ip)) k = abs_grants s k"
    if "k = GrantKey svc' ip' \<or> k = GrantKeyCookie svc' ip' (CookieHash cookie)" for k
    using that by (auto simp: abs_Revoke [OF inv] split: option.splits)
  then show "abs_grants (snd (Revoke s svc ip)) (GrantKey svc' ip') = abs_grants s (GrantKey svc' ip')"
    and "abs_grants (snd (Revoke s svc ip)) (GrantKeyCookie svc' ip' (CookieHash cookie)) =
      abs_grants s (GrantKeyCookie svc' ip' (CookieHash cookie))"
    by blast+
qed

lemma IsAllowed_RevokeToken:
  "grant_inv s \<Longrightarrow> IsAllowed (snd (RevokeToken s kid)) svc ip reg now cookie = Some g \<Longrightarrow> g_Kid g \<noteq> kid"
  by (drule IsAllowed_stored) (auto simp: RevokeToken_eq split: option.splits if_splits)

lemma IsAllowed_monoD:
  assumes "IsAllowed s svc ip reg now cookie = Some g" and "now' \<le> now"
  shows "IsAllowed s svc ip reg now' cookie = Some g"
  using assms permits_mono by (fastforce simp: IsAllowed_Some_iff grant_ok_def)

lemma grant_List: "g \<in> set (List s now) \<longleftrightarrow> (\<exists>k. abs_grants s k = Some g \<and> now < g_Exp g)"
proof -
  have "g \<in> set (List s now) \<longleftrightarrow> (\<exists>k. (k, g) \<in> set (mrange (gs_grants s))) \<and> now < g_Exp g"
    by (auto simp: List_def intro: rev_image_eqI)
  then show ?thesis by (simp add: mem_mrange)
qed

section \<open>Properties\<close>

text \<open>A store with one record, to instantiate the properties at.\<close>

definition sample_grant :: Grant where
  "sample_grant =
     \<lparr>g_V = 1, g_Kid = ''__manual__'', g_Service = ''app'', g_IP = ''192.0.2.1'', g_Binding = BindingIP,
      g_CookieHash = [], g_Issued = 0, g_Exp = 100, g_Manual = True, g_SecretFP = []\<rparr>"

lemma sample_inv: "grant_inv (Put NewGrantStore (Some sample_grant) [])"
  by (simp add: grant_inv_Put grant_inv_New)

lemma sample_allowed:
  "IsAllowed (Put NewGrantStore (Some sample_grant) []) ''app'' ''192.0.2.1'' None 50 [] = Some sample_grant"
  using findGrant_Put_ip [of sample_grant "[]" NewGrantStore "[]"]
  by (simp add: IsAllowed_Some_iff grant_ok_def sample_grant_def BindingIP_def BindingIPCookie_def)

text \<open>the request-path check admits a request exactly when the record filed for it exists
  and satisfies every condition at once: not expired, for this very service and address, backed
  by a token that is registered now, with the pinned algorithm, unexpired, on the service's
  allow-list and holding the secret that verified the knock (unless it is a break-glass grant),
  and, for a device-bound record, presented with its cookie.\<close>

theorem request_admitted_iff:
  "IsAllowed s svc ip reg now cookie = Some g \<longleftrightarrow>
     findGrant s svc ip cookie = Some g \<and> grant_ok reg now svc ip cookie g"
  by (rule IsAllowed_Some_iff)

text \<open>C12: the store with its index refines a plain map from keys to records. \<open>Put\<close> files the
  record under its key and retires the old cookies' records, \<open>Revoke\<close>, \<open>RevokeToken\<close> and \<open>Sweep\<close>
  remove exactly the records of the address, of the token and the expired ones; the counts they
  return are the numbers removed; and each keeps the index exact.\<close>

theorem grant_store_refines_map:
  assumes "grant_inv s"
  shows "abs_grants (Put s (Some g) ohs) =
      (\<lambda>k. if k = keyFor g then Some g else if retired g ohs k then None else abs_grants s k) \<and>
    abs_grants (snd (Revoke s svc ip)) =
      (\<lambda>k. case abs_grants s k of Some g \<Rightarrow> if g_Service g = svc \<and> g_IP g = ip then None else Some g | None \<Rightarrow> None) \<and>
    abs_grants (snd (RevokeToken s kid)) =
      (\<lambda>k. case abs_grants s k of Some g \<Rightarrow> if g_Kid g = kid then None else Some g | None \<Rightarrow> None) \<and>
    fst (RevokeToken s kid) = int (card {k. \<exists>g. abs_grants s k = Some g \<and> g_Kid g = kid}) \<and>
    abs_grants (snd (Sweep s now)) =
      (\<lambda>k. case abs_grants s k of Some g \<Rightarrow> if now \<ge> g_Exp g then None else Some g | None \<Rightarrow> None) \<and>
    fst (Sweep s now) = int (card {k. \<exists>g. abs_grants s k = Some g \<and> now \<ge> g_Exp g}) \<and>
    grant_inv (Put s (Some g) ohs) \<and> grant_inv (snd (Revoke s svc ip)) \<and>
    grant_inv (snd (RevokeToken s kid)) \<and> grant_inv (snd (Sweep s now))"
  using assms
  by (simp add: fun_eq_iff abs_Put abs_Revoke abs_Sweep RevokeToken_eq fst_Sweep grant_inv_Put
      grant_inv_Revoke grant_inv_RevokeToken grant_inv_Sweep)

theorem grant_store_refines_map_witness:
  "fst (RevokeToken (Put NewGrantStore (Some sample_grant) []) ''__manual__'') = 1"
proof -
  let ?s = "Put NewGrantStore (Some sample_grant) []"
  have "abs_grants ?s k = (if k = keyFor sample_grant then Some sample_grant else None)" for k
    by (simp add: abs_Put retired_def NewGrantStore_def)
  then have "{k. \<exists>g. abs_grants ?s k = Some g \<and> g_Kid g = ''__manual__''} = {keyFor sample_grant}"
    by (auto simp: sample_grant_def split: if_splits)
  then show ?thesis
    using grant_store_refines_map [OF sample_inv, of sample_grant "[]" "[]" "[]" "''__manual__''" 0] by simp
qed

text \<open>after an address is revoked nothing is admitted from it, with any cookie and under
  any registry; and requests of every other client are admitted exactly as before.\<close>

theorem revoke_is_complete_and_exact:
  assumes "grant_inv s" and "plain_service svc" "plain_service svc'" "short_addr ip" "short_addr ip'"
    and "\<And>k g. abs_grants s k = Some g \<Longrightarrow> hash_shape (g_CookieHash g)"
    and "(svc', ip') \<noteq> (svc, ip)"
  shows "IsAllowed (snd (Revoke s svc ip)) svc ip reg now cookie = None \<and>
    IsAllowed (snd (Revoke s svc ip)) svc' ip' reg now cookie = IsAllowed s svc' ip' reg now cookie"
  using IsAllowed_Revoke [OF assms(1)] IsAllowed_Revoke_other [OF assms] by simp

theorem revoke_is_complete_and_exact_witness:
  "IsAllowed (snd (Revoke (Put NewGrantStore (Some sample_grant) []) ''app'' ''192.0.2.77'')) ''app'' ''192.0.2.1'' None 50 [] =
     Some sample_grant"
proof -
  let ?s = "Put NewGrantStore (Some sample_grant) []"
  have "hash_shape (g_CookieHash g)" if "abs_grants ?s k = Some g" for k g
    using that by (auto simp: abs_Put retired_def NewGrantStore_def sample_grant_def split: if_splits)
  then show ?thesis
    using revoke_is_complete_and_exact [OF sample_inv, of "''app''" "''app''" "''192.0.2.77''" "''192.0.2.1''" None 50 "[]"]
      sample_allowed by (simp add: plain_service_def short_addr_def)
qed

text \<open>a new grant never changes what another client is admitted to, nor, when it is bound
  to a device, what another device at the same address is admitted to.\<close>

theorem put_isolates_clients:
  assumes "plain_service svc'" "plain_service (g_Service g)" "short_addr ip'" "short_addr (g_IP g)"
    and "hash_shape (g_CookieHash g)" "list_all hash_shape ohs"
    and "(svc', ip') \<noteq> (g_Service g, g_IP g) \<or>
      g_Binding g = BindingIPCookie \<and> g_CookieHash g \<notin> {[], CookieHash cookie} \<and> CookieHash cookie \<notin> set ohs"
  shows "IsAllowed (Put s (Some g) ohs) svc' ip' reg now cookie = IsAllowed s svc' ip' reg now cookie"
proof (cases "(svc', ip') = (g_Service g, g_IP g)")
  case True
  then show ?thesis
    using findGrant_Put_other_device [OF assms(2,4,5,6), of cookie s] assms(7) by (auto intro: IsAllowed_cong)
next
  case False
  then show ?thesis using findGrant_Put_other [OF assms(1-6) False] by (intro IsAllowed_cong)
qed

theorem put_isolates_clients_witness:
  "IsAllowed (Put (Put NewGrantStore (Some sample_grant) []) (Some (sample_grant\<lparr>g_IP := ''192.0.2.77''\<rparr>)) [])
     ''app'' ''192.0.2.1'' None 50 [] = Some sample_grant"
  using put_isolates_clients [of "''app''" "sample_grant\<lparr>g_IP := ''192.0.2.77''\<rparr>" "''192.0.2.1''" "[]" "[]"
      "Put NewGrantStore (Some sample_grant) []" None 50] sample_allowed
  by (simp add: sample_grant_def plain_service_def short_addr_def)

lemma IsAllowed_Sweep:
  assumes "grant_inv s" and "t \<le> now" and "IsAllowed s svc ip reg now cookie = Some g"
  shows "IsAllowed (snd (Sweep s t)) svc ip reg now cookie = Some g"
proof -
  have f: "findGrant s svc ip cookie = Some g" and ok: "grant_ok reg now svc ip cookie g"
    using assms(3) by (simp_all add: IsAllowed_Some_iff)
  have "now < g_Exp g" using ok by (simp add: grant_ok_def)
  then have "findGrant (snd (Sweep s t)) svc ip cookie = Some g"
    using f assms(2) by (auto simp: findGrant_def Let_def abs_Sweep [OF assms(1)] split: option.splits if_splits)
  then show ?thesis using ok by (simp add: IsAllowed_Some_iff)
qed

text \<open>sweeping never takes an admission away: a request admitted before a sweep is admitted
  by the same record after it.\<close>

theorem sweep_keeps_admissions:
  assumes "grant_inv s" and "t \<le> now" and "IsAllowed s svc ip reg now cookie = Some g"
  shows "IsAllowed (snd (Sweep s t)) svc ip reg now cookie = Some g"
  using assms by (rule IsAllowed_Sweep)

theorem sweep_keeps_admissions_witness:
  "IsAllowed (snd (Sweep (Put NewGrantStore (Some sample_grant) []) 50)) ''app'' ''192.0.2.1'' None 50 [] = Some sample_grant"
  by (rule sweep_keeps_admissions [OF sample_inv _ sample_allowed]) simp

text \<open>C36: a sweep can, however, admit a request that was refused just before it: an expired
  device record is found first and shadows a live record of the address until it is swept.\<close>

theorem expired_record_shadows_live_one:
  "\<exists>s svc ip reg now cookie. grant_inv s \<and> IsAllowed s svc ip reg now cookie = None \<and>
     IsAllowed (snd (Sweep s now)) svc ip reg now cookie = Some sample_grant"
proof -
  define d where "d = sample_grant\<lparr>g_Kid := ''laptop'', g_Binding := BindingIPCookie, g_CookieHash := CookieHash ''c'',
    g_Exp := 10, g_Manual := False\<rparr>"
  define s where "s = Put (Put NewGrantStore (Some d) []) (Some sample_grant) []"
  have inv: "grant_inv s" by (simp add: s_def grant_inv_Put grant_inv_New)
  have kd: "keyFor d = GrantKeyCookie ''app'' ''192.0.2.1'' (CookieHash ''c'')"
    and ks: "keyFor sample_grant = GrantKey ''app'' ''192.0.2.1''"
    by (simp_all add: keyFor_def d_def sample_grant_def BindingIP_def BindingIPCookie_def)
  have ne: "GrantKey ''app'' ''192.0.2.1'' \<noteq> GrantKeyCookie ''app'' ''192.0.2.1'' (CookieHash ''c'')"
    by (rule GrantKey_neq_Cookie) (simp_all add: plain_service_def short_addr_def)
  have get: "abs_grants s k = (if k = keyFor sample_grant then Some sample_grant else if k = keyFor d then Some d else None)" for k
    by (simp add: s_def abs_Put retired_def NewGrantStore_def)
  have "findGrant s ''app'' ''192.0.2.1'' ''c'' = Some d"
    using ne by (simp add: findGrant_def get kd ks)
  then have "IsAllowed s ''app'' ''192.0.2.1'' None 50 ''c'' = None"
    by (simp add: IsAllowed_eq grant_ok_def d_def)
  moreover have "findGrant (snd (Sweep s 50)) ''app'' ''192.0.2.1'' ''c'' = Some sample_grant"
    using ne by (simp add: findGrant_def abs_Sweep [OF inv] get kd ks) (simp add: d_def sample_grant_def)
  then have "IsAllowed (snd (Sweep s 50)) ''app'' ''192.0.2.1'' None 50 ''c'' = Some sample_grant"
    by (simp add: IsAllowed_eq grant_ok_def sample_grant_def BindingIP_def BindingIPCookie_def)
  ultimately show ?thesis using inv by blast
qed

end
