(* ===== verification/Config.thy ===== *)
theory Config
  imports GrantStore
begin

text \<open>
  \<^verbatim>\<open>authorizer/config.go\<close>: the configuration, its validation \<open>finalize\<close> and the registry it gives.
  \<open>LoadConfig\<close> reads a file and decodes JSON over \<open>DefaultConfig\<close>; the model starts from the decoded
  record. \<open>config_ok\<close> is what a finalized configuration guarantees to the rest of the program.
\<close>

section \<open>Data\<close>

definition DefaultURIPrefix :: string where
  "DefaultURIPrefix = ''/.well-known/jit-access''"

definition FailInterstitial :: string where
  "FailInterstitial = ''interstitial''"

definition FailStealth :: string where
  "FailStealth = ''stealth''"

record ServiceConfig =
  sc_Tokens :: "string list"
  sc_FailureMode :: string
  sc_Binding :: string
  sc_GrantTTL :: int

record TokenConfig =
  tc_Kid :: string
  tc_Secret :: string
  tc_Label :: string
  tc_Expires :: int

record Config =
  cf_Listen :: string
  cf_AdminListen :: string
  cf_AdminToken :: string
  cf_URIPrefix :: string
  cf_TrustedProxies :: "string list"
  cf_RealIPHeader :: string
  cf_GrantTTL :: int
  cf_NonceTTL :: int
  cf_EnrollTTL :: int
  cf_IPv6Prefix :: int
  cf_RateLimit :: int
  cf_Services :: "(string, ServiceConfig) gomap"
  cf_Tokens :: "TokenConfig list"
  cf_trusted :: "Prefix list"
  cf_canonServices :: "(string, ServiceConfig) gomap"

definition DefaultConfig :: Config where
  "DefaultConfig =
     \<lparr>cf_Listen = ''127.0.0.1:8998'', cf_AdminListen = [], cf_AdminToken = [],
      cf_URIPrefix = DefaultURIPrefix, cf_TrustedProxies = [''127.0.0.0/8'', ''::1/128''],
      cf_RealIPHeader = ''X-Forwarded-For'', cf_GrantTTL = 3600, cf_NonceTTL = 60,
      cf_EnrollTTL = 86400, cf_IPv6Prefix = 128, cf_RateLimit = 10, cf_Services = mempty,
      cf_Tokens = [], cf_trusted = [], cf_canonServices = mempty\<rparr>"

section \<open>Validation\<close>

datatype config_error =
    BadAdminToken
  | BadTrustedProxy string
  | EmptyKid
  | DuplicateKid string
  | SecretNotB64u string
  | SecretTooShort string
  | ServiceCollision string string string
  | BadFailureMode string
  | BadBinding string

text \<open>The defaults and clamps at the start of \<open>finalize\<close>.\<close>

definition fill_defaults :: "Config \<Rightarrow> Config" where
  "fill_defaults c =
     c\<lparr>cf_URIPrefix := ''/'' @ Trim (if cf_URIPrefix c = [] then DefaultURIPrefix else cf_URIPrefix c) ''/'',
       cf_RealIPHeader := (if cf_RealIPHeader c = [] then ''X-Forwarded-For'' else cf_RealIPHeader c),
       cf_IPv6Prefix := (if cf_IPv6Prefix c \<le> 0 \<or> cf_IPv6Prefix c > 128 then 128 else cf_IPv6Prefix c),
       cf_NonceTTL := (if cf_NonceTTL c \<le> 0 then 60 else cf_NonceTTL c),
       cf_GrantTTL := (if cf_GrantTTL c \<le> 0 then 3600 else cf_GrantTTL c),
       cf_EnrollTTL :=
         (let ttl = (if cf_EnrollTTL c \<le> 0 then 86400 else cf_EnrollTTL c);
              ttl = (if ttl < 300 then 300 else ttl)
          in if ttl > 604800 then 604800 else ttl)\<rparr>"

definition admin_token_ok :: "string \<Rightarrow> bool" where
  "admin_token_ok t \<longleftrightarrow>
     (t \<noteq> [] \<longrightarrow>
        (let up = ToUpper t in
         \<not> (length t < 16 \<or> Contains up ''CHANGE'' \<or> Contains up ''REPLACE'' \<or> Contains up ''PLACEHOLDER'')))"

definition parse_trusted :: "string \<Rightarrow> Prefix option" where
  "parse_trusted s =
     (case ParsePrefix s of
        Some p \<Rightarrow> Some p
      | None \<Rightarrow> (case ParseAddr s of
                   None \<Rightarrow> None
                 | Some a \<Rightarrow> Some (PrefixFrom a (BitLen a))))"

definition trust_step :: "string \<Rightarrow> Prefix list \<Rightarrow> config_error + Prefix list" where
  "trust_step s ps =
     (case parse_trusted s of None \<Rightarrow> Inl (BadTrustedProxy s) | Some p \<Rightarrow> Inr (ps @ [p]))"

definition token_step ::
  "TokenConfig \<Rightarrow> (string, bool) gomap \<Rightarrow> config_error + (string, bool) gomap" where
  "token_step t seen =
     (if tc_Kid t = [] then Inl EmptyKid
      else if mflag seen (tc_Kid t) then Inl (DuplicateKid (tc_Kid t))
      else
        let seen = mput seen (tc_Kid t) True in
        case B64uDecode (tc_Secret t) of
          Inl err \<Rightarrow> Inl (SecretNotB64u (tc_Kid t))
        | Inr sec \<Rightarrow> if length sec < 16 then Inl (SecretTooShort (tc_Kid t)) else Inr seen)"

definition canon_step ::
  "string \<times> ServiceConfig \<Rightarrow> (string, string) gomap \<Rightarrow> config_error + (string, string) gomap" where
  "canon_step ns byCanon =
     (let name = fst ns; canon = CanonServerName name in
      case mget byCanon canon of
        Some prev \<Rightarrow> Inl (ServiceCollision prev name canon)
      | None \<Rightarrow> Inr (mput byCanon canon name))"

definition canon_services :: "(string, ServiceConfig) gomap \<Rightarrow> (string, ServiceConfig) gomap" where
  "canon_services services =
     fold (\<lambda>(name, svc) m. mput m (CanonServerName name) svc) (mrange services) mempty"

definition mode_step :: "string \<times> ServiceConfig \<Rightarrow> unit \<Rightarrow> config_error + unit" where
  "mode_step ns u =
     (case ns of (name, svc) \<Rightarrow>
        if sc_FailureMode svc \<notin> {[], FailInterstitial, FailStealth} then Inl (BadFailureMode name)
        else if sc_Binding svc \<notin> {[], BindingIP, BindingIPCookie} then Inl (BadBinding name)
        else Inr u)"

definition finalize :: "Config \<Rightarrow> config_error + Config" where
  "finalize c =
     (let c = fill_defaults c in
      bind_sum (check_that (admin_token_ok (cf_AdminToken c)) BadAdminToken) (\<lambda>_.
      bind_sum (fold_sum trust_step (cf_TrustedProxies c) []) (\<lambda>trusted.
      let c = c\<lparr>cf_trusted := trusted\<rparr> in
      bind_sum (fold_sum token_step (cf_Tokens c) mempty) (\<lambda>_.
      bind_sum (fold_sum canon_step (mrange (cf_Services c)) mempty) (\<lambda>_.
      let c = c\<lparr>cf_canonServices := canon_services (cf_Services c)\<rparr> in
      bind_sum (fold_sum mode_step (mrange (cf_Services c)) ()) (\<lambda>_. Inr c))))))"

section \<open>What the rest of the program reads\<close>

definition registry_token :: "TokenConfig \<Rightarrow> (string, Token) gomap \<Rightarrow> b64_error + (string, Token) gomap" where
  "registry_token t tokens =
     (case B64uDecode (tc_Secret t) of
        Inl err \<Rightarrow> Inl err
      | Inr sec \<Rightarrow>
          Inr (mput tokens (tc_Kid t)
            \<lparr>tok_Secret = sec, tok_Alg = AlgHMACSHA256, tok_Label = tc_Label t,
             tok_Expires = tc_Expires t\<rparr>))"

definition allow_list :: "string list \<Rightarrow> (string, bool) gomap" where
  "allow_list kids = fold (\<lambda>kid m. mput m kid True) kids mempty"

definition Config_Registry :: "Config \<Rightarrow> b64_error + Registry" where
  "Config_Registry c =
     bind_sum (fold_sum registry_token (cf_Tokens c) mempty) (\<lambda>tokens.
       let services = fold (\<lambda>(canon, svc) m. mput m canon (allow_list (sc_Tokens svc)))
             (mrange (cf_canonServices c)) mempty
       in Inr (NewRegistry (Some tokens) (Some services)))"

definition Service :: "Config \<Rightarrow> string \<Rightarrow> ServiceConfig option" where
  "Service c canon = mget (cf_canonServices c) canon"

definition defaultFailureMode :: "Config \<Rightarrow> string" where
  "defaultFailureMode c =
     (if list_ex (\<lambda>(_, svc). sc_FailureMode svc = FailStealth) (mrange (cf_canonServices c))
      then FailStealth else FailInterstitial)"

definition failureMode :: "ServiceConfig \<Rightarrow> string" where
  "failureMode svc = (if sc_FailureMode svc = [] then FailInterstitial else sc_FailureMode svc)"

definition binding :: "ServiceConfig \<Rightarrow> string" where
  "binding svc = (if sc_Binding svc = [] then BindingIP else sc_Binding svc)"

definition grantTTL :: "Config \<Rightarrow> ServiceConfig \<Rightarrow> int" where
  "grantTTL c svc = (if sc_GrantTTL svc > 0 then sc_GrantTTL svc else cf_GrantTTL c)"

section \<open>Loops\<close>

lemma trust_loop:
  "fold_sum trust_step ss ps = Inr qs \<longleftrightarrow> (\<exists>rs. those (map parse_trusted ss) = Some rs \<and> qs = ps @ rs)"
proof (induction ss arbitrary: ps)
  case (Cons s ss)
  show ?case
    by (cases "parse_trusted s"; cases "those (map parse_trusted ss)")
      (auto simp: trust_step_def [of s ps] Cons.IH)
qed auto

definition secret_of :: "TokenConfig \<Rightarrow> bytes" where
  "secret_of t = (case B64uDecode (tc_Secret t) of Inl _ \<Rightarrow> [] | Inr b \<Rightarrow> b)"

definition token_config_ok :: "TokenConfig \<Rightarrow> bool" where
  "token_config_ok t \<longleftrightarrow> tc_Kid t \<noteq> [] \<and> (\<exists>b. B64uDecode (tc_Secret t) = Inr b) \<and> 16 \<le> length (secret_of t)"

lemma token_loop:
  "(\<exists>s'. fold_sum token_step ts s = Inr s') \<longleftrightarrow>
     list_all token_config_ok ts \<and> distinct (map tc_Kid ts) \<and> (\<forall>t \<in> set ts. \<not> mflag s (tc_Kid t))"
proof (induction ts arbitrary: s)
  case (Cons t ts)
  have flag: "mflag (mput s k True) k' \<longleftrightarrow> k' = k \<or> mflag s k'" for k k' by (auto simp: mflag_def)
  show ?case
    by (cases "B64uDecode (tc_Secret t)")
      (auto simp: token_step_def [of t s] Let_def Cons.IH token_config_ok_def [of t] secret_of_def [of t] flag image_iff)
qed auto

lemma canon_loop:
  "(\<exists>s'. fold_sum canon_step xs s = Inr s') \<longleftrightarrow>
     distinct (map (CanonServerName \<circ> fst) xs) \<and> (\<forall>x \<in> set xs. mget s (CanonServerName (fst x)) = None)"
proof (induction xs arbitrary: s)
  case (Cons x xs)
  show ?case
    by (cases "mget s (CanonServerName (fst x))")
      (auto simp: canon_step_def [of x s] Let_def Cons.IH)
qed auto

definition modes_ok :: "ServiceConfig \<Rightarrow> bool" where
  "modes_ok svc \<longleftrightarrow> sc_FailureMode svc \<in> {[], FailInterstitial, FailStealth} \<and>
     sc_Binding svc \<in> {[], BindingIP, BindingIPCookie}"

lemma mode_step_Inr: "mode_step x u = Inr v \<longleftrightarrow> modes_ok (snd x)"
  by (cases x) (auto simp: mode_step_def modes_ok_def)

lemma mode_loop: "fold_sum mode_step xs () = Inr u \<longleftrightarrow> list_all (\<lambda>x. modes_ok (snd x)) xs"
  by (induction xs) (auto simp: bind_sum_Inr_iff mode_step_Inr)

lemma mget_fold_mput:
  "distinct (map f xs) \<Longrightarrow> x \<in> set xs \<Longrightarrow> mget (fold (\<lambda>x m. mput m (f x) (g x)) xs m) (f x) = Some (g x)"
proof (induction xs arbitrary: m)
  case (Cons y ys)
  have keep: "k \<notin> f ` set ys \<Longrightarrow> mget (fold (\<lambda>x m. mput m (f x) (g x)) ys m) k = mget m k" for k m
    by (induction ys arbitrary: m) auto
  show ?case using Cons keep [of "f x"] by auto
qed simp

lemma mget_fold_mput_None:
  "k \<notin> f ` set xs \<Longrightarrow> mget (fold (\<lambda>x m. mput m (f x) (g x)) xs m) k = mget m k"
  by (induction xs arbitrary: m) auto

section \<open>What finalize guarantees\<close>

definition config_ok :: "Config \<Rightarrow> bool" where
  "config_ok c \<longleftrightarrow>
     (\<exists>p. cf_URIPrefix c = ''/'' @ p \<and> Trim p ''/'' = p) \<and>
     cf_RealIPHeader c \<noteq> [] \<and>
     1 \<le> cf_IPv6Prefix c \<and> cf_IPv6Prefix c \<le> 128 \<and>
     0 < cf_NonceTTL c \<and> 0 < cf_GrantTTL c \<and>
     300 \<le> cf_EnrollTTL c \<and> cf_EnrollTTL c \<le> 604800 \<and>
     admin_token_ok (cf_AdminToken c) \<and>
     those (map parse_trusted (cf_TrustedProxies c)) = Some (cf_trusted c) \<and>
     list_all token_config_ok (cf_Tokens c) \<and> distinct (map tc_Kid (cf_Tokens c)) \<and>
     inj_on CanonServerName (dom (mget (cf_Services c))) \<and>
     cf_canonServices c = canon_services (cf_Services c) \<and>
     (\<forall>name svc. mget (cf_Services c) name = Some svc \<longrightarrow> modes_ok svc)"

lemma Trim_idem: "Trim (Trim s cs) cs = Trim s cs"
proof -
  define l where "l = TrimLeft s cs"
  have l: "l = [] \<or> hd l \<notin> set cs"
    using hd_dropWhile [of "\<lambda>c. c \<in> set cs" s] by (auto simp: l_def TrimLeft_def)
  define r where "r = TrimRight l cs"
  have pre: "prefix r l" by (simp add: r_def TrimRight_prefix)
  have "r = [] \<or> hd r \<notin> set cs"
    using l pre by (cases r) (auto simp: prefix_def)
  then have "TrimLeft r cs = r" by (simp add: TrimLeft_id_iff)
  moreover have "r = [] \<or> last r \<notin> set cs"
    using hd_dropWhile [of "\<lambda>c. c \<in> set cs" "rev l"]
    by (auto simp: r_def TrimRight_def last_rev)
  then have "TrimRight r cs = r" by (simp add: TrimRight_id_iff)
  ultimately show ?thesis by (simp add: Trim_def r_def l_def)
qed

lemma fill_defaults_fields:
  "cf_URIPrefix (fill_defaults c) =
     ''/'' @ Trim (if cf_URIPrefix c = [] then DefaultURIPrefix else cf_URIPrefix c) ''/''"
  "cf_RealIPHeader (fill_defaults c) \<noteq> []"
  "1 \<le> cf_IPv6Prefix (fill_defaults c) \<and> cf_IPv6Prefix (fill_defaults c) \<le> 128"
  "0 < cf_NonceTTL (fill_defaults c)"
  "0 < cf_GrantTTL (fill_defaults c)"
  "300 \<le> cf_EnrollTTL (fill_defaults c) \<and> cf_EnrollTTL (fill_defaults c) \<le> 604800"
  "cf_AdminToken (fill_defaults c) = cf_AdminToken c"
  "cf_TrustedProxies (fill_defaults c) = cf_TrustedProxies c"
  "cf_Tokens (fill_defaults c) = cf_Tokens c"
  "cf_Services (fill_defaults c) = cf_Services c"
  by (simp_all add: fill_defaults_def Let_def)

lemma distinct_inj_on: "distinct (map (CanonServerName \<circ> fst) (mrange m)) \<longleftrightarrow> inj_on CanonServerName (dom (mget m))"
proof -
  have "distinct (map CanonServerName (map fst (mrange m))) \<longleftrightarrow> inj_on CanonServerName (set (map fst (mrange m)))"
    using distinct_map [of CanonServerName "map fst (mrange m)"] distinct_mrange [of m] by blast
  moreover have "set (map fst (mrange m)) = dom (mget m)"
    by (simp add: mget_map_of dom_map_of_conv_image_fst)
  ultimately show ?thesis by simp
qed

lemma finalize_Inr_iff:
  "finalize c = Inr c' \<longleftrightarrow>
     (\<exists>trusted. admin_token_ok (cf_AdminToken c) \<and>
       those (map parse_trusted (cf_TrustedProxies c)) = Some trusted \<and>
       list_all token_config_ok (cf_Tokens c) \<and> distinct (map tc_Kid (cf_Tokens c)) \<and>
       inj_on CanonServerName (dom (mget (cf_Services c))) \<and>
       list_all (\<lambda>x. modes_ok (snd x)) (mrange (cf_Services c)) \<and>
       c' = (fill_defaults c)\<lparr>cf_trusted := trusted, cf_canonServices := canon_services (cf_Services c)\<rparr>)"
proof -
  have tok: "(\<exists>s'. fold_sum token_step ts mempty = Inr s') \<longleftrightarrow>
      list_all token_config_ok ts \<and> distinct (map tc_Kid ts)" for ts
    by (simp add: token_loop mflag_def)
  have can: "(\<exists>s'. fold_sum canon_step (mrange m) mempty = Inr s') \<longleftrightarrow>
      inj_on CanonServerName (dom (mget m))" for m
    by (simp only: canon_loop distinct_inj_on) simp
  have ex: "(\<exists>u. X = Inr u \<and> Q) \<longleftrightarrow> (\<exists>u. X = Inr u) \<and> Q" for X :: "config_error + 'x" and Q by blast
  show ?thesis
    unfolding finalize_def Let_def bind_sum_Inr_iff check_that_Inr trust_loop mode_loop
    by (auto simp: fill_defaults_fields ex tok can)
qed

lemma modes_all: "list_all (\<lambda>x. modes_ok (snd x)) (mrange m) \<longleftrightarrow> (\<forall>k svc. mget m k = Some svc \<longrightarrow> modes_ok svc)"
proof -
  have "list_all (\<lambda>x. modes_ok (snd x)) xs \<longleftrightarrow> (\<forall>k svc. (k, svc) \<in> set xs \<longrightarrow> modes_ok svc)" for xs :: "('a \<times> ServiceConfig) list"
    by (auto simp: list_all_iff)
  then show ?thesis by (simp add: mem_mrange)
qed

lemma finalize_config_ok: "finalize c = Inr c' \<Longrightarrow> config_ok c'"
  using fill_defaults_fields [of c]
  by (auto simp: finalize_Inr_iff config_ok_def modes_all Trim_idem)

lemma TrimLeft_hd: "c \<in> set cs \<Longrightarrow> TrimLeft (c # s) cs = TrimLeft s cs"
  by (simp add: TrimLeft_def)

lemma fill_defaults_ok: "config_ok c \<Longrightarrow> fill_defaults c = c"
  by (auto simp: config_ok_def fill_defaults_def Let_def Trim_def TrimLeft_hd)

lemma finalize_ok: "config_ok c \<Longrightarrow> finalize c = Inr c"
  by (auto simp: finalize_Inr_iff fill_defaults_ok modes_all) (auto simp: config_ok_def)

text \<open>The service a canonical name resolves to is the one configured under a name for it.\<close>

lemma mget_canon_services:
  assumes "inj_on CanonServerName (dom (mget m))"
  shows "mget (canon_services m) canon = Some svc \<longleftrightarrow>
    (\<exists>name. mget m name = Some svc \<and> CanonServerName name = canon)"
proof -
  let ?f = "\<lambda>x. CanonServerName (fst x)"
  have fold: "canon_services m = fold (\<lambda>x m. mput m (?f x) (snd x)) (mrange m) mempty"
    by (simp add: canon_services_def case_prod_beta')
  have d: "distinct (map ?f (mrange m))" using assms distinct_inj_on [of m] by (simp add: comp_def)
  show ?thesis
  proof (cases "canon \<in> ?f ` set (mrange m)")
    case True
    then obtain x where x: "x \<in> set (mrange m)" "canon = ?f x" by blast
    then have get: "mget (canon_services m) canon = Some (snd x)"
      using mget_fold_mput [OF d x(1), of snd mempty] by (simp add: fold)
    have "svc = snd x" if "mget m name = Some svc" "CanonServerName name = canon" for name
    proof -
      have "(name, svc) \<in> set (mrange m)" using that by (simp add: mem_mrange)
      moreover have "inj_on ?f (set (mrange m))" using d by (simp add: distinct_map)
      ultimately have "(name, svc) = x" using x that(2) by (intro inj_onD [where f = ?f]) auto
      then show ?thesis by auto
    qed
    moreover have "mget m (fst x) = Some (snd x)" using x(1) by (simp add: mem_mrange [symmetric])
    ultimately show ?thesis using x(2) get by auto
  next
    case False
    then have "mget (canon_services m) canon = None"
      using mget_fold_mput_None [OF False, of snd mempty] by (simp add: fold)
    moreover have "CanonServerName name \<noteq> canon" if "mget m name = Some svc" for name
      using False that imageI [of "(name, svc)" "set (mrange m)" ?f] by (auto simp: mem_mrange)
    ultimately show ?thesis by auto
  qed
qed

lemma Service_Some_iff:
  assumes "config_ok c"
  shows "Service c canon = Some svc \<longleftrightarrow>
    (\<exists>name. mget (cf_Services c) name = Some svc \<and> CanonServerName name = canon)"
  using assms by (simp add: Service_def config_ok_def mget_canon_services)

lemma Service_modes_ok: "config_ok c \<Longrightarrow> Service c canon = Some svc \<Longrightarrow> modes_ok svc"
  by (auto simp: Service_Some_iff config_ok_def)

lemma binding_cases: "modes_ok svc \<Longrightarrow> binding svc = BindingIP \<or> binding svc = BindingIPCookie"
  by (auto simp: modes_ok_def binding_def)

lemma grantTTL_pos: "config_ok c \<Longrightarrow> 0 < grantTTL c svc"
  by (auto simp: grantTTL_def config_ok_def)

lemma failureMode_cases: "modes_ok svc \<Longrightarrow> failureMode svc = FailInterstitial \<or> failureMode svc = FailStealth"
  by (auto simp: modes_ok_def failureMode_def)

lemma defaultFailureMode_stealth_iff:
  "defaultFailureMode c = FailStealth \<longleftrightarrow> (\<exists>canon svc. Service c canon = Some svc \<and> failureMode svc = FailStealth)"
  by (force simp: defaultFailureMode_def list_ex_iff mem_mrange Service_def failureMode_def
      FailStealth_def FailInterstitial_def)

section \<open>The registry of a configuration\<close>

definition token_of :: "TokenConfig \<Rightarrow> Token" where
  "token_of t = \<lparr>tok_Secret = secret_of t, tok_Alg = AlgHMACSHA256, tok_Label = tc_Label t,
     tok_Expires = tc_Expires t\<rparr>"

lemma registry_tokens:
  assumes "list_all token_config_ok ts"
  shows "fold_sum registry_token ts m = Inr (fold (\<lambda>t m. mput m (tc_Kid t) (token_of t)) ts m)"
  using assms
  by (intro fold_sum_fold)
    (auto simp: registry_token_def token_of_def token_config_ok_def secret_of_def list_all_iff)

lemma mget_allow_list: "mget (allow_list kids) k = (if k \<in> set kids then Some True else None)"
proof -
  have "mget (fold (\<lambda>kid m. mput m kid True) kids m) k = (if k \<in> set kids then Some True else mget m k)" for m
    by (induction kids arbitrary: m) auto
  then show ?thesis by (simp add: allow_list_def)
qed

text \<open>A finalized configuration always gives a registry: the tokens by kid, and for each
  canonical service its allow-list.\<close>

lemma Config_Registry_ok:
  assumes "config_ok c"
  obtains r where "Config_Registry c = Inr r"
    and "\<And>kid. Lookup (Some r) kid = map_option token_of (find (\<lambda>t. tc_Kid t = kid) (cf_Tokens c))"
    and "\<And>canon. mget (reg_Services r) canon = map_option (\<lambda>svc. allow_list (sc_Tokens svc)) (Service c canon)"
proof
  let ?T = "fold (\<lambda>t m. mput m (tc_Kid t) (token_of t)) (cf_Tokens c) mempty"
  let ?S = "fold (\<lambda>(canon, svc) m. mput m canon (allow_list (sc_Tokens svc))) (mrange (cf_canonServices c)) mempty"
  have ok: "list_all token_config_ok (cf_Tokens c)" "distinct (map tc_Kid (cf_Tokens c))"
    using assms by (simp_all add: config_ok_def)
  show "Config_Registry c = Inr (NewRegistry (Some ?T) (Some ?S))"
    by (simp add: Config_Registry_def registry_tokens [OF ok(1)])
  show "Lookup (Some (NewRegistry (Some ?T) (Some ?S))) kid =
      map_option token_of (find (\<lambda>t. tc_Kid t = kid) (cf_Tokens c))" for kid
  proof (cases "find (\<lambda>t. tc_Kid t = kid) (cf_Tokens c)")
    case None
    then have "kid \<notin> tc_Kid ` set (cf_Tokens c)" by (auto simp: find_None_iff)
    then show ?thesis using None by (simp add: Lookup_def NewRegistry_def mget_fold_mput_None)
  next
    case (Some t)
    then have "t \<in> set (cf_Tokens c)" "kid = tc_Kid t" by (auto simp: find_Some_iff)
    then show ?thesis using Some mget_fold_mput [OF ok(2), of t token_of mempty]
      by (simp add: Lookup_def NewRegistry_def)
  qed
  show "mget (reg_Services (NewRegistry (Some ?T) (Some ?S))) canon =
      map_option (\<lambda>svc. allow_list (sc_Tokens svc)) (Service c canon)" for canon
  proof (cases "Service c canon")
    case None
    then have "canon \<notin> fst ` set (mrange (cf_canonServices c))" by (simp add: Service_def mget_None_iff)
    then show ?thesis using None
        mget_fold_mput_None [of canon fst "mrange (cf_canonServices c)" "\<lambda>x. allow_list (sc_Tokens (snd x))" mempty]
      by (simp add: NewRegistry_def case_prod_beta')
  next
    case (Some svc)
    then have "(canon, svc) \<in> set (mrange (cf_canonServices c))" by (simp add: Service_def mem_mrange)
    then show ?thesis using Some mget_fold_mput [OF distinct_mrange, of "(canon, svc)" "cf_canonServices c" "\<lambda>x. allow_list (sc_Tokens (snd x))" mempty]
      by (simp add: NewRegistry_def case_prod_beta')
  qed
qed

text \<open>The service whose allow-list decides: its own, or the wildcard service where that is the only one.\<close>

definition effective_service :: "Config \<Rightarrow> string \<Rightarrow> ServiceConfig option" where
  "effective_service c svc =
     (case Service c svc of
        Some sc \<Rightarrow> Some sc
      | None \<Rightarrow> if mlen (cf_canonServices c) = 1 then Service c ''*'' else None)"

lemma find_distinct_key:
  "distinct (map f xs) \<Longrightarrow> find (\<lambda>x. f x = k) xs = Some y \<longleftrightarrow> y \<in> set xs \<and> f y = k"
  by (induction xs) auto

lemma mflag_allow_list: "mflag (allow_list kids) k \<longleftrightarrow> k \<in> set kids"
  by (simp add: mflag_def mget_allow_list)

lemma permits_config:
  assumes "config_ok c" and "Config_Registry c = Inr r"
  shows "permits (Some r) kid svc now t \<longleftrightarrow>
    (\<exists>tc \<in> set (cf_Tokens c). tc_Kid tc = kid \<and> t = token_of tc \<and> (tc_Expires tc = 0 \<or> now < tc_Expires tc)) \<and>
    (\<exists>sc. effective_service c svc = Some sc \<and> (''*'' \<in> set (sc_Tokens sc) \<or> kid \<in> set (sc_Tokens sc)))"
proof -
  obtain r' where r': "Config_Registry c = Inr r'"
    and tok: "\<And>kid. Lookup (Some r') kid = map_option token_of (find (\<lambda>t. tc_Kid t = kid) (cf_Tokens c))"
    and srv: "\<And>canon. mget (reg_Services r') canon = map_option (\<lambda>svc. allow_list (sc_Tokens svc)) (Service c canon)"
    using Config_Registry_ok [OF assms(1)] by blast
  have r: "r' = r" using r' assms(2) by simp
  have "dom (mget (reg_Services r)) = dom (mget (cf_canonServices c))"
    using srv by (auto simp: r Service_def dom_def)
  then have len: "mlen (reg_Services r) = mlen (cf_canonServices c)" by (simp add: mlen_card)
  have d: "distinct (map tc_Kid (cf_Tokens c))" using assms(1) by (simp add: config_ok_def)
  have found: "find (\<lambda>t. tc_Kid t = kid) (cf_Tokens c) = Some tc \<longleftrightarrow> tc \<in> set (cf_Tokens c) \<and> tc_Kid tc = kid" for tc
    using find_distinct_key [OF d] .
  have allowed: "AllowedForService (Some r) kid svc \<longleftrightarrow>
      (\<exists>sc. effective_service c svc = Some sc \<and> (''*'' \<in> set (sc_Tokens sc) \<or> kid \<in> set (sc_Tokens sc)))"
    unfolding AllowedForService_def allowKey_def effective_service_def
    using srv len by (auto simp: r mflag_allow_list)
  have look: "Lookup (Some r) kid = Some t \<longleftrightarrow> (\<exists>tc \<in> set (cf_Tokens c). tc_Kid tc = kid \<and> t = token_of tc)"
    using tok found by (auto simp: r)
  show ?thesis
    unfolding permits_def allowed look by (auto simp: token_of_def IsExpired_def)
qed

section \<open>Properties\<close>

text \<open>A small deployment: one service open to any registered token, one token, one proxy network.\<close>

definition sample_config :: Config where
  "sample_config = DefaultConfig\<lparr>cf_TrustedProxies := [''10.0.0.0/8''],
     cf_Services := mput mempty ''app'' \<lparr>sc_Tokens = [''*''], sc_FailureMode = [], sc_Binding = [], sc_GrantTTL = 0\<rparr>,
     cf_Tokens := [\<lparr>tc_Kid = ''laptop'', tc_Secret = B64u (replicate 16 5), tc_Label = [], tc_Expires = 0\<rparr>]\<rparr>"

definition sample_final :: Config where
  "sample_final = (fill_defaults sample_config)\<lparr>cf_trusted := [Prefix (Addr4 0x0a000000) 8],
     cf_canonServices := canon_services (cf_Services sample_config)\<rparr>"

lemma sample_finalize: "finalize sample_config = Inr sample_final"
proof -
  have p: "parse_trusted ''10.0.0.0/8'' = Some (Prefix (Addr4 0x0a000000) 8)" by code_simp
  have "mget (cf_Services sample_config) n = (if n = ''app'' then Some
      \<lparr>sc_Tokens = [''*''], sc_FailureMode = [], sc_Binding = [], sc_GrantTTL = 0\<rparr> else None)" for n
    by (simp add: sample_config_def)
  then have "inj_on CanonServerName (dom (mget (cf_Services sample_config)))"
    and "list_all (\<lambda>x. modes_ok (snd x)) (mrange (cf_Services sample_config))"
    unfolding modes_all by (auto simp: modes_ok_def inj_on_def dom_def split: if_splits)
  then show ?thesis
    using p by (auto simp: finalize_Inr_iff sample_final_def sample_config_def DefaultConfig_def admin_token_ok_def
        token_config_ok_def secret_of_def B64uDecode_B64u)
qed

text \<open>C35: a configuration that passes validation satisfies everything the request path relies
  on, and validating it again changes nothing.\<close>

theorem finalize_sound_and_idempotent:
  assumes "finalize c = Inr c'"
  shows "config_ok c' \<and> finalize c' = Inr c'"
  using finalize_config_ok [OF assms] finalize_ok by blast

theorem finalize_sound_and_idempotent_witness: "config_ok sample_final \<and> finalize sample_final = Inr sample_final"
  by (rule finalize_sound_and_idempotent [OF sample_finalize])

text \<open>the registry built from a validated configuration permits exactly what the
  configuration says: a configured token that has not expired, on a service whose list names it
  or the wildcard.\<close>

theorem registry_permits_what_is_configured:
  assumes "config_ok c" and "Config_Registry c = Inr r"
  shows "permits (Some r) kid svc now t \<longleftrightarrow>
    (\<exists>tc. tc \<in> set (cf_Tokens c) \<and> tc_Kid tc = kid \<and> t = token_of tc \<and> (tc_Expires tc = 0 \<or> now < tc_Expires tc)) \<and>
    (\<exists>sc. effective_service c svc = Some sc \<and> (''*'' \<in> set (sc_Tokens sc) \<or> kid \<in> set (sc_Tokens sc)))"
  using permits_config [OF assms] by blast

theorem registry_permits_what_is_configured_witness:
  "\<exists>r t. Config_Registry sample_final = Inr r \<and> permits (Some r) ''laptop'' ''app'' 1700000000 t"
proof -
  have ok: "config_ok sample_final" using finalize_config_ok [OF sample_finalize] .
  then obtain r where r: "Config_Registry sample_final = Inr r" using Config_Registry_ok by blast
  have "CanonServerName ''app'' = ''app''" by code_simp
  then have "Service sample_final ''app'' = Some \<lparr>sc_Tokens = [''*''], sc_FailureMode = [], sc_Binding = [], sc_GrantTTL = 0\<rparr>"
    using Service_Some_iff [OF ok, of "''app''"] by (auto simp: sample_final_def sample_config_def fill_defaults_def)
  then have "effective_service sample_final ''app'' = Some \<lparr>sc_Tokens = [''*''], sc_FailureMode = [], sc_Binding = [], sc_GrantTTL = 0\<rparr>"
    by (simp add: effective_service_def)
  then show ?thesis
    using registry_permits_what_is_configured [OF ok r, of "''laptop''" "''app''" 1700000000] r
    by (auto simp: sample_final_def sample_config_def fill_defaults_def)
qed

end
