(* ===== verification/Http.thy ===== *)
theory Http
  imports Netip
begin

text \<open>
  What the engines use of Go's \<^verbatim>\<open>net/http\<close>, \<^verbatim>\<open>net/url\<close> and \<^verbatim>\<open>path\<close>: requests with their headers and
  cookies, responses, \<^verbatim>\<open>url.PathUnescape\<close> and \<^verbatim>\<open>path.Clean\<close>.

  A header is kept under its canonical key, as \<^verbatim>\<open>http.Header\<close> does; repeated headers are repeated
  entries, in order. The URL of a request is given by its decoded path (\<^verbatim>\<open>r.URL.Path\<close>) and its
  escaped path (\<^verbatim>\<open>r.URL.EscapedPath()\<close>).
\<close>

section \<open>Requests\<close>

record Request =
  rq_Method :: string
  rq_Host :: string
  rq_RemoteAddr :: string
  rq_Path :: string
  rq_EscapedPath :: string
  rq_RawQuery :: string
  rq_Header :: "(string \<times> string) list"
  rq_Body :: string

definition header_token_byte :: "char \<Rightarrow> bool" where
  "header_token_byte c \<longleftrightarrow>
     ord CHR ''0'' \<le> ord c \<and> ord c \<le> ord CHR ''9'' \<or>
     ord CHR ''a'' \<le> ord c \<and> ord c \<le> ord CHR ''z'' \<or>
     ord CHR ''A'' \<le> ord c \<and> ord c \<le> ord CHR ''Z'' \<or>
     c \<in> set ''!#$%&*+-.^_|~'' \<or> c = CHR 0x27 \<or> c = CHR 0x60"

fun mime_case :: "bool \<Rightarrow> string \<Rightarrow> string" where
  "mime_case upper [] = []"
| "mime_case upper (c # s) =
     (if upper \<and> ord CHR ''a'' \<le> ord c \<and> ord c \<le> ord CHR ''z'' then char_of (ord c - 32)
      else if \<not> upper \<and> ord CHR ''A'' \<le> ord c \<and> ord c \<le> ord CHR ''Z'' then char_of (ord c + 32)
      else c) # mime_case (c = CHR ''-'') s"

text \<open>\<^verbatim>\<open>textproto.CanonicalMIMEHeaderKey\<close>: a key with a byte outside the token alphabet is kept.\<close>

definition CanonicalHeaderKey :: "string \<Rightarrow> string" where
  "CanonicalHeaderKey k = (if list_all header_token_byte k then mime_case True k else k)"

definition Header_Values :: "Request \<Rightarrow> string \<Rightarrow> string list" where
  "Header_Values r k = map snd (filter (\<lambda>(h, _). h = CanonicalHeaderKey k) (rq_Header r))"

definition Header_Get :: "Request \<Rightarrow> string \<Rightarrow> string" where
  "Header_Get r k = (case Header_Values r k of [] \<Rightarrow> [] | v # _ \<Rightarrow> v)"

section \<open>Cookies\<close>

text \<open>\<^verbatim>\<open>readCookies\<close>: each \<^verbatim>\<open>Cookie\<close> header is split at semicolons; a part is a trimmed name, and a value
  that may be quoted; parts with a bad name or value are skipped.\<close>

definition TrimString :: "string \<Rightarrow> string" where
  "TrimString s = Trim s [CHR '' '', CHR 0x09, CHR 0x0A, CHR 0x0D]"

definition valid_cookie_byte :: "char \<Rightarrow> bool" where
  "valid_cookie_byte c \<longleftrightarrow>
     0x20 \<le> ord c \<and> ord c < 0x7f \<and> c \<noteq> CHR 0x22 \<and> c \<noteq> CHR '';'' \<and> c \<noteq> CHR 0x5c"

definition parse_cookie_value :: "string \<Rightarrow> string option" where
  "parse_cookie_value raw =
     (let raw = (if length raw > 1 \<and> hd raw = CHR 0x22 \<and> last raw = CHR 0x22
                 then butlast (tl raw) else raw)
      in if list_all valid_cookie_byte raw then Some raw else None)"

definition cookie_parts :: "string \<Rightarrow> string list" where
  "cookie_parts line = map TrimString (Split (TrimString line) CHR '';'')"

definition cookie_of_part :: "string \<Rightarrow> string \<Rightarrow> string option" where
  "cookie_of_part want part =
     (if part = [] then None
      else
        let (name, val) = Cut part CHR ''=''; name = TrimString name in
        if name = [] \<or> \<not> list_all header_token_byte name then None
        else if want \<noteq> [] \<and> want \<noteq> name then None
        else parse_cookie_value val)"

definition readCookies :: "Request \<Rightarrow> string \<Rightarrow> string list" where
  "readCookies r want =
     List.map_filter (cookie_of_part want) (concat (map cookie_parts (Header_Values r ''Cookie'')))"

text \<open>\<^verbatim>\<open>r.Cookie(name)\<close>: the first cookie of the name; \<^const>\<open>None\<close> is \<^verbatim>\<open>ErrNoCookie\<close>.\<close>

definition Request_Cookie :: "Request \<Rightarrow> string \<Rightarrow> string option" where
  "Request_Cookie r name =
     (if name = [] then None else case readCookies r name of [] \<Rightarrow> None | v # _ \<Rightarrow> Some v)"

section \<open>Responses\<close>

text \<open>The values the admin API encodes as JSON, and the bodies the handlers write.\<close>

datatype json = JNull | JString string | JInt int | JBool bool | JArray "json list" | JObject "(string \<times> json) list"

datatype response_body =
    NoBody | InterstitialHTML | RegisterHTML | TextBody string | JSONBody json | RedirectBody

record Response =
  rs_Status :: int
  rs_Header :: "(string \<times> string) list"
  rs_Body :: response_body

definition text_error :: "string \<Rightarrow> int \<Rightarrow> Response" where
  "text_error msg code =
     \<lparr>rs_Status = code,
      rs_Header = [(''Content-Type'', ''text/plain; charset=utf-8''), (''X-Content-Type-Options'', ''nosniff'')],
      rs_Body = TextBody (msg @ [CHR 0x0A])\<rparr>"

text \<open>\<^verbatim>\<open>http.NotFound\<close>.\<close>

definition NotFound :: Response where
  "NotFound = text_error ''404 page not found'' 404"

text \<open>\<^verbatim>\<open>w.WriteHeader(http.StatusNoContent)\<close> after some headers were set.\<close>

definition NoContent :: "(string \<times> string) list \<Rightarrow> Response" where
  "NoContent hs = \<lparr>rs_Status = 204, rs_Header = hs, rs_Body = NoBody\<rparr>"

definition StatusOnly :: "int \<Rightarrow> (string \<times> string) list \<Rightarrow> Response" where
  "StatusOnly code hs = \<lparr>rs_Status = code, rs_Header = hs, rs_Body = NoBody\<rparr>"

text \<open>\<^verbatim>\<open>strconv.FormatInt(n, 10)\<close>.\<close>

definition FormatInt :: "int \<Rightarrow> string" where
  "FormatInt n = (if n < 0 then CHR ''-'' # show_base 10 (nat (- n)) else show_base 10 (nat n))"

text \<open>\<^verbatim>\<open>Cookie.String()\<close> of a host-only, \<^verbatim>\<open>HttpOnly\<close>, \<^verbatim>\<open>Secure\<close>, \<^verbatim>\<open>SameSite=Strict\<close> cookie with path \<^verbatim>\<open>/\<close>; a maximum
  age of zero is left out, a negative one is printed as zero.\<close>

definition cookie_string :: "string \<Rightarrow> string \<Rightarrow> int \<Rightarrow> string" where
  "cookie_string name val maxAge =
     name @ ''='' @ val @ ''; Path=/'' @
     (if maxAge > 0 then ''; Max-Age='' @ FormatInt maxAge else if maxAge < 0 then ''; Max-Age=0'' else []) @
     ''; HttpOnly; Secure; SameSite=Strict''"

section \<open>Paths\<close>

text \<open>\<^verbatim>\<open>url.PathUnescape\<close>.\<close>

fun PathUnescape :: "string \<Rightarrow> string option" where
  "PathUnescape [] = Some []"
| "PathUnescape (c # s) =
     (if c = CHR ''%'' then
        (case s of
           h # l # t \<Rightarrow>
             (case (hex_val h, hex_val l) of
                (Some x, Some y) \<Rightarrow> map_option (\<lambda>r. char_of (16 * x + y) # r) (PathUnescape t)
              | _ \<Rightarrow> None)
         | _ \<Rightarrow> None)
      else map_option (\<lambda>r. c # r) (PathUnescape s))"

text \<open>The segments \<^verbatim>\<open>http.ServeMux\<close> compares: each is unescaped alone, and kept where that fails.\<close>

definition mux_segments :: "string \<Rightarrow> string list" where
  "mux_segments p = map (\<lambda>seg. case PathUnescape seg of Some s \<Rightarrow> s | None \<Rightarrow> seg) (Split p CHR ''/'')"

text \<open>\<^verbatim>\<open>path.Clean\<close>, on the segments between slashes: the stack of the segments kept (last first).
  An empty segment and \<^verbatim>\<open>.\<close> vanish; \<^verbatim>\<open>..\<close> removes the segment before it, is kept at the start of a
  relative path, and vanishes at the start of a rooted one.\<close>

definition clean_seg :: "bool \<Rightarrow> string \<Rightarrow> string list \<Rightarrow> string list" where
  "clean_seg rooted seg st =
     (if seg = [] \<or> seg = ''.'' then st
      else if seg = ''..'' then
        (case st of
           [] \<Rightarrow> if rooted then [] else [''..'']
         | t # st' \<Rightarrow> if t = ''..'' then ''..'' # st else st')
      else seg # st)"

definition clean_segs :: "bool \<Rightarrow> string list \<Rightarrow> string list" where
  "clean_segs rooted segs = rev (fold (clean_seg rooted) segs [])"

definition Clean :: "string \<Rightarrow> string" where
  "Clean path =
     (if path = [] then ''.''
      else
        let rooted = HasPrefix path ''/'';
            out = (if rooted then ''/'' else []) @ Join (clean_segs rooted (Split path CHR ''/'')) ''/''
        in if out = [] then ''.'' else out)"

text \<open>\<^verbatim>\<open>cleanPath\<close> of \<^verbatim>\<open>http.ServeMux\<close>: rooted and clean, with the trailing slash kept.\<close>

definition mux_clean :: "string \<Rightarrow> string" where
  "mux_clean p =
     (if p = [] then ''/''
      else
        let p = (if HasPrefix p ''/'' then p else ''/'' @ p);
            np = Clean p
        in if HasSuffix p ''/'' \<and> np \<noteq> ''/'' then np @ ''/'' else np)"

section \<open>Redirects\<close>

definition pct_digit :: "string \<Rightarrow> nat \<Rightarrow> char" where
  "pct_digit digits n = digits ! (n mod 16)"

definition percent :: "string \<Rightarrow> char \<Rightarrow> string" where
  "percent digits c = [CHR ''%'', pct_digit digits (of_char c div 16), pct_digit digits (of_char c)]"

text \<open>\<^verbatim>\<open>url.URL.EscapedPath\<close> of a path with no raw form.\<close>

definition escapePath :: "string \<Rightarrow> string" where
  "escapePath p =
     concat (map (\<lambda>c.
       if ord CHR ''0'' \<le> ord c \<and> ord c \<le> ord CHR ''9'' \<or>
          ord CHR ''a'' \<le> ord c \<and> ord c \<le> ord CHR ''z'' \<or>
          ord CHR ''A'' \<le> ord c \<and> ord c \<le> ord CHR ''Z'' \<or> c \<in> set ''-_.~$&+,/:;=@''
       then [c] else percent ''0123456789ABCDEF'' c) p)"

definition hexEscapeNonASCII :: "string \<Rightarrow> string" where
  "hexEscapeNonASCII s = concat (map (\<lambda>c. if ord c < 0x80 then [c] else percent ''0123456789abcdef'' c) s)"

text \<open>\<^verbatim>\<open>http.Redirect\<close> to a clean rooted path of this host, with the query of the request and the
  status \<^verbatim>\<open>http.StatusTemporaryRedirect\<close>.\<close>

definition Redirect :: "Request \<Rightarrow> string \<Rightarrow> Response" where
  "Redirect r path =
     \<lparr>rs_Status = 307,
      rs_Header = (''Location'', hexEscapeNonASCII
          (escapePath path @ (if rq_RawQuery r \<noteq> [] then ''?'' @ rq_RawQuery r else []))) #
        (if rq_Method r = ''GET'' \<or> rq_Method r = ''HEAD''
         then [(''Content-Type'', ''text/html; charset=utf-8'')] else []),
      rs_Body = (if rq_Method r = ''GET'' then RedirectBody else NoBody)\<rparr>"

section \<open>Clean rooted paths\<close>

definition clean_name :: "string \<Rightarrow> bool" where
  "clean_name seg \<longleftrightarrow> seg \<noteq> [] \<and> seg \<noteq> ''.'' \<and> seg \<noteq> ''..'' \<and> CHR ''/'' \<notin> set seg"

definition clean_path :: "string \<Rightarrow> bool" where
  "clean_path p \<longleftrightarrow> (\<exists>segs. list_all clean_name segs \<and> p = ''/'' @ Join segs ''/'')"

lemma Split_no_sep: "seg \<in> set (Split s c) \<Longrightarrow> c \<notin> set seg"
proof (induction s arbitrary: seg)
  case (Cons x s)
  then show ?case by (cases "Split s c") (auto split: if_splits)
qed simp

lemma Split_nonempty [simp]: "Split s c \<noteq> []"
  by (induction s) (auto split: list.splits)

lemma Split_no_sep_id: "c \<notin> set s \<Longrightarrow> Split s c = [s]"
  by (induction s) auto

lemma Split_append: "c \<notin> set w \<Longrightarrow> Split (w @ c # s) c = w # Split s c"
  by (induction w) auto

lemma Split_Join: "ws \<noteq> [] \<Longrightarrow> list_all (\<lambda>w. c \<notin> set w) ws \<Longrightarrow> Split (Join ws [c]) c = ws"
  by (induction ws "[c]" rule: Join.induct) (auto simp: Split_append Split_no_sep_id)

lemma clean_seg_rooted:
  assumes "CHR ''/'' \<notin> set seg" and "list_all clean_name st"
  shows "list_all clean_name (clean_seg True seg st)"
  using assms by (cases st) (auto simp: clean_seg_def clean_name_def)

lemma clean_segs_rooted:
  assumes "\<And>seg. seg \<in> set segs \<Longrightarrow> CHR ''/'' \<notin> set seg"
  shows "list_all clean_name (clean_segs True segs)"
proof -
  have "list_all clean_name (fold (clean_seg True) segs st)" if "list_all clean_name st" for st
    using that assms by (induction segs arbitrary: st) (auto simp: clean_seg_rooted)
  from this [of "[]"] show ?thesis by (simp add: clean_segs_def list_all_iff)
qed

lemma clean_segs_id: "list_all clean_name segs \<Longrightarrow> clean_segs True segs = segs"
proof -
  have "fold (clean_seg True) segs st = rev segs @ st" if "list_all clean_name segs" for st
    using that by (induction segs arbitrary: st) (auto simp: clean_seg_def clean_name_def)
  then show "list_all clean_name segs \<Longrightarrow> clean_segs True segs = segs" by (simp add: clean_segs_def)
qed

lemma Clean_rooted: "clean_path (Clean (CHR ''/'' # s))"
proof -
  have "list_all clean_name (clean_segs True (Split (CHR ''/'' # s) CHR ''/''))"
    by (rule clean_segs_rooted) (rule Split_no_sep)
  then show ?thesis by (auto simp: Clean_def Let_def HasPrefix_def clean_path_def)
qed

lemma Clean_id: "clean_path p \<Longrightarrow> Clean p = p"
proof -
  assume "clean_path p"
  then obtain segs where segs: "list_all clean_name segs" and p: "p = ''/'' @ Join segs ''/''"
    by (auto simp: clean_path_def)
  have "clean_segs True (Split p CHR ''/'') = segs"
  proof (cases "segs = []")
    case False
    then have "Split p CHR ''/'' = [] # segs"
      using segs Split_Join [of segs "CHR ''/''"] by (simp add: p list_all_iff clean_name_def)
    then show ?thesis using clean_segs_id [OF segs] by (simp add: clean_segs_def clean_seg_def)
  qed (simp add: p clean_segs_def clean_seg_def)
  then show ?thesis by (simp add: Clean_def Let_def HasPrefix_def p)
qed

lemma clean_path_slash: "clean_path p \<Longrightarrow> HasSuffix p ''/'' \<Longrightarrow> p = ''/''"
proof -
  assume "clean_path p" and suf: "HasSuffix p ''/''"
  then obtain segs where segs: "list_all clean_name segs" and p: "p = ''/'' @ Join segs ''/''"
    by (auto simp: clean_path_def)
  show "p = ''/''"
  proof (cases segs rule: rev_cases)
    case (snoc ws w)
    then have w: "w \<noteq> []" "CHR ''/'' \<notin> set w" using segs by (auto simp: clean_name_def)
    have "\<exists>u. Join (vs @ [w]) ''/'' = u @ w" for vs
    proof (induction vs)
      case (Cons v vs)
      then obtain u where "Join (vs @ [w]) ''/'' = u @ w" by blast
      then have "Join ((v # vs) @ [w]) ''/'' = (v @ ''/'' @ u) @ w" by (cases vs) auto
      then show ?case by blast
    qed (simp add: exI [of _ "[]"])
    then obtain u where "p = u @ w" using p snoc by (metis append_assoc)
    moreover have "last p = CHR ''/''" using suf by (cases p rule: rev_cases) (auto simp: HasSuffix_def)
    ultimately show ?thesis using w by (metis last_appendR last_in_set)
  qed (simp add: p)
qed

end
