(* ===== verification/RealIP.thy ===== *)
theory RealIP
  imports Config Http
begin

text \<open>
  \<^verbatim>\<open>authorizer/realip.go\<close>: who the client is and what it asks for, across the forward-auth
  boundary. Headers are evidence only from a trusted peer; the client is the rightmost address
  that is not one of the trusted hops; and where two forwarding conventions name different
  targets the request is refused.

  \<^verbatim>\<open>url.Parse\<close>, which reads the absolute URL of \<^verbatim>\<open>X-Original-URL\<close>, is the argument \<open>url_parse\<close>: the
  host and the escaped path of the URL, or \<^const>\<open>None\<close> for an error. Everything here holds
  whatever it returns.
\<close>

type_synonym url_parser = "string \<Rightarrow> (string \<times> string) option"

section \<open>Peers and clients\<close>

definition isTrusted :: "Config \<Rightarrow> Addr \<Rightarrow> bool" where
  "isTrusted c a = (let a = Unmap a in list_ex (\<lambda>p. Contains_addr p a) (cf_trusted c))"

definition peerAddr :: "Request \<Rightarrow> Addr option" where
  "peerAddr r =
     (let host = rq_RemoteAddr r;
          host = (case SplitHostPort host of Some (h, _) \<Rightarrow> h | None \<Rightarrow> host)
      in map_option Unmap (ParseAddr (Trim host ''[]'')))"

datatype client_error = NoClientIP | ClientCanon canon_error

definition forwardedList :: "Request \<Rightarrow> string \<Rightarrow> string list" where
  "forwardedList r header =
     concat (map (\<lambda>v.
       List.map_filter (\<lambda>part.
         let p = TrimSpace part;
             p = (case SplitHostPort p of Some (h, _) \<Rightarrow> h | None \<Rightarrow> p);
             p = Trim p ''[]''
         in if p \<noteq> [] then Some p else None)
       (Split v CHR '','')) (Header_Values r header))"

text \<open>The loop over the candidates, from the last to the first: the argument is reversed.\<close>

fun rightmostUntrusted :: "Config \<Rightarrow> string list \<Rightarrow> client_error + string" where
  "rightmostUntrusted c [] = Inl NoClientIP"
| "rightmostUntrusted c (cand # rest) =
     (case ParseAddr cand of
        None \<Rightarrow> rightmostUntrusted c rest
      | Some a \<Rightarrow>
          let a = Unmap a in
          if isTrusted c a then rightmostUntrusted c rest
          else (case CanonIP (AddrString a) (cf_IPv6Prefix c) 32 of
                  Inl err \<Rightarrow> Inl (ClientCanon err)
                | Inr canon \<Rightarrow> Inr canon))"

definition ClientIP :: "Config \<Rightarrow> Request \<Rightarrow> (client_error + string) \<times> bool" where
  "ClientIP c r =
     (case peerAddr r of
        None \<Rightarrow> (Inl NoClientIP, False)
      | Some peer \<Rightarrow>
          if \<not> isTrusted c peer then
            (case CanonIP (AddrString peer) (cf_IPv6Prefix c) 32 of
               Inl err \<Rightarrow> (Inl (ClientCanon err), False)
             | Inr canon \<Rightarrow> (Inr canon, False))
          else (rightmostUntrusted c (rev (forwardedList r (cf_RealIPHeader c))), True))"

section \<open>Targets\<close>

record forwardedView =
  fv_name :: string
  fv_host :: string
  fv_uri :: string

definition firstHostInChain :: "string \<Rightarrow> string" where
  "firstHostInChain v =
     (if v = [] then []
      else let v = (case IndexByte v CHR '','' of Some i \<Rightarrow> take i v | None \<Rightarrow> v) in TrimSpace v)"

definition forwardedViews :: "url_parser \<Rightarrow> Request \<Rightarrow> forwardedView list" where
  "forwardedViews url_parse r =
     (let fwHost = firstHostInChain (Header_Get r ''X-Forwarded-Host'');
          fwURI = Header_Get r ''X-Forwarded-Uri'';
          v = Header_Get r ''X-Original-URL'';
          oHost = firstHostInChain (Header_Get r ''X-Original-Host'');
          oURI = Header_Get r ''X-Original-Uri''
      in (if fwHost \<noteq> [] \<or> fwURI \<noteq> []
          then [\<lparr>fv_name = ''forwarded'', fv_host = fwHost, fv_uri = fwURI\<rparr>] else []) @
         (if v \<noteq> [] then
            (case url_parse v of
               Some (h, p) \<Rightarrow>
                 if h \<noteq> [] then [\<lparr>fv_name = ''original-url'', fv_host = h, fv_uri = p\<rparr>]
                 else [\<lparr>fv_name = ''original-url'', fv_host = [], fv_uri = v\<rparr>]
             | None \<Rightarrow> [\<lparr>fv_name = ''original-url'', fv_host = [], fv_uri = v\<rparr>])
          else []) @
         (if oHost \<noteq> [] \<or> oURI \<noteq> []
          then [\<lparr>fv_name = ''original'', fv_host = oHost, fv_uri = oURI\<rparr>] else []))"

definition cleanURIPath :: "string \<Rightarrow> string" where
  "cleanURIPath uri =
     (let uri = (case IndexAny uri ''?#'' of Some i \<Rightarrow> take i uri | None \<Rightarrow> uri) in
      case PathUnescape uri of
        None \<Rightarrow> ''/''
      | Some dec \<Rightarrow>
          if ContainsAny dec ''%?#'' then ''/''
          else let dec = (if HasPrefix dec ''/'' then dec else ''/'' @ dec) in Clean dec)"

definition muxWouldRedirect :: "string \<Rightarrow> bool" where
  "muxWouldRedirect p \<longleftrightarrow>
     (if p = [] then False
      else
        let np = Clean p;
            np = (if HasSuffix p ''/'' \<and> np \<noteq> ''/'' then np @ ''/'' else np)
        in np \<noteq> p)"

text \<open>The loop over the views: the host and the path claimed so far; \<^const>\<open>None\<close> is a conflict.\<close>

definition merge_view :: "forwardedView \<Rightarrow> (string \<times> string) option \<Rightarrow> (string \<times> string) option" where
  "merge_view v acc =
     (case acc of
        None \<Rightarrow> None
      | Some (host, pathClaim) \<Rightarrow>
          let h = CanonServerName (fv_host v); u = cleanURIPath (fv_uri v) in
          if fv_host v \<noteq> [] \<and> host \<noteq> [] \<and> h \<noteq> host then None
          else
            let host = (if fv_host v \<noteq> [] then h else host) in
            if fv_uri v \<noteq> [] \<and> pathClaim \<noteq> [] \<and> u \<noteq> pathClaim then None
            else Some (host, if fv_uri v \<noteq> [] then u else pathClaim))"

definition resolveTarget :: "url_parser \<Rightarrow> Config \<Rightarrow> Request \<Rightarrow> (string \<times> string) option" where
  "resolveTarget url_parse c r =
     (let service = CanonServerName (rq_Host r);
          uri = cleanURIPath (rq_EscapedPath r)
      in case peerAddr r of
           None \<Rightarrow> Some (service, uri)
         | Some peer \<Rightarrow>
             if \<not> isTrusted c peer then Some (service, uri)
             else
               (case fold merge_view (forwardedViews url_parse r) (Some ([], [])) of
                  None \<Rightarrow> None
                | Some (host, pathClaim) \<Rightarrow>
                    Some (if host \<noteq> [] then host else service,
                          if pathClaim \<noteq> [] then pathClaim else uri)))"

section \<open>Normalized paths\<close>

lemma clean_path_root: "clean_path ''/''"
  by (auto simp: clean_path_def intro: exI [of _ "[]"])

lemma clean_path_cleanURIPath: "clean_path (cleanURIPath uri)"
proof -
  have "clean_path (Clean dec)" if "HasPrefix dec ''/''" for dec
    using that Clean_rooted by (cases dec) (auto simp: HasPrefix_def)
  moreover have "clean_path (Clean (CHR ''/'' # dec))" for dec by (rule Clean_rooted)
  ultimately show ?thesis
    by (auto simp: cleanURIPath_def Let_def clean_path_root split: option.splits)
qed


lemma PathUnescape_plain: "CHR ''%'' \<notin> set s \<Longrightarrow> PathUnescape s = Some s"
  by (induction s rule: PathUnescape.induct) auto

lemma set_Join_subset: "set (Join ws sep) \<subseteq> \<Union>(set ` set ws) \<union> set sep"
  by (induction ws sep rule: Join.induct) auto

lemma set_clean_segs: "seg \<in> set (clean_segs True segs) \<Longrightarrow> seg \<in> set segs"
proof -
  have "set (clean_seg True x st) \<subseteq> insert x (set st)" for x st
    by (cases st) (auto simp: clean_seg_def)
  then have "set (fold (clean_seg True) segs st) \<subseteq> set segs \<union> set st" for st
    by (induction segs arbitrary: st) (auto, blast)
  from this [of "[]"] show "seg \<in> set (clean_segs True segs) \<Longrightarrow> seg \<in> set segs"
    by (auto simp: clean_segs_def)
qed

lemma set_Split: "seg \<in> set (Split s c) \<Longrightarrow> b \<in> set seg \<Longrightarrow> b \<in> set s"
proof (induction s arbitrary: seg)
  case (Cons x s)
  obtain w ws where w: "Split s c = w # ws" by (cases "Split s c") auto
  then have "b \<in> set w \<Longrightarrow> b \<in> set s" using Cons.IH [of w] by simp
  then show ?case using Cons w by (auto split: if_splits)
qed simp

lemma set_Clean: "HasPrefix p ''/'' \<Longrightarrow> set (Clean p) \<subseteq> set p"
proof -
  assume p: "HasPrefix p ''/''"
  then have slash: "CHR ''/'' \<in> set p" by (cases p) (auto simp: HasPrefix_def)
  have "set (Join (clean_segs True (Split p CHR ''/'')) ''/'') \<subseteq> set p"
  proof
    fix x assume "x \<in> set (Join (clean_segs True (Split p CHR ''/'')) ''/'')"
    then have "(\<exists>seg \<in> set (clean_segs True (Split p CHR ''/'')). x \<in> set seg) \<or> x = CHR ''/''"
      using set_Join_subset by fastforce
    then show "x \<in> set p" using slash set_clean_segs set_Split by blast
  qed
  then show ?thesis using p slash by (auto simp: Clean_def Let_def)
qed

text \<open>The bytes whose meaning depends on when one looks never survive.\<close>

lemma cleanURIPath_cases:
  obtains (root) "cleanURIPath uri = ''/''"
  | (clean) dec where "cleanURIPath uri = Clean dec" "HasPrefix dec ''/''" "\<not> ContainsAny dec ''%?#''"
proof -
  define u where "u = (case IndexAny uri ''?#'' of Some i \<Rightarrow> take i uri | None \<Rightarrow> uri)"
  consider "PathUnescape u = None" | dec where "PathUnescape u = Some dec" by (cases "PathUnescape u") auto
  then show thesis
  proof cases
    case 2
    let ?d = "if HasPrefix dec ''/'' then dec else ''/'' @ dec"
    have "cleanURIPath uri = (if ContainsAny dec ''%?#'' then ''/'' else Clean ?d)"
      using 2 by (simp add: cleanURIPath_def u_def)
    moreover have "HasPrefix ?d ''/''" by (simp add: HasPrefix_def)
    moreover have "ContainsAny ?d ''%?#'' = ContainsAny dec ''%?#''" by (simp add: ContainsAny_def)
    ultimately show thesis using root clean [of ?d] by (cases "ContainsAny dec ''%?#''") auto
  qed (use root in \<open>simp add: cleanURIPath_def u_def\<close>)
qed

lemma cleanURIPath_bytes: "c \<in> set ''%?#'' \<Longrightarrow> c \<notin> set (cleanURIPath uri)"
proof (rule cleanURIPath_cases [of uri])
  fix dec
  assume c: "c \<in> set ''%?#''" and eq: "cleanURIPath uri = Clean dec" and p: "HasPrefix dec ''/''"
    and "\<not> ContainsAny dec ''%?#''"
  then have "c \<notin> set dec" by (simp only: ContainsAny_def list_ex_iff) blast
  then show "c \<notin> set (cleanURIPath uri)" using set_Clean [OF p] eq by auto
qed auto

lemma IndexAny_None: "(\<And>c. c \<in> set cs \<Longrightarrow> c \<notin> set s) \<Longrightarrow> IndexAny s cs = None"
  by (auto simp: IndexAny_def index_of_None_iff)

lemma cleanURIPath_idem: "cleanURIPath (cleanURIPath uri) = cleanURIPath uri"
proof -
  let ?p = "cleanURIPath uri"
  have no: "CHR ''%'' \<notin> set ?p" "CHR ''?'' \<notin> set ?p" "CHR ''#'' \<notin> set ?p"
    by (rule cleanURIPath_bytes; simp)+
  then have "IndexAny ?p ''?#'' = None" by (intro IndexAny_None) auto
  moreover have "\<not> ContainsAny ?p ''%?#''" using no by (auto simp: ContainsAny_def list_ex_iff)
  moreover have "HasPrefix ?p ''/''" using clean_path_cleanURIPath [of uri] by (auto simp: clean_path_def HasPrefix_def)
  ultimately show ?thesis
    using no(1) Clean_id [OF clean_path_cleanURIPath, of uri]
    by (simp add: cleanURIPath_def [of ?p] PathUnescape_plain)
qed

interpretation uri_path: canonicalizer cleanURIPath
  by unfold_locales (rule cleanURIPath_idem)

lemma clean_not_redirected: "clean_path p \<Longrightarrow> \<not> muxWouldRedirect p"
  using clean_path_slash [of p] by (auto simp: muxWouldRedirect_def Clean_id Let_def)

section \<open>The client\<close>

text \<open>A candidate that identifies a client: it parses, and is no trusted hop.\<close>

definition usable :: "Config \<Rightarrow> string \<Rightarrow> bool" where
  "usable c cand \<longleftrightarrow> (case ParseAddr cand of None \<Rightarrow> False | Some a \<Rightarrow> \<not> isTrusted c (Unmap a))"

lemma rightmostUntrusted_eq:
  "rightmostUntrusted c cands =
     (case find (usable c) cands of
        None \<Rightarrow> Inl NoClientIP
      | Some cand \<Rightarrow>
          map_sum ClientCanon id (CanonIP (AddrString (Unmap (the (ParseAddr cand)))) (cf_IPv6Prefix c) 32))"
proof (induction cands)
  case (Cons cand cands)
  then show ?case by (auto simp: usable_def Let_def split: option.splits sum.splits)
qed simp

lemma find_append: "find P (xs @ ys) = (case find P xs of None \<Rightarrow> find P ys | Some x \<Rightarrow> Some x)"
  by (induction xs) auto

lemma find_list_ex: "list_ex P xs \<Longrightarrow> \<exists>x. find P xs = Some x"
  by (induction xs) auto

lemma rightmostUntrusted_append:
  "list_ex (usable c) cands \<Longrightarrow> rightmostUntrusted c (cands @ others) = rightmostUntrusted c cands"
  by (drule find_list_ex) (auto simp: rightmostUntrusted_eq find_append)

lemma Split_sep: "Split (s @ c # t) c = Split s c @ Split t c"
proof (induction s)
  case (Cons x s)
  then show ?case by (cases "Split s c") auto
qed simp

lemma forwardedList_append:
  assumes "Header_Values r h = [s @ CHR '','' # t]" and "Header_Values r' h = [t]"
  shows "\<exists>spoofed. forwardedList r h = spoofed @ forwardedList r' h"
  using assms by (auto simp: forwardedList_def Split_sep map_filter_def)

lemma ClientIP_direct:
  assumes "peerAddr r = Some peer" and "\<not> isTrusted c peer"
  shows "ClientIP c r = (map_sum ClientCanon id (CanonIP (AddrString peer) (cf_IPv6Prefix c) 32), False)"
  using assms by (simp add: ClientIP_def split: sum.splits)

lemma ClientIP_proxied:
  assumes "peerAddr r = Some peer" and "isTrusted c peer"
  shows "ClientIP c r = (rightmostUntrusted c (rev (forwardedList r (cf_RealIPHeader c))), True)"
  using assms by (simp add: ClientIP_def)

lemma peerAddr_cong: "rq_RemoteAddr r = rq_RemoteAddr r' \<Longrightarrow> peerAddr r = peerAddr r'"
  by (simp add: peerAddr_def)

text \<open>The address every grant is keyed by is canonical.\<close>

lemma ClientIP_canonical:
  assumes "fst (ClientIP c r) = Inr ip"
  shows "\<exists>addr. CanonIP addr (cf_IPv6Prefix c) 32 = Inr ip"
proof (cases "peerAddr r")
  case (Some peer)
  have "map_sum ClientCanon id x = Inr ip \<Longrightarrow> x = Inr ip" for x by (cases x) auto
  then show ?thesis
    using assms Some
    by (cases "isTrusted c peer") (auto simp: ClientIP_direct ClientIP_proxied rightmostUntrusted_eq split: option.splits)
qed (use assms in \<open>simp add: ClientIP_def\<close>)

lemma ClientIP_untrusted:
  assumes "ClientIP c r = (Inr ip, True)"
  shows "\<exists>cand a. cand \<in> set (forwardedList r (cf_RealIPHeader c)) \<and> ParseAddr cand = Some a \<and>
    \<not> isTrusted c (Unmap a) \<and> CanonIP (AddrString (Unmap a)) (cf_IPv6Prefix c) 32 = Inr ip"
proof -
  from assms obtain peer where p: "peerAddr r = Some peer" by (auto simp: ClientIP_def split: option.splits)
  have t: "isTrusted c peer"
    by (rule ccontr) (use assms p in \<open>simp add: ClientIP_direct\<close>)
  have inr: "map_sum ClientCanon id x = Inr ip \<Longrightarrow> x = Inr ip" for x by (cases x) auto
  from assms obtain cand where f: "find (usable c) (rev (forwardedList r (cf_RealIPHeader c))) = Some cand"
    and ip: "CanonIP (AddrString (Unmap (the (ParseAddr cand)))) (cf_IPv6Prefix c) 32 = Inr ip"
    by (auto simp: ClientIP_proxied [OF p t] rightmostUntrusted_eq inr split: option.splits)
  have "cand \<in> set (rev (forwardedList r (cf_RealIPHeader c))) \<and> usable c cand"
    using f unfolding find_Some_iff by (metis nth_mem)
  then show ?thesis using ip by (auto simp: usable_def split: option.splits)
qed

section \<open>The target\<close>

lemma fold_merge_None: "fold merge_view vs None = None"
  by (induction vs) (simp_all add: merge_view_def)


lemma fold_merge_shape:
  "fold merge_view vs (Some (h0, p0)) = Some (h, p) \<Longrightarrow>
     (h = h0 \<or> (\<exists>v \<in> set vs. h = CanonServerName (fv_host v))) \<and>
     (p = p0 \<or> (\<exists>v \<in> set vs. p = cleanURIPath (fv_uri v)))"
proof (induction vs arbitrary: h0 p0)
  case (Cons v vs)
  obtain h1 p1 where m: "merge_view v (Some (h0, p0)) = Some (h1, p1)"
    using Cons.prems by (cases "merge_view v (Some (h0, p0))") (auto simp: fold_merge_None)
  then have rest: "fold merge_view vs (Some (h1, p1)) = Some (h, p)" using Cons.prems by simp
  from m have "h1 = h0 \<or> h1 = CanonServerName (fv_host v)" "p1 = p0 \<or> p1 = cleanURIPath (fv_uri v)"
    by (auto simp: merge_view_def Let_def split: if_splits)
  with Cons.IH [OF rest] show ?case by auto
qed auto

lemma resolveTarget_direct:
  assumes "peerAddr r = Some peer" and "\<not> isTrusted c peer"
  shows "resolveTarget up c r = Some (CanonServerName (rq_Host r), cleanURIPath (rq_EscapedPath r))"
  using assms by (simp add: resolveTarget_def)


lemma resolveTarget_canonical:
  assumes "resolveTarget up c r = Some (service, uri)"
  shows "CanonServerName service = service \<and> clean_path uri"
proof (cases "\<exists>peer. peerAddr r = Some peer \<and> isTrusted c peer")
  case True
  then obtain h p where f: "fold merge_view (forwardedViews up r) (Some ([], [])) = Some (h, p)"
    and "service = (if h \<noteq> [] then h else CanonServerName (rq_Host r))"
    and "uri = (if p \<noteq> [] then p else cleanURIPath (rq_EscapedPath r))"
    using assms by (auto simp: resolveTarget_def split: option.splits)
  then show ?thesis
    using fold_merge_shape [OF f] CanonServerName_idem clean_path_cleanURIPath by (auto split: if_splits)
next
  case False
  then have "resolveTarget up c r = Some (CanonServerName (rq_Host r), cleanURIPath (rq_EscapedPath r))"
    by (cases "peerAddr r") (simp_all add: resolveTarget_def Let_def)
  then show ?thesis using assms by (simp add: CanonServerName_idem clean_path_cleanURIPath)
qed

section \<open>Properties\<close>

text \<open>A request the tests of the properties use: its peer, its forwarding header, its path.\<close>

definition sample_request :: "string \<Rightarrow> (string \<times> string) list \<Rightarrow> Request" where
  "sample_request peer hs =
     \<lparr>rq_Method = ''GET'', rq_Host = ''app'', rq_RemoteAddr = peer, rq_Path = ''/'', rq_EscapedPath = ''/'',
      rq_RawQuery = [], rq_Header = hs, rq_Body = []\<rparr>"

lemma sample_outsider:
  "peerAddr (sample_request ''192.0.2.1:5000'' hs) = Some (Addr4 0xc0000201)"
  "\<not> isTrusted sample_final (Addr4 0xc0000201)"
proof -
  have "peerAddr (sample_request ''192.0.2.1:5000'' []) = Some (Addr4 0xc0000201)" by code_simp
  then show "peerAddr (sample_request ''192.0.2.1:5000'' hs) = Some (Addr4 0xc0000201)"
    by (simp add: peerAddr_def sample_request_def)
  have "\<not> Contains_addr (Prefix (Addr4 0x0a000000) 8) (Unmap (Addr4 0xc0000201))" by code_simp
  then show "\<not> isTrusted sample_final (Addr4 0xc0000201)" by (simp add: isTrusted_def sample_final_def)
qed

lemma sample_proxy:
  "peerAddr (sample_request ''10.0.0.2:5000'' hs) = Some (Addr4 0x0a000002)"
  "isTrusted sample_final (Addr4 0x0a000002)"
proof -
  have "peerAddr (sample_request ''10.0.0.2:5000'' []) = Some (Addr4 0x0a000002)" by code_simp
  then show "peerAddr (sample_request ''10.0.0.2:5000'' hs) = Some (Addr4 0x0a000002)"
    by (simp add: peerAddr_def sample_request_def)
  have "Contains_addr (Prefix (Addr4 0x0a000000) 8) (Unmap (Addr4 0x0a000002))" by code_simp
  then show "isTrusted sample_final (Addr4 0x0a000002)" by (simp add: isTrusted_def sample_final_def)
qed

text \<open>a client that is no trusted proxy is described by its connection and its request
  line alone: whatever headers it sends, neither its address nor its target changes.\<close>

theorem untrusted_headers_ignored:
  assumes "peerAddr r = Some peer" and "\<not> isTrusted c peer"
  shows "ClientIP c (r\<lparr>rq_Header := hs\<rparr>) = ClientIP c r \<and>
    resolveTarget up c (r\<lparr>rq_Header := hs\<rparr>) = resolveTarget up c r"
proof -
  have "peerAddr (r\<lparr>rq_Header := hs\<rparr>) = Some peer" using assms(1) by (simp add: peerAddr_def)
  then show ?thesis
    using assms by (simp add: ClientIP_direct resolveTarget_direct)
qed

theorem untrusted_headers_ignored_witness:
  "ClientIP sample_final ((sample_request ''192.0.2.1:5000'' [])\<lparr>rq_Header := [(''X-Forwarded-For'', ''10.0.0.9'')]\<rparr>) =
     ClientIP sample_final (sample_request ''192.0.2.1:5000'' [])"
  using untrusted_headers_ignored [OF sample_outsider] by blast

text \<open>behind a trusted proxy, what a client puts in front of the forwarding header is never
  believed: as long as the part the proxies wrote names one untrusted address, any text before it
  leaves the client's address as it is.\<close>

theorem spoofed_prefix_ignored:
  assumes "peerAddr r = Some peer" and "isTrusted c peer" and "rq_RemoteAddr r' = rq_RemoteAddr r"
    and "Header_Values r (cf_RealIPHeader c) = [proxies]"
    and "Header_Values r' (cf_RealIPHeader c) = [spoofed @ CHR '','' # proxies]"
    and "list_ex (usable c) (forwardedList r (cf_RealIPHeader c))"
  shows "ClientIP c r' = ClientIP c r"
proof -
  have "peerAddr r' = Some peer" using assms(1,3) peerAddr_cong by metis
  moreover obtain extra where "forwardedList r' (cf_RealIPHeader c) = extra @ forwardedList r (cf_RealIPHeader c)"
    using forwardedList_append [OF assms(5,4)] by blast
  moreover have "list_ex (usable c) (rev (forwardedList r (cf_RealIPHeader c)))"
    using assms(6) by (simp add: list_ex_iff)
  ultimately show ?thesis
    using assms(1,2) by (simp add: ClientIP_proxied rightmostUntrusted_append)
qed

theorem spoofed_prefix_ignored_witness:
  "ClientIP sample_final (sample_request ''10.0.0.2:5000'' [(''X-Forwarded-For'', ''1.2.3.4,192.0.2.1'')]) =
   ClientIP sample_final (sample_request ''10.0.0.2:5000'' [(''X-Forwarded-For'', ''192.0.2.1'')])"
proof -
  have h: "cf_RealIPHeader sample_final = ''X-Forwarded-For''"
    by (simp add: sample_final_def sample_config_def fill_defaults_def DefaultConfig_def)
  have v: "Header_Values (sample_request ''10.0.0.2:5000'' [(''X-Forwarded-For'', v)]) ''X-Forwarded-For'' = [v]" for v
  proof -
    have "CanonicalHeaderKey ''X-Forwarded-For'' = ''X-Forwarded-For''" by code_simp
    then show ?thesis by (simp add: Header_Values_def sample_request_def)
  qed
  have l: "forwardedList (sample_request ''10.0.0.2:5000'' [(''X-Forwarded-For'', ''192.0.2.1'')]) ''X-Forwarded-For''
      = [''192.0.2.1'']" by code_simp
  have "ParseAddr ''192.0.2.1'' = Some (Addr4 0xc0000201)" and "Unmap (Addr4 0xc0000201) = Addr4 0xc0000201" by code_simp+
  then have u: "usable sample_final ''192.0.2.1''" using sample_outsider(2) by (simp add: usable_def)
  show ?thesis
  proof (rule spoofed_prefix_ignored [OF sample_proxy])
    show "Header_Values (sample_request ''10.0.0.2:5000'' [(''X-Forwarded-For'', ''1.2.3.4,192.0.2.1'')])
        (cf_RealIPHeader sample_final) = [''1.2.3.4'' @ CHR '','' # ''192.0.2.1'']" by (simp add: h v)
  qed (simp_all add: h v l u, simp add: sample_request_def)
qed



text \<open>every path a request is judged by is in normal form: rooted, without empty or dot
  segments, a fixed point of the normalization, free of the bytes that a second decoding would
  read differently, and one the router serves without a redirect.\<close>

theorem request_path_normal_form:
  "clean_path (cleanURIPath uri) \<and> cleanURIPath (cleanURIPath uri) = cleanURIPath uri \<and>
   set (cleanURIPath uri) \<inter> set ''%?#'' = {} \<and> \<not> muxWouldRedirect (cleanURIPath uri)"
  using clean_path_cleanURIPath [of uri] cleanURIPath_bytes [of _ uri]
  by (auto simp: clean_not_redirected uri_path.canon_idem)

end
