(* ===== verification/NonceStore.thy ===== *)
theory NonceStore
  imports Expiring
begin

text \<open>
  The other two stores of \<^verbatim>\<open>core/go/store.go\<close>: spent nonces (\<open>Claim\<close> is the atomic check-and-burn)
  and enrollment codes (\<open>Consume\<close> is delete-after-read). Each is a table of expiring entries, and
  each promises single use across any sequence of its operations (\<open>ns_op\<close>, \<open>es_op\<close>), the sweeps
  included.
\<close>

section \<open>Spent nonces\<close>

record NonceStore =
  ns_spent :: "(string, int) gomap"

definition NewNonceStore :: NonceStore where
  "NewNonceStore = \<lparr>ns_spent = mempty\<rparr>"

definition Claim :: "NonceStore \<Rightarrow> string \<Rightarrow> int \<Rightarrow> int \<Rightarrow> bool \<times> NonceStore" where
  "Claim n nid now ttl =
     (if (case mget (ns_spent n) nid of Some exp \<Rightarrow> now < exp | None \<Rightarrow> False) then (False, n)
      else (True, n\<lparr>ns_spent := mput (ns_spent n) nid (i64 (now + ttl))\<rparr>))"

definition Sweep_ns :: "NonceStore \<Rightarrow> int \<Rightarrow> int \<times> NonceStore" where
  "Sweep_ns n now =
     (case mpurge (\<lambda>k exp. now \<ge> exp) (ns_spent n) of (c, m) \<Rightarrow> (c, n\<lparr>ns_spent := m\<rparr>))"

lemma snd_Sweep_ns: "snd (Sweep_ns n now) = n\<lparr>ns_spent := snd (mpurge (\<lambda>k exp. now \<ge> exp) (ns_spent n))\<rparr>"
  by (simp add: Sweep_ns_def split: prod.splits)

interpretation spent: expiring_table_mono "\<lambda>_. True" "\<lambda>n. mget (ns_spent n)" "\<lambda>exp now. now \<ge> exp"
  "\<lambda>n now. snd (Sweep_ns n now)"
  by unfold_locales (simp_all add: snd_Sweep_ns mget_mpurge)

text \<open>\<open>Claim\<close> reads the table lazily, so it does not notice sweeps.\<close>

lemma fst_Claim: "fst (Claim n nid now ttl) \<longleftrightarrow> spent.live n now nid = None"
  by (auto simp: Claim_def spent.live_def split: option.splits)

lemma Claim_after_sweep: "t \<le> now \<Longrightarrow> fst (Claim (snd (Sweep_ns n t)) nid now ttl) = fst (Claim n nid now ttl)"
  by (simp add: fst_Claim spent.live_sweep)

datatype ns_op = NSClaim string int int | NSSweep int

fun ns_time :: "ns_op \<Rightarrow> int" where
  "ns_time (NSClaim nid now ttl) = now"
| "ns_time (NSSweep now) = now"

fun ns_exec :: "ns_op \<Rightarrow> NonceStore \<Rightarrow> NonceStore" where
  "ns_exec (NSClaim nid now ttl) n = snd (Claim n nid now ttl)"
| "ns_exec (NSSweep now) n = snd (Sweep_ns n now)"

text \<open>The nonce is spent at least until \<open>until\<close>.\<close>

definition spent_until :: "NonceStore \<Rightarrow> string \<Rightarrow> int \<Rightarrow> bool" where
  "spent_until n nid until \<longleftrightarrow> (\<exists>exp. mget (ns_spent n) nid = Some exp \<and> until \<le> exp)"

lemma spent_until_refused: "spent_until n nid until \<Longrightarrow> now < until \<Longrightarrow> \<not> fst (Claim n nid now ttl)"
  by (auto simp: spent_until_def Claim_def)

lemma spent_until_Claim: "spent_until n nid until \<Longrightarrow> now < until \<Longrightarrow> spent_until (snd (Claim n nid' now ttl)) nid until"
  by (auto simp: spent_until_def Claim_def split: option.splits)

lemma spent_until_Sweep: "spent_until n nid until \<Longrightarrow> now < until \<Longrightarrow> spent_until (snd (Sweep_ns n now)) nid until"
  by (auto simp: spent_until_def snd_Sweep_ns mget_mpurge)

lemma spent_until_exec: "spent_until n nid until \<Longrightarrow> ns_time op < until \<Longrightarrow> spent_until (ns_exec op n) nid until"
  by (cases op) (auto simp: spent_until_Claim spent_until_Sweep)

lemma spent_until_fold:
  "spent_until n nid until \<Longrightarrow> (\<And>op. op \<in> set ops \<Longrightarrow> ns_time op < until) \<Longrightarrow>
     spent_until (fold ns_exec ops n) nid until"
  by (induction ops arbitrary: n) (auto simp: spent_until_exec)

lemma Claim_spends:
  "fst (Claim n nid now ttl) \<Longrightarrow> i64 (now + ttl) = now + ttl \<Longrightarrow> spent_until (snd (Claim n nid now ttl)) nid (now + ttl)"
  by (auto simp: spent_until_def Claim_def split: if_splits)

lemma spent_until_mono: "spent_until n nid u \<Longrightarrow> u' \<le> u \<Longrightarrow> spent_until n nid u'"
  by (auto simp: spent_until_def)

text \<open>A bad proof never reaches \<open>Claim\<close>, and one nonce's claim leaves the others alone.\<close>

lemma Claim_other: "nid' \<noteq> nid \<Longrightarrow> mget (ns_spent (snd (Claim n nid now ttl))) nid' = mget (ns_spent n) nid'"
  by (simp add: Claim_def)

section \<open>Enrollment codes\<close>

record EnrollCode =
  ec_Kid :: string
  ec_Origins :: "string list"
  ec_Exp :: int

record EnrollStore =
  es_codes :: "(string, EnrollCode) gomap"

definition NewEnrollStore :: EnrollStore where
  "NewEnrollStore = \<lparr>es_codes = mempty\<rparr>"

definition Put_es :: "EnrollStore \<Rightarrow> string \<Rightarrow> EnrollCode \<Rightarrow> EnrollStore" where
  "Put_es e code c = e\<lparr>es_codes := mput (es_codes e) code c\<rparr>"

definition Peek :: "EnrollStore \<Rightarrow> string \<Rightarrow> int \<Rightarrow> EnrollCode option" where
  "Peek e code now =
     (case mget (es_codes e) code of
        None \<Rightarrow> None
      | Some c \<Rightarrow> if now \<ge> ec_Exp c then None else Some c)"

definition Consume :: "EnrollStore \<Rightarrow> string \<Rightarrow> int \<Rightarrow> EnrollCode option \<times> EnrollStore" where
  "Consume e code now =
     (case mget (es_codes e) code of
        None \<Rightarrow> (None, e)
      | Some c \<Rightarrow>
          let e = e\<lparr>es_codes := mdel (es_codes e) code\<rparr> in
          if now \<ge> ec_Exp c then (None, e) else (Some c, e))"

definition Sweep_es :: "EnrollStore \<Rightarrow> int \<Rightarrow> int \<times> EnrollStore" where
  "Sweep_es e now =
     (case mpurge (\<lambda>k c. now \<ge> ec_Exp c) (es_codes e) of (n, m) \<Rightarrow> (n, e\<lparr>es_codes := m\<rparr>))"

lemma snd_Sweep_es: "snd (Sweep_es e now) = e\<lparr>es_codes := snd (mpurge (\<lambda>k c. now \<ge> ec_Exp c) (es_codes e))\<rparr>"
  by (simp add: Sweep_es_def split: prod.splits)

interpretation codes: expiring_table_mono "\<lambda>_. True" "\<lambda>e. mget (es_codes e)" "\<lambda>c now. now \<ge> ec_Exp c"
  "\<lambda>e now. snd (Sweep_es e now)"
  by unfold_locales (simp_all add: snd_Sweep_es mget_mpurge)

lemma Peek_live: "Peek e code now = codes.live e now code"
  by (simp add: Peek_def codes.live_def)

lemma fst_Consume: "fst (Consume e code now) = Peek e code now"
  by (simp add: Consume_def Peek_def Let_def split: option.splits)

lemma es_codes_Consume: "mget (es_codes (snd (Consume e code now))) k = (if k = code then None else mget (es_codes e) k)"
  by (auto simp: Consume_def Let_def split: option.splits)

lemma Peek_Put: "Peek (Put_es e code c) code now = (if now \<ge> ec_Exp c then None else Some c)"
  by (simp add: Peek_def Put_es_def)

datatype es_op = ESPut string EnrollCode | ESConsume string int | ESSweep int

fun es_exec :: "es_op \<Rightarrow> EnrollStore \<Rightarrow> EnrollStore" where
  "es_exec (ESPut code c) e = Put_es e code c"
| "es_exec (ESConsume code now) e = snd (Consume e code now)"
| "es_exec (ESSweep now) e = snd (Sweep_es e now)"

fun es_puts :: "string \<Rightarrow> es_op \<Rightarrow> bool" where
  "es_puts code (ESPut code' c) = (code' = code)"
| "es_puts code _ = False"

lemma es_gone_exec: "mget (es_codes e) code = None \<Longrightarrow> \<not> es_puts code op \<Longrightarrow> mget (es_codes (es_exec op e)) code = None"
  by (cases op) (auto simp: es_codes_Consume snd_Sweep_es mget_mpurge Put_es_def)

lemma es_gone_fold:
  "mget (es_codes e) code = None \<Longrightarrow> (\<And>op. op \<in> set ops \<Longrightarrow> \<not> es_puts code op) \<Longrightarrow>
     mget (es_codes (fold es_exec ops e)) code = None"
  by (induction ops arbitrary: e) (auto simp: es_gone_exec)

lemma Consume_gone: "mget (es_codes e) code = None \<Longrightarrow> Consume e code now = (None, e)"
  by (simp add: Consume_def)

lemma Consume_expired: "Peek e code now = None \<Longrightarrow> fst (Consume e code now) = None"
  by (simp add: fst_Consume)

section \<open>Properties\<close>

text \<open>a claimed nonce stays spent: until its claim expires, no sequence of claims and sweeps
  lets it be claimed again.\<close>

theorem nonce_claimed_once:
  assumes "fst (Claim n nid now ttl)" and "i64 (now + ttl) = now + ttl"
    and "\<forall>op \<in> set ops. ns_time op < now + ttl" and "t < now + ttl"
  shows "\<not> fst (Claim (fold ns_exec ops (snd (Claim n nid now ttl))) nid t ttl')"
  using spent_until_fold [OF Claim_spends [OF assms(1,2)]] assms(3,4) spent_until_refused by blast

theorem nonce_claimed_once_witness:
  "fst (Claim NewNonceStore ''n'' 10 60) \<and>
   \<not> fst (Claim (fold ns_exec [NSSweep 40, NSClaim ''m'' 50 60, NSSweep 60] (snd (Claim NewNonceStore ''n'' 10 60))) ''n'' 69 60)"
proof -
  have first: "fst (Claim NewNonceStore ''n'' 10 60)" by (simp add: Claim_def NewNonceStore_def)
  then show ?thesis
    using nonce_claimed_once [OF first, of "[NSSweep 40, NSClaim ''m'' 50 60, NSSweep 60]" 69 60] i64_id [of 70]
    by (simp add: is_i64_def)
qed

text \<open>an enrollment code works once: after it is consumed, nothing but minting the same
  code again makes it work, whatever is consumed, swept or minted in between.\<close>

theorem enrollment_code_works_once:
  assumes "\<forall>op \<in> set ops. \<not> es_puts code op"
  shows "fst (Consume (fold es_exec ops (snd (Consume e code now))) code t) = None"
proof -
  have "mget (es_codes (fold es_exec ops (snd (Consume e code now)))) code = None"
    using assms by (intro es_gone_fold) (auto simp: es_codes_Consume)
  then show ?thesis by (simp add: Consume_gone)
qed

theorem enrollment_code_works_once_witness:
  "fst (Consume (fold es_exec [ESSweep 5, ESPut ''other'' \<lparr>ec_Kid = ''k'', ec_Origins = [], ec_Exp = 99\<rparr>]
     (snd (Consume (Put_es NewEnrollStore ''code'' \<lparr>ec_Kid = ''k'', ec_Origins = [], ec_Exp = 99\<rparr>) ''code'' 4))) ''code'' 6) = None"
  by (rule enrollment_code_works_once) simp

end
