(* ===== verification/RateLimit.thy ===== *)
theory RateLimit
  imports Canon Expiring
begin

text \<open>
  \<^verbatim>\<open>core/go/ratelimit.go\<close>: the knock throttle. A fixed one-minute window per key, in a table of
  bounded size. A \<^verbatim>\<open>*rlEntry\<close> is reached from the table only, so incrementing its counter is an
  update of the table. The mutex makes each operation atomic: an execution is a sequence of
  operations (\<open>rl_op\<close>, \<open>rl_run\<close>).
\<close>

section \<open>State and operations\<close>

record rlEntry =
  rl_start :: int
  rl_n :: int

record RateLimiter =
  rl_window :: "(string, rlEntry) gomap"
  rl_max :: int

definition DefaultRateLimitEntries :: int where
  "DefaultRateLimitEntries = 100000"

definition NewRateLimiter :: "int \<Rightarrow> RateLimiter" where
  "NewRateLimiter maxEntries =
     \<lparr>rl_window = mempty,
      rl_max = (if maxEntries \<le> 0 then DefaultRateLimitEntries else maxEntries)\<rparr>"

definition RateKey :: "string \<Rightarrow> string \<Rightarrow> string" where
  "RateKey scope ipCanon =
     (let ipCanon = (case CanonIP ipCanon 64 32 of Inr c \<Rightarrow> c | Inl err \<Rightarrow> ipCanon)
      in scope @ ''|'' @ ipCanon)"

definition sweepLocked :: "RateLimiter \<Rightarrow> int \<Rightarrow> int \<times> RateLimiter" where
  "sweepLocked l now =
     (case mpurge (\<lambda>k e. i64 (now - rl_start e) \<ge> 60) (rl_window l) of
        (n, w) \<Rightarrow> (n, l\<lparr>rl_window := w\<rparr>))"

definition Sweep_rl :: "RateLimiter \<Rightarrow> int \<Rightarrow> int \<times> RateLimiter" where
  "Sweep_rl l now = sweepLocked l now"

definition Allow :: "RateLimiter \<Rightarrow> string \<Rightarrow> int \<Rightarrow> int \<Rightarrow> bool \<times> RateLimiter" where
  "Allow l key perMin now =
     (if perMin \<le> 0 then (True, l)
      else
        let open_window =
              (\<lambda>l. (True, l\<lparr>rl_window := mput (rl_window l) key \<lparr>rl_start = now, rl_n = 1\<rparr>\<rparr>))
        in case mget (rl_window l) key of
             Some e \<Rightarrow>
               if i64 (now - rl_start e) < 60
               then let e' = e\<lparr>rl_n := i64 (rl_n e + 1)\<rparr>
                    in (rl_n e' \<le> perMin, l\<lparr>rl_window := mput (rl_window l) key e'\<rparr>)
               else open_window l
           | None \<Rightarrow>
               if int (mlen (rl_window l)) \<ge> rl_max l
               then let l = snd (sweepLocked l now)
                    in if int (mlen (rl_window l)) \<ge> rl_max l then (False, l) else open_window l
               else open_window l)"

definition Len_rl :: "RateLimiter \<Rightarrow> int" where
  "Len_rl l = int (mlen (rl_window l))"

section \<open>Sweeping\<close>

lemma sweepLocked_window:
  "snd (sweepLocked l now) = l\<lparr>rl_window := snd (mpurge (\<lambda>k e. i64 (now - rl_start e) \<ge> 60) (rl_window l))\<rparr>"
  by (simp add: sweepLocked_def split: prod.splits)

lemma mget_sweepLocked:
  "mget (rl_window (snd (sweepLocked l now))) k =
     (case mget (rl_window l) k of
        Some e \<Rightarrow> if i64 (now - rl_start e) \<ge> 60 then None else Some e
      | None \<Rightarrow> None)"
  by (simp add: sweepLocked_window mget_mpurge)

lemma rl_max_sweepLocked [simp]: "rl_max (snd (sweepLocked l now)) = rl_max l"
  by (simp add: sweepLocked_window)

lemma mlen_mono: "dom (mget m) \<subseteq> dom (mget m') \<Longrightarrow> mlen m \<le> mlen m'"
  by (simp add: mlen_card card_mono)

lemma mlen_sweepLocked: "mlen (rl_window (snd (sweepLocked l now))) \<le> mlen (rl_window l)"
  by (rule mlen_mono) (auto simp: mget_sweepLocked split: option.splits if_splits)

interpretation rate_windows: expiring_table "\<lambda>_. True" "\<lambda>l. mget (rl_window l)"
  "\<lambda>e now. i64 (now - rl_start e) \<ge> 60" "\<lambda>l now. snd (Sweep_rl l now)"
  by unfold_locales (simp_all add: Sweep_rl_def mget_sweepLocked)

section \<open>Bounded table\<close>

definition rl_inv :: "RateLimiter \<Rightarrow> bool" where
  "rl_inv l \<longleftrightarrow> 0 < rl_max l \<and> int (mlen (rl_window l)) \<le> rl_max l"

lemma rl_inv_New: "rl_inv (NewRateLimiter n)"
  by (simp add: rl_inv_def NewRateLimiter_def DefaultRateLimitEntries_def)

lemma rl_inv_Sweep: "rl_inv l \<Longrightarrow> rl_inv (snd (Sweep_rl l now))"
  using mlen_sweepLocked [of l now] by (simp add: rl_inv_def Sweep_rl_def)

lemma rl_inv_Allow: "rl_inv l \<Longrightarrow> rl_inv (snd (Allow l key perMin now))"
  using mlen_sweepLocked [of l now]
  by (auto simp: rl_inv_def Allow_def Let_def mlen_mput split: option.splits)

lemma rl_max_Allow [simp]: "rl_max (snd (Allow l key perMin now)) = rl_max l"
  by (auto simp: Allow_def Let_def split: option.splits)

section \<open>The throttle\<close>

text \<open>What one call does to the window of a key, and to the others.\<close>

lemma Allow_other:
  "k \<noteq> key \<Longrightarrow> mget (rl_window (snd (Allow l key perMin now))) k = mget (rl_window l) k \<or>
     (\<exists>e. mget (rl_window l) k = Some e \<and> i64 (now - rl_start e) \<ge> 60 \<and>
        mget (rl_window (snd (Allow l key perMin now))) k = None)"
  by (auto simp: Allow_def Let_def mget_sweepLocked split: option.splits)

datatype rl_op = RLAllow string int int | RLSweep int

fun rl_now :: "rl_op \<Rightarrow> int" where
  "rl_now (RLAllow key perMin now) = now"
| "rl_now (RLSweep now) = now"

fun rl_exec :: "rl_op \<Rightarrow> RateLimiter \<Rightarrow> bool \<times> RateLimiter" where
  "rl_exec (RLAllow key perMin now) l = Allow l key perMin now"
| "rl_exec (RLSweep now) l = (False, snd (Sweep_rl l now))"

text \<open>The calls on \<open>key\<close> that an execution allows.\<close>

fun rl_allowed :: "string \<Rightarrow> rl_op list \<Rightarrow> RateLimiter \<Rightarrow> nat" where
  "rl_allowed key [] l = 0"
| "rl_allowed key (op # ops) l =
     (case rl_exec op l of (ok, l') \<Rightarrow>
        (case op of RLAllow k _ _ \<Rightarrow> (if k = key \<and> ok then 1 else 0) | RLSweep _ \<Rightarrow> 0) +
        rl_allowed key ops l')"

fun rl_final :: "rl_op list \<Rightarrow> RateLimiter \<Rightarrow> RateLimiter" where
  "rl_final [] l = l"
| "rl_final (op # ops) l = rl_final ops (snd (rl_exec op l))"

text \<open>How many more calls on \<open>key\<close> can be allowed before time \<open>t + 60\<close>: what is left of the
  window that is open, and a whole one if that window started before \<open>t\<close>.\<close>

definition rl_budget :: "int \<Rightarrow> string \<Rightarrow> int \<Rightarrow> RateLimiter \<Rightarrow> int" where
  "rl_budget t key perMin l =
     (case mget (rl_window l) key of
        None \<Rightarrow> perMin
      | Some e \<Rightarrow> max 0 (perMin - rl_n e) + (if rl_start e < t then perMin else 0))"

text \<open>Stamps are readings of a clock before \<open>2 ^ 62\<close>, and \<open>m\<close> more increments do not overflow a counter.\<close>

definition rl_times :: "nat \<Rightarrow> RateLimiter \<Rightarrow> bool" where
  "rl_times m l \<longleftrightarrow> (\<forall>k e. mget (rl_window l) k = Some e \<longrightarrow>
     0 \<le> rl_start e \<and> rl_start e < 2 ^ 62 \<and> 1 \<le> rl_n e \<and> rl_n e + int m < 2 ^ 63)"

definition rl_op_ok :: "int \<Rightarrow> string \<Rightarrow> int \<Rightarrow> rl_op \<Rightarrow> bool" where
  "rl_op_ok t key perMin op \<longleftrightarrow> 0 \<le> t \<and> t \<le> rl_now op \<and> rl_now op < t + 60 \<and> rl_now op < 2 ^ 62 \<and>
     (case op of RLAllow k p now \<Rightarrow> k = key \<longrightarrow> p = perMin | RLSweep now \<Rightarrow> True)"

lemma rl_times_New: "rl_times m (NewRateLimiter n)"
  by (simp add: rl_times_def NewRateLimiter_def)

lemma rl_times_sweep: "rl_times m l \<Longrightarrow> rl_times m (snd (sweepLocked l now))"
  unfolding rl_times_def mget_sweepLocked by (auto split: option.splits if_splits)

lemma rl_times_put:
  "rl_times m l \<Longrightarrow> 0 \<le> rl_start e \<Longrightarrow> rl_start e < 2 ^ 62 \<Longrightarrow> 1 \<le> rl_n e \<Longrightarrow> rl_n e + int m < 2 ^ 63 \<Longrightarrow>
     rl_times m (l\<lparr>rl_window := mput (rl_window l) k e\<rparr>)"
  by (simp add: rl_times_def)

lemma rl_times_mono: "rl_times m l \<Longrightarrow> m' \<le> m \<Longrightarrow> rl_times m' l"
  by (fastforce simp: rl_times_def)

lemma rl_times_exec:
  assumes "rl_times (Suc m) l" and "rl_op_ok t key perMin op" and "int m < 2 ^ 62"
  shows "rl_times m (snd (rl_exec op l))"
proof -
  have m: "rl_times m l" using assms(1) rl_times_mono by simp
  show ?thesis
  proof (cases op)
    case (RLSweep now)
    then show ?thesis using m by (simp add: Sweep_rl_def rl_times_sweep)
  next
    case (RLAllow k p now)
    have now: "0 \<le> now" "now < 2 ^ 62" using assms(2) RLAllow by (auto simp: rl_op_ok_def)
    have fresh: "rl_times m (l'\<lparr>rl_window := mput (rl_window l') k \<lparr>rl_start = now, rl_n = 1\<rparr>\<rparr>)"
      if "rl_times m l'" for l'
      using that now assms(3) by (intro rl_times_put) auto
    show ?thesis
    proof (cases "\<exists>e. 0 < p \<and> mget (rl_window l) k = Some e \<and> i64 (now - rl_start e) < 60")
      case True
      then obtain e where e: "0 < p" "mget (rl_window l) k = Some e" "i64 (now - rl_start e) < 60" by blast
      have b: "0 \<le> rl_start e" "rl_start e < 2 ^ 62" "1 \<le> rl_n e" "rl_n e + int (Suc m) < 2 ^ 63"
        using assms(1) e(2) by (auto simp: rl_times_def)
      then have "i64 (rl_n e + 1) = rl_n e + 1" by (intro i64_add) auto
      then have "rl_times m (l\<lparr>rl_window := mput (rl_window l) k (e\<lparr>rl_n := i64 (rl_n e + 1)\<rparr>)\<rparr>)"
        using b m by (intro rl_times_put) auto
      then show ?thesis using e RLAllow by (simp add: Allow_def Let_def)
    next
      case False
      then show ?thesis
        using RLAllow m fresh [OF m] fresh [OF rl_times_sweep [OF m]] rl_times_sweep [OF m]
        by (auto simp: Allow_def Let_def split: option.splits)
    qed
  qed
qed

text \<open>Inside \<open>[t, t + 60)\<close> only windows that started before \<open>t\<close> are over.\<close>

lemma rl_window_over:
  assumes "rl_op_ok t key perMin op" and "rl_times m l" and "mget (rl_window l) k = Some e"
  shows "i64 (rl_now op - rl_start e) \<ge> 60 \<Longrightarrow> rl_start e < t"
proof -
  have "i64 (rl_now op - rl_start e) = rl_now op - rl_start e"
    using assms by (intro i64_diff) (fastforce simp: rl_op_ok_def rl_times_def)+
  then show "i64 (rl_now op - rl_start e) \<ge> 60 \<Longrightarrow> rl_start e < t"
    using assms(1) by (simp add: rl_op_ok_def)
qed

lemma rl_budget_step:
  assumes ok: "rl_op_ok t key perMin op" and times: "rl_times (Suc m) l" and pos: "0 < perMin"
  shows "(case op of RLAllow k _ _ \<Rightarrow> (if k = key \<and> fst (rl_exec op l) then 1 else 0) | RLSweep _ \<Rightarrow> 0) +
     rl_budget t key perMin (snd (rl_exec op l)) \<le> rl_budget t key perMin l"
proof (cases "mget (rl_window l) key")
  case None
  then show ?thesis
    using pos ok
    by (auto simp: rl_budget_def Allow_def Let_def Sweep_rl_def mget_sweepLocked rl_op_ok_def
        split: rl_op.splits option.splits)
next
  case (Some e)
  have n: "i64 (rl_n e + 1) = rl_n e + 1"
    using times Some by (intro i64_add) (fastforce simp: rl_times_def)+
  note over = rl_window_over [OF ok times Some]
  show ?thesis
  proof (cases op)
    case (RLSweep now)
    then show ?thesis using Some pos over
      by (auto simp: rl_budget_def Sweep_rl_def mget_sweepLocked)
  next
    case (RLAllow k p now)
    show ?thesis
    proof (cases "k = key")
      case True
      then have "p = perMin" "t \<le> now" using ok RLAllow by (auto simp: rl_op_ok_def)
      then show ?thesis using True RLAllow Some pos over n
        by (auto simp: rl_budget_def Allow_def Let_def)
    next
      case False
      then show ?thesis using Allow_other [of key k l p now] RLAllow Some pos over
        by (auto simp: rl_budget_def)
    qed
  qed
qed

lemma rl_allowed_budget:
  "list_all (rl_op_ok t key perMin) ops \<Longrightarrow> rl_times (length ops) l \<Longrightarrow> 0 < perMin \<Longrightarrow>
     length ops < 2 ^ 62 \<Longrightarrow> int (rl_allowed key ops l) \<le> rl_budget t key perMin l"
proof (induction ops arbitrary: l)
  case Nil
  then show ?case by (auto simp: rl_budget_def split: option.splits)
next
  case (Cons op ops)
  have "int (rl_allowed key ops (snd (rl_exec op l))) \<le> rl_budget t key perMin (snd (rl_exec op l))"
    using Cons.prems rl_times_exec [of "length ops" l t key perMin op] by (intro Cons.IH) auto
  then show ?case
    using rl_budget_step [of t key perMin op "length ops" l] Cons.prems
    by (auto simp: split: prod.splits rl_op.splits)
qed

lemma rl_budget_bound: "rl_times m l \<Longrightarrow> 0 < perMin \<Longrightarrow> rl_budget t key perMin l \<le> 2 * perMin"
  by (fastforce simp: rl_budget_def rl_times_def split: option.splits)

lemma rl_budget_New: "rl_budget t key perMin (NewRateLimiter n) = perMin"
  by (simp add: rl_budget_def NewRateLimiter_def)

text \<open>The two ways an attempt is refused: its window is used up, or it needs a new window and the
  table has no room even after the finished windows are gone.\<close>

lemma Allow_False_iff:
  "\<not> fst (Allow l key perMin now) \<longleftrightarrow> 0 < perMin \<and>
     (case mget (rl_window l) key of
        Some e \<Rightarrow> i64 (now - rl_start e) < 60 \<and> perMin < i64 (rl_n e + 1)
      | None \<Rightarrow> rl_max l \<le> int (mlen (rl_window (snd (sweepLocked l now)))))"
  using mlen_sweepLocked [of l now]
  by (auto simp: Allow_def Let_def split: option.splits)

section \<open>Buckets\<close>

lemma bar_not_addr: "CanonIP addr p6 p4 = Inr c \<Longrightarrow> CHR ''|'' \<notin> set c"
  by (drule ParseAddr_CanonIP)
    (auto dest!: addr_byte_AddrString [rotated 2] simp: not_Is4In6_mask addr_byte_def)

text \<open>Two clients share a bucket only on one scope and one block: an IPv4 address or a /64.\<close>

lemma RateKey_eq_iff:
  assumes "CanonIP ip 64 32 = Inr c" and "CanonIP ip' 64 32 = Inr c'"
  shows "RateKey scope ip = RateKey scope' ip' \<longleftrightarrow> scope = scope' \<and> c = c'"
  using split_last [of "CHR ''|''" c c' scope scope'] bar_not_addr [OF assms(1)] bar_not_addr [OF assms(2)] assms
  by (simp add: RateKey_def)

section \<open>Properties\<close>

text \<open>C32: inside any sixty seconds, whatever else the table does, at most twice the limit of
  calls on one key is allowed, and at most the limit when the table starts empty.\<close>

theorem rate_limit_bound:
  assumes "list_all (rl_op_ok t key perMin) ops" and "0 < perMin" and "length ops < 2 ^ 62"
    and "rl_times (length ops) l"
  shows "int (rl_allowed key ops l) \<le> 2 * perMin \<and> int (rl_allowed key ops (NewRateLimiter n)) \<le> perMin"
  using rl_allowed_budget [OF assms(1) assms(4,2,3)] rl_budget_bound [OF assms(4,2), of t key]
    rl_allowed_budget [OF assms(1) rl_times_New [of _ n] assms(2,3)] rl_budget_New [of t key perMin n]
  by simp

theorem rate_limit_bound_witness:
  "int (rl_allowed ''a'' [RLAllow ''a'' 1 10, RLAllow ''b'' 1 11, RLSweep 12, RLAllow ''a'' 1 20] (NewRateLimiter 5)) \<le> 1"
  by (rule rate_limit_bound [where l = "NewRateLimiter 5" and t = 10, THEN conjunct2])
    (simp_all add: rl_op_ok_def rl_times_New)

lemma rl_inv_final: "rl_inv l \<Longrightarrow> rl_inv (rl_final ops l) \<and> rl_max (rl_final ops l) = rl_max l"
proof (induction ops arbitrary: l)
  case (Cons op ops)
  then have "rl_inv (snd (rl_exec op l)) \<and> rl_max (snd (rl_exec op l)) = rl_max l"
    using rl_inv_Sweep [of l] by (cases op) (auto simp: rl_inv_Allow Sweep_rl_def)
  then show ?case using Cons.IH by simp
qed simp

text \<open>no sequence of calls makes the table larger than its bound.\<close>

theorem rate_table_bounded: "Len_rl (rl_final ops (NewRateLimiter n)) \<le> rl_max (NewRateLimiter n)"
  using rl_inv_final [OF rl_inv_New, of ops n] by (simp add: rl_inv_def Len_rl_def)

text \<open>two clients share a bucket exactly when they knock on one scope from one block (an
  IPv4 address, or an IPv6 /64).\<close>

theorem rate_buckets_separate:
  assumes "CanonIP ip 64 32 = Inr c" and "CanonIP ip' 64 32 = Inr c'"
  shows "RateKey scope ip = RateKey scope' ip' \<longleftrightarrow> scope = scope' \<and> c = c'"
  using assms by (rule RateKey_eq_iff)

theorem rate_buckets_separate_witness: "RateKey ''a|b'' ''192.0.2.1'' \<noteq> RateKey ''a'' ''192.0.2.77''"
proof -
  have "CanonIP ''192.0.2.1'' 64 32 = Inr ''192.0.2.1''" "CanonIP ''192.0.2.77'' 64 32 = Inr ''192.0.2.77''"
    by code_simp+
  from rate_buckets_separate [OF this, of "''a|b''" "''a''"] show ?thesis by simp
qed

end
