(* ===== verification/Server.thy ===== *)
theory Server
  imports RealIP NonceStore RateLimit
begin

text \<open>
  \<^verbatim>\<open>authorizer/server.go\<close>: the Authorizer's state, the protocol endpoints and the forward-auth
  endpoint. A handler is a function from the state and the request to the response and the new
  state. What a handler takes from outside comes in \<open>Env\<close>: the successive readings of the clock and
  reads of the random source within the request, \<^verbatim>\<open>url.Parse\<close>, and the JSON decoder behind
  \<^verbatim>\<open>http.MaxBytesReader\<close> (its limit and the request body give the decoded value or an error).
  The configuration, the registry and the stores are read and written in the order of the source.
\<close>

section \<open>State\<close>

definition JITMarker :: string where
  "JITMarker = ''challenge; v=1''"

definition GrantCookieName :: string where
  "GrantCookieName = ''__Host-jit-grant''"

record metrics =
  m_knockOK :: int
  m_knockFail :: int
  m_granted :: int
  m_denied :: int
  m_enrollOK :: int

text \<open>The routing table: what \<open>buildMuxLocked\<close> reads of the configuration it is built for.\<close>

record Mux =
  mux_prefix :: string
  mux_admin :: bool

record Server =
  sv_cfg :: Config
  sv_reg :: Registry
  sv_grants :: GrantStore
  sv_nonces :: NonceStore
  sv_codes :: EnrollStore
  sv_nonceKey :: bytes
  sv_rl :: RateLimiter
  sv_metrics :: metrics
  sv_mux :: "Mux option"

record respondBody =
  rb_V :: int
  rb_Kid :: string
  rb_Nonce :: string
  rb_Proof :: string

record enrollBody =
  eb_Code :: string

record Env =
  env_now :: "nat \<Rightarrow> int"
  env_draw :: "nat \<Rightarrow> draw"
  env_url :: url_parser
  env_respond :: "nat \<Rightarrow> string \<Rightarrow> respondBody option"
  env_enroll :: "nat \<Rightarrow> string \<Rightarrow> enrollBody option"

definition zero_metrics :: metrics where
  "zero_metrics = \<lparr>m_knockOK = 0, m_knockFail = 0, m_granted = 0, m_denied = 0, m_enrollOK = 0\<rparr>"

datatype server_error = BadRegistry b64_error | ServerRand rand_error | ListenChanged | AdminListenChanged

definition NewServer :: "Config \<Rightarrow> draw \<Rightarrow> server_error + Server" where
  "NewServer cfg d =
     (case Config_Registry cfg of
        Inl err \<Rightarrow> Inl (BadRegistry err)
      | Inr reg \<Rightarrow>
          (case RandomBytes 32 d of
             Inl err \<Rightarrow> Inl (ServerRand err)
           | Inr nk \<Rightarrow>
               Inr \<lparr>sv_cfg = cfg, sv_reg = reg, sv_grants = NewGrantStore, sv_nonces = NewNonceStore,
                    sv_codes = NewEnrollStore, sv_nonceKey = nk,
                    sv_rl = NewRateLimiter DefaultRateLimitEntries, sv_metrics = zero_metrics,
                    sv_mux = None\<rparr>))"

definition buildMuxLocked :: "Config \<Rightarrow> Mux" where
  "buildMuxLocked cfg = \<lparr>mux_prefix = cf_URIPrefix cfg, mux_admin = (cf_AdminListen cfg = [])\<rparr>"

definition Reload :: "Server \<Rightarrow> Config \<Rightarrow> server_error + Server" where
  "Reload s cfg =
     (case Config_Registry cfg of
        Inl err \<Rightarrow> Inl (BadRegistry err)
      | Inr reg \<Rightarrow>
          if cf_Listen cfg \<noteq> cf_Listen (sv_cfg s) then Inl ListenChanged
          else if cf_AdminListen cfg \<noteq> cf_AdminListen (sv_cfg s) then Inl AdminListenChanged
          else Inr (s\<lparr>sv_cfg := cfg, sv_reg := reg, sv_mux := Some (buildMuxLocked cfg)\<rparr>))"

section \<open>Request context\<close>

record reqCtx =
  rc_service :: string
  rc_ip :: string
  rc_uri :: string
  rc_svc :: ServiceConfig
  rc_known :: bool

definition zero_service :: ServiceConfig where
  "zero_service = \<lparr>sc_Tokens = [], sc_FailureMode = [], sc_Binding = [], sc_GrantTTL = 0\<rparr>"

definition resolve :: "Env \<Rightarrow> Server \<Rightarrow> Request \<Rightarrow> reqCtx option" where
  "resolve env s r =
     (let cfg = sv_cfg s in
      case fst (ClientIP cfg r) of
        Inl err \<Rightarrow> None
      | Inr ip \<Rightarrow>
          if ip = [] then None
          else
            (case resolveTarget (env_url env) cfg r of
               None \<Rightarrow> None
             | Some (service, uri) \<Rightarrow>
                 if service = [] then None
                 else Some
                   (case Service cfg service of
                      None \<Rightarrow> \<lparr>rc_service = service, rc_ip = ip, rc_uri = uri, rc_svc = zero_service, rc_known = False\<rparr>
                    | Some svc \<Rightarrow> \<lparr>rc_service = service, rc_ip = ip, rc_uri = uri, rc_svc = svc, rc_known = True\<rparr>)))"

section \<open>Denials\<close>

definition mode_of :: "Config \<Rightarrow> reqCtx option \<Rightarrow> string" where
  "mode_of cfg c =
     (case c of
        Some c \<Rightarrow> if rc_known c then failureMode (rc_svc c) else defaultFailureMode cfg
      | None \<Rightarrow> defaultFailureMode cfg)"

definition interstitial_response :: Response where
  "interstitial_response =
     \<lparr>rs_Status = 403,
      rs_Header = [(''Cache-Control'', ''no-store''), (''X-Jit-Access'', JITMarker),
                   (''Content-Type'', ''text/html; charset=utf-8'')],
      rs_Body = InterstitialHTML\<rparr>"

definition deny :: "Server \<Rightarrow> reqCtx option \<Rightarrow> Response" where
  "deny s c = (if mode_of (sv_cfg s) c = FailStealth then NotFound else interstitial_response)"

definition authzDeny :: "Server \<Rightarrow> reqCtx option \<Rightarrow> Response" where
  "authzDeny s c =
     (if mode_of (sv_cfg s) c = FailStealth then StatusOnly 403 [(''Cache-Control'', ''no-store'')]
      else interstitial_response)"

definition knockFail :: "Server \<Rightarrow> reqCtx option \<Rightarrow> Response \<times> Server" where
  "knockFail s c =
     (let s = s\<lparr>sv_metrics := (sv_metrics s)\<lparr>m_knockFail := i64 (m_knockFail (sv_metrics s) + 1)\<rparr>\<rparr>
      in (deny s c, s))"

section \<open>The knock endpoints\<close>

definition handleChallenge :: "Env \<Rightarrow> Server \<Rightarrow> Request \<Rightarrow> Response \<times> Server" where
  "handleChallenge env s r =
     (case resolve env s r of
        None \<Rightarrow> (deny s None, s)
      | Some c \<Rightarrow>
          if \<not> rc_known c then (deny s (Some c), s)
          else if rq_Method r \<noteq> ''GET'' then (deny s (Some c), s)
          else
            let cfg = sv_cfg s;
                (ok, rl) = Allow (sv_rl s) (RateKey (rc_service c) (rc_ip c)) (cf_RateLimit cfg) (env_now env 0);
                s = s\<lparr>sv_rl := rl\<rparr>
            in if \<not> ok then knockFail s (Some c)
               else
                 (case RandomBytes 16 (env_draw env 0) of
                    Inl err \<Rightarrow> (deny s (Some c), s)
                  | Inr rnd \<Rightarrow>
                      let ts = env_now env 1 in
                      (case IssueNonce (sv_nonceKey s) (word_of_int ts) rnd (rc_service c) (rc_ip c) (cf_IPv6Prefix cfg) of
                         Inl err \<Rightarrow> (deny s (Some c), s)
                       | Inr nonce \<Rightarrow>
                           (NoContent [(''X-Jit-Nonce'', B64u nonce), (''X-Jit-Ts'', FormatInt ts),
                                       (''Cache-Control'', ''no-store'')], s))))"

definition dummySecret :: bytes where
  "dummySecret = replicate 32 0"

text \<open>The knock after the body is decoded: nonce, policy, proof and single use. The result is the
  token the proof was made with and the time of the check, or the store unchanged but for the
  nonce.\<close>

definition verifyKnock ::
  "Env \<Rightarrow> Server \<Rightarrow> reqCtx \<Rightarrow> respondBody \<Rightarrow> Token option \<times> Server" where
  "verifyKnock env s c body =
     (case (B64uDecode (rb_Nonce body), B64uDecode (rb_Proof body)) of
        (Inr nonceRaw, Inr tag) \<Rightarrow>
          if length nonceRaw \<noteq> NonceLen \<or> length tag \<noteq> 32 then (None, s)
          else
            let cfg = sv_cfg s;
                now = env_now env 1;
                (okNonce, rnd) = VerifyNonce (sv_nonceKey s) nonceRaw (rc_service c) (rc_ip c) now
                                   (cf_NonceTTL cfg) (cf_IPv6Prefix cfg)
            in if \<not> okNonce then (None, s)
               else
                 let auth = Authorize (Some (sv_reg s)) (rb_Kid body) (rc_service c) now;
                     secret = (case auth of Inr t \<Rightarrow> tok_Secret t | Inl err \<Rightarrow> dummySecret);
                     proofOK = VerifyProof secret (rc_service c) (rb_Kid body) nonceRaw tag
                 in (case auth of
                       Inl err \<Rightarrow> (None, s)
                     | Inr token \<Rightarrow>
                         if \<not> proofOK then (None, s)
                         else
                           let (ok, nonces) = Claim (sv_nonces s) (B64u rnd) now (cf_NonceTTL cfg);
                               s = s\<lparr>sv_nonces := nonces\<rparr>
                           in if \<not> ok then (None, s) else (Some token, s))
      | _ \<Rightarrow> (None, s))"

text \<open>The grant a verified knock mints, with the cookie for a device-bound one.\<close>

definition mintGrant ::
  "Env \<Rightarrow> Server \<Rightarrow> reqCtx \<Rightarrow> string \<Rightarrow> Token \<Rightarrow> rand_error + (Grant \<times> (string \<times> string) list)" where
  "mintGrant env s c kid token =
     (let cfg = sv_cfg s;
          now = env_now env 1;
          ttl = grantTTL cfg (rc_svc c);
          g = \<lparr>g_V = 1, g_Kid = kid, g_Service = rc_service c, g_IP = rc_ip c,
               g_Binding = binding (rc_svc c), g_CookieHash = [], g_Issued = now,
               g_Exp = i64 (now + ttl), g_Manual = False, g_SecretFP = Fingerprint (Some token)\<rparr>
      in if g_Binding g = BindingIPCookie then
           (case RandomBytes 32 (env_draw env 0) of
              Inl err \<Rightarrow> Inl err
            | Inr idBytes \<Rightarrow>
                let cid = B64u idBytes
                in Inr (g\<lparr>g_CookieHash := CookieHash cid\<rparr>,
                        [(''Set-Cookie'', cookie_string GrantCookieName cid ttl)]))
         else Inr (g, []))"

definition oldCookieHash :: "Request \<Rightarrow> string" where
  "oldCookieHash r =
     (case Request_Cookie r GrantCookieName of
        Some v \<Rightarrow> if v \<noteq> [] then CookieHash v else []
      | None \<Rightarrow> [])"

definition handleRespond :: "Env \<Rightarrow> Server \<Rightarrow> Request \<Rightarrow> Response \<times> Server" where
  "handleRespond env s r =
     (case resolve env s r of
        None \<Rightarrow> (deny s None, s)
      | Some c \<Rightarrow>
          if \<not> rc_known c then (deny s (Some c), s)
          else if rq_Method r \<noteq> ''POST'' then (deny s (Some c), s)
          else
            let (ok, rl) = Allow (sv_rl s) (RateKey (rc_service c) (rc_ip c)) (cf_RateLimit (sv_cfg s)) (env_now env 0);
                s = s\<lparr>sv_rl := rl\<rparr>
            in if \<not> ok then knockFail s (Some c)
               else
                 (case env_respond env 4096 (rq_Body r) of
                    None \<Rightarrow> knockFail s (Some c)
                  | Some body \<Rightarrow>
                      (case verifyKnock env s c body of
                         (None, s) \<Rightarrow> knockFail s (Some c)
                       | (Some token, s) \<Rightarrow>
                           (case mintGrant env s c (rb_Kid body) token of
                              Inl err \<Rightarrow> knockFail s (Some c)
                            | Inr (g, cookie) \<Rightarrow>
                                let s = s\<lparr>sv_grants := Put (sv_grants s) (Some g) [oldCookieHash r]\<rparr>;
                                    s = s\<lparr>sv_metrics := (sv_metrics s)\<lparr>m_knockOK := i64 (m_knockOK (sv_metrics s) + 1)\<rparr>\<rparr>
                                in (NoContent (cookie @ [(''Cache-Control'', ''no-store'')]), s)))))"

section \<open>Enrollment\<close>

definition handleEnroll :: "Env \<Rightarrow> Server \<Rightarrow> Request \<Rightarrow> Response \<times> Server" where
  "handleEnroll env s r =
     (case resolve env s r of
        None \<Rightarrow> (deny s None, s)
      | Some c \<Rightarrow>
          if \<not> rc_known c then (deny s (Some c), s)
          else if rq_Method r \<noteq> ''POST'' then (deny s (Some c), s)
          else
            let (ok, rl) = Allow (sv_rl s) (RateKey (rc_service c) (rc_ip c)) (cf_RateLimit (sv_cfg s)) (env_now env 0);
                s = s\<lparr>sv_rl := rl\<rparr>
            in if \<not> ok then knockFail s (Some c)
               else
                 (case env_enroll env 4096 (rq_Body r) of
                    None \<Rightarrow> (deny s (Some c), s)
                  | Some body \<Rightarrow>
                      if eb_Code body = [] then (deny s (Some c), s)
                      else if (case Peek (sv_codes s) (eb_Code body) (env_now env 1) of
                                 None \<Rightarrow> True
                               | Some peek \<Rightarrow> Lookup (Some (sv_reg s)) (ec_Kid peek) = None)
                      then knockFail s (Some c)
                      else
                        let (code, codes) = Consume (sv_codes s) (eb_Code body) (env_now env 2);
                            s = s\<lparr>sv_codes := codes\<rparr>
                        in (case code of
                              None \<Rightarrow> knockFail s (Some c)
                            | Some code \<Rightarrow>
                                (case Lookup (Some (sv_reg s)) (ec_Kid code) of
                                   None \<Rightarrow> (deny s (Some c), s)
                                 | Some token \<Rightarrow>
                                     (NoContent [(''X-Jit-Kid'', ec_Kid code), (''X-Jit-Secret'', B64u (tok_Secret token)),
                                                 (''X-Jit-Origins'', Join (ec_Origins code) '',''),
                                                 (''Cache-Control'', ''no-store'')],
                                      s\<lparr>sv_metrics := (sv_metrics s)\<lparr>m_enrollOK := i64 (m_enrollOK (sv_metrics s) + 1)\<rparr>\<rparr>)))))"

definition handleRegister :: "Env \<Rightarrow> Server \<Rightarrow> Request \<Rightarrow> Response \<times> Server" where
  "handleRegister env s r =
     (case resolve env s r of
        None \<Rightarrow> (deny s None, s)
      | Some c \<Rightarrow>
          if \<not> rc_known c then (deny s (Some c), s)
          else if rq_Method r \<noteq> ''GET'' \<or> failureMode (rc_svc c) = FailStealth then (deny s (Some c), s)
          else
            (\<lparr>rs_Status = 200,
              rs_Header = [(''Content-Type'', ''text/html; charset=utf-8''), (''Cache-Control'', ''no-store''),
                           (''Referrer-Policy'', ''no-referrer'')],
              rs_Body = RegisterHTML\<rparr>, s))"

section \<open>Forward-auth\<close>

definition isProtocolURI :: "string \<Rightarrow> string \<Rightarrow> bool" where
  "isProtocolURI p uri \<longleftrightarrow>
     uri = p @ ''/challenge'' \<or> uri = p @ ''/respond'' \<or> uri = p @ ''/enroll'' \<or> uri = p @ ''/register''"

definition denied :: "Server \<Rightarrow> Server" where
  "denied s = s\<lparr>sv_metrics := (sv_metrics s)\<lparr>m_denied := i64 (m_denied (sv_metrics s) + 1)\<rparr>\<rparr>"

definition grant_cookie :: "Request \<Rightarrow> string" where
  "grant_cookie r = (case Request_Cookie r GrantCookieName of Some v \<Rightarrow> v | None \<Rightarrow> [])"

definition handleAuthz :: "Env \<Rightarrow> Server \<Rightarrow> Request \<Rightarrow> Response \<times> Server" where
  "handleAuthz env s r =
     (if (case peerAddr r of None \<Rightarrow> True | Some peer \<Rightarrow> \<not> isTrusted (sv_cfg s) peer)
      then (text_error ''forbidden'' 403, s)
      else
        (case resolve env s r of
           None \<Rightarrow> (authzDeny s None, s)
         | Some c \<Rightarrow>
             let cfg = sv_cfg s in
             if isProtocolURI (cf_URIPrefix cfg) (rc_uri c) then (NoContent [], s)
             else if \<not> rc_known c then (authzDeny s (Some c), s)
             else
               (case IsAllowed (sv_grants s) (rc_service c) (rc_ip c) (Some (sv_reg s)) (env_now env 0) (grant_cookie r) of
                  Some g \<Rightarrow>
                    if binding (rc_svc c) = BindingIPCookie \<and> g_Binding g \<noteq> BindingIPCookie
                    then (authzDeny s (Some c), denied s)
                    else (NoContent [(''X-Jit-Kid'', g_Kid g)],
                          s\<lparr>sv_metrics := (sv_metrics s)\<lparr>m_granted := i64 (m_granted (sv_metrics s) + 1)\<rparr>\<rparr>)
                | None \<Rightarrow> (authzDeny s (Some c), denied s))))"

section \<open>The sweeper\<close>

definition sweepAll :: "Server \<Rightarrow> int \<Rightarrow> Server" where
  "sweepAll s now =
     (let s = s\<lparr>sv_grants := snd (Sweep (sv_grants s) now)\<rparr>;
          s = s\<lparr>sv_nonces := snd (Sweep_ns (sv_nonces s) now)\<rparr>;
          s = s\<lparr>sv_codes := snd (Sweep_es (sv_codes s) now)\<rparr>
      in s\<lparr>sv_rl := snd (Sweep_rl (sv_rl s) now)\<rparr>)"

end
