(* ===== verification/Admin.thy ===== *)
theory Admin
  imports Server
begin

text \<open>
  \<^verbatim>\<open>authorizer/admin.go\<close>, the admin API, and the routing of both listeners (\<open>Handler\<close>, \<open>AdminHandler\<close>
  and the table of \<open>buildMuxLocked\<close> in \<^verbatim>\<open>authorizer/server.go\<close>), with the signal handler of
  \<^verbatim>\<open>authorizer/main.go\<close> that reloads the configuration. \<open>AdminEnv\<close> adds the JSON decoders of the admin
  bodies to what a request takes from outside.
\<close>

section \<open>Bodies\<close>

record grantBody =
  gb_Service :: string
  gb_IP :: string
  gb_TTL :: int
  gb_Kid :: string

record revokeBody =
  vb_Service :: string
  vb_IP :: string

record revokeTokenBody =
  vt_Kid :: string

text \<open>\<^verbatim>\<open>Origins\<close> may be the nil slice.\<close>

record enrollCodeBody =
  cb_Kid :: string
  cb_Origins :: "string list option"
  cb_Server :: string
  cb_TTL :: int

record AdminEnv = Env +
  env_grant :: "nat \<Rightarrow> string \<Rightarrow> grantBody option"
  env_revoke :: "nat \<Rightarrow> string \<Rightarrow> revokeBody option"
  env_revokeToken :: "nat \<Rightarrow> string \<Rightarrow> revokeTokenBody option"
  env_enrollCode :: "nat \<Rightarrow> string \<Rightarrow> enrollCodeBody option"

section \<open>Responses\<close>

definition writeJSON :: "int \<Rightarrow> json \<Rightarrow> Response" where
  "writeJSON code v =
     \<lparr>rs_Status = code, rs_Header = [(''Content-Type'', ''application/json'')], rs_Body = JSONBody v\<rparr>"

definition json_error :: "string \<Rightarrow> json" where
  "json_error msg = JObject [(''error'', JString msg)]"

definition decodeJSON :: "(nat \<Rightarrow> string \<Rightarrow> 'b option) \<Rightarrow> Request \<Rightarrow> Response + 'b" where
  "decodeJSON decode r =
     (if rq_Method r \<noteq> ''POST'' then Inl (text_error ''POST required'' 405)
      else (case decode 65536 (rq_Body r) of
              None \<Rightarrow> Inl (writeJSON 400 (json_error ''bad json''))
            | Some v \<Rightarrow> Inr v))"

definition grant_json :: "Grant \<Rightarrow> json" where
  "grant_json g =
     JObject ([(''v'', JInt (g_V g)), (''kid'', JString (g_Kid g)), (''service'', JString (g_Service g)),
               (''ip'', JString (g_IP g)), (''binding'', JString (g_Binding g))] @
              (if g_CookieHash g \<noteq> [] then [(''cookie_hash'', JString (g_CookieHash g))] else []) @
              [(''issued'', JInt (g_Issued g)), (''exp'', JInt (g_Exp g))] @
              (if g_Manual g then [(''manual'', JBool True)] else []))"

definition snapshot :: "metrics \<Rightarrow> json" where
  "snapshot m =
     JObject [(''jit_denied'', JInt (m_denied m)), (''jit_enroll_ok'', JInt (m_enrollOK m)),
              (''jit_granted'', JInt (m_granted m)), (''jit_knock_fail'', JInt (m_knockFail m)),
              (''jit_knock_ok'', JInt (m_knockOK m))]"

section \<open>Operations\<close>

definition adminGrants :: "AdminEnv \<Rightarrow> Server \<Rightarrow> Request \<Rightarrow> Response \<times> Server" where
  "adminGrants env s r =
     (let list = List (sv_grants s) (env_now env 0)
      in (writeJSON 200 (JObject [(''count'', JInt (int (length list))), (''grants'', JArray (map grant_json list))]), s))"

text \<open>The record of an admin grant; without a kid it is a break-glass grant.\<close>

definition adminGrantRecord :: "AdminEnv \<Rightarrow> Server \<Rightarrow> grantBody \<Rightarrow> string \<Rightarrow> string \<Rightarrow> Grant" where
  "adminGrantRecord env s body service ip =
     (let ttl = (if gb_TTL body \<le> 0 then cf_GrantTTL (sv_cfg s) else gb_TTL body);
          kid = (if gb_Kid body = [] then ''__manual__'' else gb_Kid body);
          manual = (gb_Kid body = []);
          now = env_now env 0
      in \<lparr>g_V = 1, g_Kid = kid, g_Service = service, g_IP = ip, g_Binding = BindingIP,
          g_CookieHash = [], g_Issued = now, g_Exp = i64 (now + ttl), g_Manual = manual,
          g_SecretFP = Fingerprint (Lookup (Some (sv_reg s)) kid)\<rparr>)"

definition adminGrant :: "AdminEnv \<Rightarrow> Server \<Rightarrow> Request \<Rightarrow> Response \<times> Server" where
  "adminGrant env s r =
     (case decodeJSON (env_grant env) r of
        Inl resp \<Rightarrow> (resp, s)
      | Inr body \<Rightarrow>
          let cfg = sv_cfg s;
              service = CanonServerName (gb_Service body)
          in case CanonIP (gb_IP body) (cf_IPv6Prefix cfg) 32 of
               Inl err \<Rightarrow> (writeJSON 400 (json_error ''service and valid ip required''), s)
             | Inr ip \<Rightarrow>
                 if service = [] then (writeJSON 400 (json_error ''service and valid ip required''), s)
                 else
                   let g = adminGrantRecord env s body service ip
                   in (writeJSON 200 (JObject [(''exp'', JInt (g_Exp g)), (''granted'', JBool True),
                                              (''ip'', JString ip), (''service'', JString service)]),
                       s\<lparr>sv_grants := Put (sv_grants s) (Some g) []\<rparr>))"

definition adminRevoke :: "AdminEnv \<Rightarrow> Server \<Rightarrow> Request \<Rightarrow> Response \<times> Server" where
  "adminRevoke env s r =
     (case decodeJSON (env_revoke env) r of
        Inl resp \<Rightarrow> (resp, s)
      | Inr body \<Rightarrow>
          let service = CanonServerName (vb_Service body)
          in case CanonIP (vb_IP body) (cf_IPv6Prefix (sv_cfg s)) 32 of
               Inl err \<Rightarrow> (writeJSON 400 (json_error ''service and valid ip required''), s)
             | Inr ip \<Rightarrow>
                 if service = [] then (writeJSON 400 (json_error ''service and valid ip required''), s)
                 else
                   let (removed, grants) = Revoke (sv_grants s) service ip
                   in (writeJSON 200 (JObject [(''revoked'', JBool removed)]), s\<lparr>sv_grants := grants\<rparr>))"

definition adminRevokeToken :: "AdminEnv \<Rightarrow> Server \<Rightarrow> Request \<Rightarrow> Response \<times> Server" where
  "adminRevokeToken env s r =
     (case decodeJSON (env_revokeToken env) r of
        Inl resp \<Rightarrow> (resp, s)
      | Inr body \<Rightarrow>
          if vt_Kid body = [] then (writeJSON 400 (json_error ''kid required''), s)
          else
            let (n, grants) = RevokeToken (sv_grants s) (vt_Kid body)
            in (writeJSON 200 (JObject [(''grants_removed'', JInt n), (''revoked_token'', JString (vt_Kid body))]),
                s\<lparr>sv_grants := grants\<rparr>))"

definition adminEnrollCode :: "AdminEnv \<Rightarrow> Server \<Rightarrow> Request \<Rightarrow> Response \<times> Server" where
  "adminEnrollCode env s r =
     (case decodeJSON (env_enrollCode env) r of
        Inl resp \<Rightarrow> (resp, s)
      | Inr body \<Rightarrow>
          if Lookup (Some (sv_reg s)) (cb_Kid body) = None
          then (writeJSON 400 (json_error ''known kid required''), s)
          else
            let cfg = sv_cfg s;
                ttl = (if cb_TTL body \<le> 0 then cf_EnrollTTL cfg else cb_TTL body);
                ttl = (if ttl < 300 then 300 else ttl);
                ttl = (if ttl > 604800 then 604800 else ttl)
            in case RandomBytes 12 (env_draw env 0) of
                 Inl err \<Rightarrow> (writeJSON 500 (json_error ''rng''), s)
               | Inr rnd \<Rightarrow>
                   let code = B64u rnd;
                       origins = (case cb_Origins body of None \<Rightarrow> [] | Some os \<Rightarrow> os);
                       s = s\<lparr>sv_codes := Put_es (sv_codes s) code
                             \<lparr>ec_Kid = cb_Kid body, ec_Origins = origins, ec_Exp = i64 (env_now env 0 + ttl)\<rparr>\<rparr>;
                       register =
                         (if HasPrefix (cb_Server body) ''https://'' then
                            [(''register_url'', JString (TrimRight (cb_Server body) ''/'' @ cf_URIPrefix cfg @
                               ''/register?code='' @ code @
                               (if origins \<noteq> [] then ''&origins='' @ Join origins '','' else [])))]
                          else [])
                   in (writeJSON 200 (JObject ([(''code'', JString code), (''kid'', JString (cb_Kid body)),
                         (''origins'', case cb_Origins body of None \<Rightarrow> JNull | Some os \<Rightarrow> JArray (map JString os))] @
                         register @ [(''ttl'', JInt ttl)])), s))"

definition handleAdmin :: "AdminEnv \<Rightarrow> Server \<Rightarrow> Request \<Rightarrow> Response \<times> Server" where
  "handleAdmin env s r =
     (let cfg = sv_cfg s in
      if (case peerAddr r of None \<Rightarrow> True | Some peer \<Rightarrow> \<not> isTrusted cfg peer)
      then (text_error ''forbidden'' 403, s)
      else if cf_AdminToken cfg = []
      then (text_error ''admin API disabled (no admin_token configured)'' 403, s)
      else if TrimPrefix (Header_Get r ''Authorization'') ''Bearer '' \<noteq> cf_AdminToken cfg
      then (text_error ''unauthorized'' 401, s)
      else if rq_Path r = ''/admin/grants'' then adminGrants env s r
      else if rq_Path r = ''/admin/grant'' then adminGrant env s r
      else if rq_Path r = ''/admin/revoke'' then adminRevoke env s r
      else if rq_Path r = ''/admin/revoke-token'' then adminRevokeToken env s r
      else if rq_Path r = ''/admin/enroll-code'' then adminEnrollCode env s r
      else if rq_Path r = ''/admin/metrics'' then (writeJSON 200 (snapshot (sv_metrics s)), s)
      else (NotFound, s))"

section \<open>Routing\<close>

text \<open>How \<^verbatim>\<open>http.ServeMux\<close> routes over the patterns of \<open>buildMuxLocked\<close>: the exact paths, the subtree
  \<^verbatim>\<open>/admin/\<close>, the redirect to it from \<^verbatim>\<open>/admin\<close>, and \<^verbatim>\<open>/\<close> for the rest. The prefix is taken literally
  (the pattern syntax gives braces and blanks a meaning; no prefix of this program has them).\<close>

datatype route = RChallenge | RRespond | REnroll | RRegister | RAuthz | RHealthz | RAdmin | RAdminSlash | RNotFound

definition mux_route :: "Mux \<Rightarrow> string \<Rightarrow> route" where
  "mux_route mux escaped =
     (let segs = mux_segments escaped in
      if segs = mux_segments (mux_prefix mux @ ''/challenge'') then RChallenge
      else if segs = mux_segments (mux_prefix mux @ ''/respond'') then RRespond
      else if segs = mux_segments (mux_prefix mux @ ''/enroll'') then REnroll
      else if segs = mux_segments (mux_prefix mux @ ''/register'') then RRegister
      else if segs = mux_segments ''/authz'' then RAuthz
      else if segs = mux_segments ''/healthz'' then RHealthz
      else if mux_admin mux \<and> take 2 segs = [[], ''admin''] then
        (if length segs > 2 then RAdmin else RAdminSlash)
      else RNotFound)"

definition serve_route :: "AdminEnv \<Rightarrow> route \<Rightarrow> Server \<Rightarrow> Request \<Rightarrow> Response \<times> Server" where
  "serve_route env rt s r =
     (case rt of
        RChallenge \<Rightarrow> handleChallenge (Env.truncate env) s r
      | RRespond \<Rightarrow> handleRespond (Env.truncate env) s r
      | REnroll \<Rightarrow> handleEnroll (Env.truncate env) s r
      | RRegister \<Rightarrow> handleRegister (Env.truncate env) s r
      | RAuthz \<Rightarrow> handleAuthz (Env.truncate env) s r
      | RHealthz \<Rightarrow> (NoContent [], s)
      | RAdmin \<Rightarrow> handleAdmin env s r
      | RAdminSlash \<Rightarrow> (Redirect r (mux_clean (rq_Path r) @ ''/''), s)
      | RNotFound \<Rightarrow> (NotFound, s))"

text \<open>\<open>Handler\<close> builds the table if there is none; the handler it returns dispatches through the
  table of the moment. A missing table is a nil dereference, \<^const>\<open>None\<close>.\<close>

definition Handler :: "Server \<Rightarrow> Server" where
  "Handler s = (if sv_mux s = None then s\<lparr>sv_mux := Some (buildMuxLocked (sv_cfg s))\<rparr> else s)"

text \<open>\<^verbatim>\<open>ServeMux.ServeHTTP\<close> (for methods other than \<^verbatim>\<open>CONNECT\<close>): the route of the cleaned path, the redirect
  to the subtree first, then the redirect to the cleaned path.\<close>

definition mux_serve :: "AdminEnv \<Rightarrow> (string \<Rightarrow> route) \<Rightarrow> Server \<Rightarrow> Request \<Rightarrow> Response \<times> Server" where
  "mux_serve env router s r =
     (let escaped = rq_EscapedPath r;
          path = mux_clean escaped;
          rt = router path
      in if rt \<noteq> RAdminSlash \<and> path \<noteq> escaped then (Redirect r path, s)
         else serve_route env rt s r)"

definition serve :: "AdminEnv \<Rightarrow> Server \<Rightarrow> Request \<Rightarrow> (Response \<times> Server) option" where
  "serve env s r =
     (if muxWouldRedirect (rq_Path r) then Some (NotFound, s)
      else (case sv_mux s of
              None \<Rightarrow> None
            | Some mux \<Rightarrow> Some (mux_serve env (mux_route mux) s r)))"

text \<open>The separate admin listener; it exists only where \<^verbatim>\<open>admin_listen\<close> is configured.\<close>

definition admin_route :: "string \<Rightarrow> route" where
  "admin_route escaped =
     (let segs = mux_segments escaped in
      if segs = mux_segments ''/healthz'' then RHealthz
      else if take 2 segs = [[], ''admin''] then (if length segs > 2 then RAdmin else RAdminSlash)
      else RNotFound)"

definition AdminHandler :: "Server \<Rightarrow> (AdminEnv \<Rightarrow> Server \<Rightarrow> Request \<Rightarrow> Response \<times> Server) option" where
  "AdminHandler s = (if cf_AdminListen (sv_cfg s) = [] then None else Some (\<lambda>env. mux_serve env admin_route))"

section \<open>Reloading on a signal\<close>

text \<open>The \<^verbatim>\<open>SIGHUP\<close> case of \<^verbatim>\<open>main\<close>: the configuration file is read again, the command-line listen
  address is applied to it, and a failure keeps the previous configuration.\<close>

definition sighup :: "string \<Rightarrow> 'e + Config \<Rightarrow> Server \<Rightarrow> Server" where
  "sighup listenOv loaded s =
     (case loaded of
        Inl err \<Rightarrow> s
      | Inr nc \<Rightarrow>
          let nc = (if listenOv \<noteq> [] then nc\<lparr>cf_Listen := listenOv\<rparr> else nc)
          in case Reload s nc of Inl err \<Rightarrow> s | Inr s' \<Rightarrow> s')"

end
