(* ===== verification/ServerProps.thy ===== *)
theory ServerProps
  imports Admin
begin

text \<open>
  What the handlers do. For each endpoint the outcomes are listed once (\<open>handleRespond_cases\<close> and
  the like): either the uniform denial with the stores it leaves alone, or the one success, with
  everything that was verified. The invariant of the server and the properties of whole runs
  rest on these lists.
\<close>

section \<open>Denials\<close>

lemma deny_rl [simp]: "deny (s\<lparr>sv_rl := x\<rparr>) c = deny s c"
  and deny_nonces [simp]: "deny (s\<lparr>sv_nonces := y\<rparr>) c = deny s c"
  and deny_metrics [simp]: "deny (s\<lparr>sv_metrics := m\<rparr>) c = deny s c"
  and deny_codes [simp]: "deny (s\<lparr>sv_codes := e\<rparr>) c = deny s c"
  by (simp_all add: deny_def)

text \<open>The fields a denied request may change.\<close>

definition only_counters :: "Server \<Rightarrow> Server \<Rightarrow> bool" where
  "only_counters s s' \<longleftrightarrow>
     s' = s\<lparr>sv_rl := sv_rl s', sv_metrics := sv_metrics s'\<rparr> \<and> (rl_inv (sv_rl s) \<longrightarrow> rl_inv (sv_rl s'))"

lemma only_counters_refl [simp]: "only_counters s s"
  by (simp add: only_counters_def)

lemma only_counters_metrics: "only_counters s s' \<Longrightarrow> only_counters s (s'\<lparr>sv_metrics := m\<rparr>)"
  by (cases s; cases s') (simp add: only_counters_def)

lemma only_counters_fields:
  assumes "only_counters s s'"
  shows "sv_cfg s' = sv_cfg s" "sv_reg s' = sv_reg s" "sv_grants s' = sv_grants s" "sv_nonces s' = sv_nonces s"
    "sv_codes s' = sv_codes s" "sv_nonceKey s' = sv_nonceKey s" "sv_mux s' = sv_mux s"
    "rl_inv (sv_rl s) \<Longrightarrow> rl_inv (sv_rl s')"
  using assms by (cases s; cases s'; simp add: only_counters_def)+

lemma only_counters_Allow:
  "only_counters s (s\<lparr>sv_rl := snd (Allow (sv_rl s) key n now)\<rparr>)"
  by (simp add: only_counters_def rl_inv_Allow)

lemma knockFail_eq: "knockFail s c = (deny s c, s\<lparr>sv_metrics := (sv_metrics s)\<lparr>m_knockFail := i64 (m_knockFail (sv_metrics s) + 1)\<rparr>\<rparr>)"
  by (simp add: knockFail_def Let_def)

section \<open>Challenge\<close>

text \<open>A challenge is the uniform denial or a nonce, and changes nothing but counters.\<close>

lemma handleChallenge_cases:
  assumes "handleChallenge env s r = (resp, s')"
  shows "only_counters s s' \<and>
    ((resp = deny s (resolve env s r)) \<or>
     (\<exists>c rnd nonce. resolve env s r = Some c \<and> rc_known c \<and> rq_Method r = ''GET'' \<and> length rnd = 16 \<and>
        IssueNonce (sv_nonceKey s) (word_of_int (env_now env 1)) rnd (rc_service c) (rc_ip c) (cf_IPv6Prefix (sv_cfg s)) = Inr nonce \<and>
        resp = NoContent [(''X-Jit-Nonce'', B64u nonce), (''X-Jit-Ts'', FormatInt (env_now env 1)),
                          (''Cache-Control'', ''no-store'')]))"
proof (cases "resolve env s r")
  case None
  then show ?thesis using assms by (auto simp: handleChallenge_def)
next
  case (Some c)
  let ?A = "Allow (sv_rl s) (RateKey (rc_service c) (rc_ip c)) (cf_RateLimit (sv_cfg s)) (env_now env 0)"
  let ?s = "s\<lparr>sv_rl := snd ?A\<rparr>"
  have counters: "only_counters s ?s" "\<And>m. only_counters s (?s\<lparr>sv_metrics := m\<rparr>)"
    by (simp_all add: only_counters_Allow only_counters_metrics)
  show ?thesis
  proof (cases "rc_known c \<and> rq_Method r = ''GET'' \<and> fst ?A")
    case True
    then show ?thesis
      using assms Some counters length_RandomBytes [of 16 "env_draw env 0"]
      by (cases ?A; cases "RandomBytes 16 (env_draw env 0)")
        (auto simp: handleChallenge_def Let_def split: sum.splits)
  next
    case False
    then show ?thesis
      using assms Some counters
      by (cases ?A) (auto simp: handleChallenge_def Let_def knockFail_eq split: if_splits)
  qed
qed

section \<open>The knock\<close>

definition knock_verified :: "Env \<Rightarrow> Server \<Rightarrow> reqCtx \<Rightarrow> respondBody \<Rightarrow> bytes \<Rightarrow> bytes \<Rightarrow> Token \<Rightarrow> bool" where
  "knock_verified env s c body nonce rnd t \<longleftrightarrow>
     B64uDecode (rb_Nonce body) = Inr nonce \<and>
     VerifyNonce (sv_nonceKey s) nonce (rc_service c) (rc_ip c) (env_now env 1) (cf_NonceTTL (sv_cfg s))
       (cf_IPv6Prefix (sv_cfg s)) = (True, rnd) \<and>
     permits (Some (sv_reg s)) (rb_Kid body) (rc_service c) (env_now env 1) t \<and>
     (\<exists>tag. B64uDecode (rb_Proof body) = Inr tag \<and>
        VerifyProof (tok_Secret t) (rc_service c) (rb_Kid body) nonce tag) \<and>
     fst (Claim (sv_nonces s) (B64u rnd) (env_now env 1) (cf_NonceTTL (sv_cfg s)))"

lemma VerifyNonce_length: "VerifyNonce key nonce sn ip now ttl p6 = (True, rnd) \<Longrightarrow> length nonce = NonceLen"
  by (auto simp: VerifyNonce_def split: if_splits)

lemma VerifyProof_length: "VerifyProof secret sn kid nonce tag \<Longrightarrow> length tag = 32"
  by (auto simp: VerifyProof_def BuildProof_def)

text \<open>The knock succeeds exactly when everything is verified; it then burns the nonce.\<close>

lemma verifyKnock_Some_iff:
  "verifyKnock env s c body = (Some t, s') \<longleftrightarrow>
     (\<exists>nonce rnd. knock_verified env s c body nonce rnd t \<and>
        s' = s\<lparr>sv_nonces := snd (Claim (sv_nonces s) (B64u rnd) (env_now env 1) (cf_NonceTTL (sv_cfg s)))\<rparr>)"
  (is "?L \<longleftrightarrow> ?R")
proof
  assume ?L
  then obtain nonce tag where dec: "B64uDecode (rb_Nonce body) = Inr nonce" "B64uDecode (rb_Proof body) = Inr tag"
    by (auto simp: verifyKnock_def split: sum.splits prod.splits)
  obtain ok rnd where v: "VerifyNonce (sv_nonceKey s) nonce (rc_service c) (rc_ip c) (env_now env 1) (cf_NonceTTL (sv_cfg s))
       (cf_IPv6Prefix (sv_cfg s)) = (ok, rnd)" by fastforce
  obtain t' where a: "Authorize (Some (sv_reg s)) (rb_Kid body) (rc_service c) (env_now env 1) = Inr t'"
    using \<open>?L\<close> dec v
    by (cases "Authorize (Some (sv_reg s)) (rb_Kid body) (rc_service c) (env_now env 1)")
      (auto simp: verifyKnock_def Let_def split: if_splits)
  have "permits (Some (sv_reg s)) (rb_Kid body) (rc_service c) (env_now env 1) t'"
    using a by (simp only: Authorize_Inr_iff)
  then show ?R
    using \<open>?L\<close> dec v a
    by (cases "Claim (sv_nonces s) (B64u rnd) (env_now env 1) (cf_NonceTTL (sv_cfg s))")
      (auto simp: verifyKnock_def knock_verified_def Let_def split: if_splits)
next
  assume ?R
  then obtain nonce rnd where k: "knock_verified env s c body nonce rnd t"
    and s': "s' = s\<lparr>sv_nonces := snd (Claim (sv_nonces s) (B64u rnd) (env_now env 1) (cf_NonceTTL (sv_cfg s)))\<rparr>" by blast
  then have "Authorize (Some (sv_reg s)) (rb_Kid body) (rc_service c) (env_now env 1) = Inr t"
    by (simp add: knock_verified_def Authorize_Inr_iff)
  with k s' show ?L
    by (cases "Claim (sv_nonces s) (B64u rnd) (env_now env 1) (cf_NonceTTL (sv_cfg s))")
      (auto simp: verifyKnock_def knock_verified_def Let_def VerifyNonce_length VerifyProof_length)
qed

text \<open>A failed knock leaves everything but possibly the spent nonces: those change only when the
  proof was good and the nonce had been spent before, and then not at all.\<close>

lemma verifyKnock_None: "verifyKnock env s c body = (None, s') \<Longrightarrow> s' = s"
proof -
  assume *: "verifyKnock env s c body = (None, s')"
  have replay: "snd (Claim n x now ttl) = n" if "\<not> fst (Claim n x now ttl)" for n x now ttl
    using that by (auto simp: Claim_def split: if_splits)
  show "s' = s"
  proof (cases "B64uDecode (rb_Nonce body)"; cases "B64uDecode (rb_Proof body)")
    fix nonce tag
    assume dec: "B64uDecode (rb_Nonce body) = Inr nonce" "B64uDecode (rb_Proof body) = Inr tag"
    obtain ok rnd where v: "VerifyNonce (sv_nonceKey s) nonce (rc_service c) (rc_ip c) (env_now env 1) (cf_NonceTTL (sv_cfg s))
       (cf_IPv6Prefix (sv_cfg s)) = (ok, rnd)" by fastforce
    note cl = replay [of "sv_nonces s" "B64u rnd" "env_now env 1" "cf_NonceTTL (sv_cfg s)"]
    show ?thesis
      using * dec v cl
      by (cases "Claim (sv_nonces s) (B64u rnd) (env_now env 1) (cf_NonceTTL (sv_cfg s))";
          cases "Authorize (Some (sv_reg s)) (rb_Kid body) (rc_service c) (env_now env 1)")
        (auto simp: verifyKnock_def Let_def split: if_splits)
  qed (use * in \<open>simp_all add: verifyKnock_def\<close>)
qed

text \<open>The state in which the knock is verified: the rate limiter has counted it.\<close>

definition counted :: "Env \<Rightarrow> Server \<Rightarrow> reqCtx \<Rightarrow> Server" where
  "counted env s c = s\<lparr>sv_rl := snd (Allow (sv_rl s) (RateKey (rc_service c) (rc_ip c)) (cf_RateLimit (sv_cfg s)) (env_now env 0))\<rparr>"

definition rate_ok :: "Env \<Rightarrow> Server \<Rightarrow> reqCtx \<Rightarrow> bool" where
  "rate_ok env s c \<longleftrightarrow> fst (Allow (sv_rl s) (RateKey (rc_service c) (rc_ip c)) (cf_RateLimit (sv_cfg s)) (env_now env 0))"

definition spend :: "Env \<Rightarrow> bytes \<Rightarrow> Server \<Rightarrow> Server" where
  "spend env rnd s = s\<lparr>sv_nonces := snd (Claim (sv_nonces s) (B64u rnd) (env_now env 1) (cf_NonceTTL (sv_cfg s)))\<rparr>"

definition put_grant :: "Request \<Rightarrow> Grant \<Rightarrow> Server \<Rightarrow> Server" where
  "put_grant r g s =
     s\<lparr>sv_grants := Put (sv_grants s) (Some g) [oldCookieHash r],
       sv_metrics := (sv_metrics s)\<lparr>m_knockOK := i64 (m_knockOK (sv_metrics s) + 1)\<rparr>\<rparr>"

text \<open>A request to \<open>handleRespond\<close> that mints the grant \<open>g\<close>.\<close>

definition knock_mints ::
  "Env \<Rightarrow> Server \<Rightarrow> Request \<Rightarrow> reqCtx \<Rightarrow> respondBody \<Rightarrow> bytes \<Rightarrow> bytes \<Rightarrow> Token \<Rightarrow> Grant \<Rightarrow> (string \<times> string) list \<Rightarrow> bool" where
  "knock_mints env s r c body nonce rnd t g cookie \<longleftrightarrow>
     resolve env s r = Some c \<and> rc_known c \<and> rq_Method r = ''POST'' \<and> rate_ok env s c \<and>
     env_respond env 4096 (rq_Body r) = Some body \<and> knock_verified env s c body nonce rnd t \<and>
     mintGrant env s c (rb_Kid body) t = Inr (g, cookie)"

lemma mintGrant_cong: "sv_cfg s' = sv_cfg s \<Longrightarrow> mintGrant env s' c kid t = mintGrant env s c kid t"
  by (simp add: mintGrant_def)

lemma knock_verified_counted [simp]: "knock_verified env (counted env s c) c' body nonce rnd t = knock_verified env s c' body nonce rnd t"
  by (simp add: knock_verified_def counted_def)

lemma handleRespond_eq:
  "handleRespond env s r =
     (case resolve env s r of
        None \<Rightarrow> (deny s None, s)
      | Some c \<Rightarrow>
          if \<not> rc_known c \<or> rq_Method r \<noteq> ''POST'' then (deny s (Some c), s)
          else if \<not> rate_ok env s c then knockFail (counted env s c) (Some c)
          else
            (case env_respond env 4096 (rq_Body r) of
               None \<Rightarrow> knockFail (counted env s c) (Some c)
             | Some body \<Rightarrow>
                 (case verifyKnock env (counted env s c) c body of
                    (None, s1) \<Rightarrow> knockFail s1 (Some c)
                  | (Some t, s1) \<Rightarrow>
                      (case mintGrant env s1 c (rb_Kid body) t of
                         Inl err \<Rightarrow> knockFail s1 (Some c)
                       | Inr (g, cookie) \<Rightarrow>
                           (NoContent (cookie @ [(''Cache-Control'', ''no-store'')]), put_grant r g s1)))))"
  by (cases "resolve env s r")
    (simp_all add: handleRespond_def rate_ok_def counted_def put_grant_def Let_def case_prod_beta'
      split: option.splits sum.splits)

lemma handleRespond_mints:
  assumes "knock_mints env s r c body nonce rnd t g cookie"
  shows "handleRespond env s r =
    (NoContent (cookie @ [(''Cache-Control'', ''no-store'')]), put_grant r g (spend env rnd (counted env s c)))"
proof -
  have "verifyKnock env (counted env s c) c body = (Some t, spend env rnd (counted env s c))"
    using assms verifyKnock_Some_iff [of env "counted env s c" c body t "spend env rnd (counted env s c)"]
    by (auto simp: knock_mints_def spend_def)
  moreover have "mintGrant env (spend env rnd (counted env s c)) c (rb_Kid body) t = Inr (g, cookie)"
    using assms mintGrant_cong [of "spend env rnd (counted env s c)" s] by (simp add: knock_mints_def spend_def counted_def)
  ultimately show ?thesis
    using assms by (simp add: handleRespond_eq knock_mints_def)
qed

text \<open>Every other request is answered with the uniform denial. It changes counters, and the spent
  nonces in one case only: the knock was good, and the random source failed.\<close>

lemma handleRespond_cases:
  assumes "handleRespond env s r = (resp, s')"
  obtains (minted) c body nonce rnd t g cookie where "knock_mints env s r c body nonce rnd t g cookie"
      and "resp = NoContent (cookie @ [(''Cache-Control'', ''no-store'')])"
      and "s' = put_grant r g (spend env rnd (counted env s c))"
  | (denied) "resp = deny s (resolve env s r)" and "only_counters s s'"
  | (no_rand) c body nonce rnd t m where "resp = deny s (resolve env s r)" and "resolve env s r = Some c"
      and "knock_verified env s c body nonce rnd t" and "env_draw env 0 = None"
      and "s' = (spend env rnd (counted env s c))\<lparr>sv_metrics := m\<rparr>"
proof (cases "\<exists>c. resolve env s r = Some c \<and> rc_known c \<and> rq_Method r = ''POST'' \<and> rate_ok env s c")
  case True
  then obtain c where c: "resolve env s r = Some c" "rc_known c" "rq_Method r = ''POST''" "rate_ok env s c" by blast
  have cs: "only_counters s (counted env s c)" by (simp add: counted_def only_counters_Allow)
  have dn: "deny (counted env s c) x = deny s x" for x by (simp add: counted_def)
  show thesis
  proof (cases "\<exists>body t s1. env_respond env 4096 (rq_Body r) = Some body \<and>
      verifyKnock env (counted env s c) c body = (Some t, s1)")
    case True
    then obtain body t s1 where b: "env_respond env 4096 (rq_Body r) = Some body"
      and v: "verifyKnock env (counted env s c) c body = (Some t, s1)" by blast
    then obtain nonce rnd where k: "knock_verified env s c body nonce rnd t"
      and s1: "s1 = spend env rnd (counted env s c)"
      by (auto simp: verifyKnock_Some_iff spend_def)
    have cfg: "mintGrant env s1 c (rb_Kid body) t = mintGrant env s c (rb_Kid body) t"
      by (rule mintGrant_cong) (simp add: s1 spend_def counted_def)
    show thesis
    proof (cases "mintGrant env s c (rb_Kid body) t")
      case (Inr gc)
      obtain g cookie where "gc = (g, cookie)" by (cases gc)
      then have "knock_mints env s r c body nonce rnd t g cookie"
        using c b k Inr by (simp add: knock_mints_def)
      then show thesis using assms handleRespond_mints minted by fastforce
    next
      case (Inl err)
      then have draw: "env_draw env 0 = None"
        by (auto simp: mintGrant_def Let_def RandomBytes_def split: if_splits sum.splits option.splits)
      have d1: "deny s1 x = deny s x" for x by (simp add: s1 spend_def dn)
      from Inl have "handleRespond env s r = knockFail s1 (Some c)"
        using c b v cfg by (simp add: handleRespond_eq)
      then show thesis using assms d1 c(1) k draw s1 no_rand by (auto simp: knockFail_eq)
    qed
  next
    case False
    then have "handleRespond env s r = knockFail (counted env s c) (Some c)"
      using c by (auto simp: handleRespond_eq split: option.splits prod.splits dest: verifyKnock_None)
    then have "resp = deny s (resolve env s r)" and "only_counters s s'"
      using assms c(1) cs by (auto simp: knockFail_eq dn only_counters_metrics)
    then show thesis by (rule denied)
  qed
next
  case False
  have cs: "only_counters s (counted env s c)" "deny (counted env s c) x = deny s x" for c x
    by (simp_all add: counted_def only_counters_Allow)
  from False assms have "resp = deny s (resolve env s r)" "only_counters s s'"
    by (auto simp: handleRespond_eq knockFail_eq cs only_counters_metrics split: option.splits if_splits)
  then show thesis by (rule denied)
qed

text \<open>What the grant of a knock says.\<close>

lemma mintGrant_fields:
  assumes "mintGrant env s c kid t = Inr (g, cookie)"
  shows "g_Kid g = kid" "g_Service g = rc_service c" "g_IP g = rc_ip c" "g_Binding g = binding (rc_svc c)"
    "g_Issued g = env_now env 1" "g_Exp g = i64 (env_now env 1 + grantTTL (sv_cfg s) (rc_svc c))"
    "\<not> g_Manual g" "g_SecretFP g = Fingerprint (Some t)"
    "g_Binding g = BindingIPCookie \<Longrightarrow> \<exists>cid. cid \<noteq> [] \<and> g_CookieHash g = CookieHash cid \<and>
       cookie = [(''Set-Cookie'', cookie_string GrantCookieName cid (grantTTL (sv_cfg s) (rc_svc c)))]"
    "g_Binding g \<noteq> BindingIPCookie \<Longrightarrow> g_CookieHash g = [] \<and> cookie = []"
    "hash_shape (g_CookieHash g)"
proof -
  have ne: "B64u b \<noteq> []" if "RandomBytes 32 d = Inr b" for b d
  proof
    assume "B64u b = []"
    then have "B64u b = B64u []" by (simp add: B64u_def)
    then have "b = []" by (simp only: b64u.enc_inject)
    then show False using length_RandomBytes [OF that] by simp
  qed
  show "g_Kid g = kid" "g_Service g = rc_service c" "g_IP g = rc_ip c" "g_Binding g = binding (rc_svc c)"
    "g_Issued g = env_now env 1" "g_Exp g = i64 (env_now env 1 + grantTTL (sv_cfg s) (rc_svc c))"
    "\<not> g_Manual g" "g_SecretFP g = Fingerprint (Some t)" "hash_shape (g_CookieHash g)"
    "g_Binding g = BindingIPCookie \<Longrightarrow> \<exists>cid. cid \<noteq> [] \<and> g_CookieHash g = CookieHash cid \<and>
       cookie = [(''Set-Cookie'', cookie_string GrantCookieName cid (grantTTL (sv_cfg s) (rc_svc c)))]"
    "g_Binding g \<noteq> BindingIPCookie \<Longrightarrow> g_CookieHash g = [] \<and> cookie = []"
    using assms by (auto simp: mintGrant_def Let_def split: if_splits sum.splits dest!: ne)
qed

section \<open>Enrollment\<close>

definition enrolled :: "Server \<Rightarrow> Server" where
  "enrolled s = s\<lparr>sv_metrics := (sv_metrics s)\<lparr>m_enrollOK := i64 (m_enrollOK (sv_metrics s) + 1)\<rparr>\<rparr>"

definition consumed :: "Env \<Rightarrow> string \<Rightarrow> Server \<Rightarrow> Server" where
  "consumed env code s = s\<lparr>sv_codes := snd (Consume (sv_codes s) code (env_now env 2))\<rparr>"

text \<open>A secret leaves the server only for a live, unspent code of a registered token.\<close>

definition enroll_ok :: "Env \<Rightarrow> Server \<Rightarrow> Request \<Rightarrow> reqCtx \<Rightarrow> string \<Rightarrow> EnrollCode \<Rightarrow> Token \<Rightarrow> bool" where
  "enroll_ok env s r c code ec t \<longleftrightarrow>
     resolve env s r = Some c \<and> rc_known c \<and> rq_Method r = ''POST'' \<and> rate_ok env s c \<and>
     (\<exists>body. env_enroll env 4096 (rq_Body r) = Some body \<and> eb_Code body = code) \<and> code \<noteq> [] \<and>
     Peek (sv_codes s) code (env_now env 1) = Some ec \<and> Peek (sv_codes s) code (env_now env 2) = Some ec \<and>
     Lookup (Some (sv_reg s)) (ec_Kid ec) = Some t"

lemma handleEnroll_eq:
  "handleEnroll env s r =
     (case resolve env s r of
        None \<Rightarrow> (deny s None, s)
      | Some c \<Rightarrow>
          if \<not> rc_known c \<or> rq_Method r \<noteq> ''POST'' then (deny s (Some c), s)
          else if \<not> rate_ok env s c then knockFail (counted env s c) (Some c)
          else
            (case env_enroll env 4096 (rq_Body r) of
               None \<Rightarrow> (deny s (Some c), counted env s c)
             | Some body \<Rightarrow>
                 if eb_Code body = [] then (deny s (Some c), counted env s c)
                 else
                   (case Peek (sv_codes s) (eb_Code body) (env_now env 1) of
                      None \<Rightarrow> knockFail (counted env s c) (Some c)
                    | Some ec \<Rightarrow>
                        (case Lookup (Some (sv_reg s)) (ec_Kid ec) of
                           None \<Rightarrow> knockFail (counted env s c) (Some c)
                         | Some t \<Rightarrow>
                             (case Peek (sv_codes s) (eb_Code body) (env_now env 2) of
                                None \<Rightarrow> knockFail (consumed env (eb_Code body) (counted env s c)) (Some c)
                              | Some _ \<Rightarrow>
                                  (NoContent [(''X-Jit-Kid'', ec_Kid ec), (''X-Jit-Secret'', B64u (tok_Secret t)),
                                     (''X-Jit-Origins'', Join (ec_Origins ec) '',''), (''Cache-Control'', ''no-store'')],
                                   enrolled (consumed env (eb_Code body) (counted env s c))))))))"
proof -
  have same: "Peek e code now = Some ec \<Longrightarrow> Peek e code now' = Some ec' \<Longrightarrow> ec' = ec" for e code now now' ec ec'
    by (auto simp: Peek_def split: option.splits if_splits)
  have co: "Consume e code now = (Peek e code now, snd (Consume e code now))" for e code now
    by (metis fst_Consume prod.collapse)
  show ?thesis
    unfolding handleEnroll_def rate_ok_def counted_def consumed_def enrolled_def Let_def case_prod_beta' fst_Consume
    by (simp split: option.splits) (auto dest: same)
qed

lemma handleEnroll_cases:
  assumes "handleEnroll env s r = (resp, s')"
  obtains (enrolled) c code ec t where "enroll_ok env s r c code ec t"
      and "resp = NoContent [(''X-Jit-Kid'', ec_Kid ec), (''X-Jit-Secret'', B64u (tok_Secret t)),
             (''X-Jit-Origins'', Join (ec_Origins ec) '',''), (''Cache-Control'', ''no-store'')]"
      and "s' = enrolled (consumed env code (counted env s c))"
  | (denied) "resp = deny s (resolve env s r)" and "only_counters s s'"
  | (expired) c code m where "resp = deny s (resolve env s r)"
      and "s' = (consumed env code (counted env s c))\<lparr>sv_metrics := m\<rparr>" and "Peek (sv_codes s) code (env_now env 2) = None"
proof -
  have cs: "only_counters s (counted env s c)" "deny (counted env s c) x = deny s x"
    "deny (consumed env code (counted env s c)) x = deny s x" for c x code
    by (simp_all add: counted_def consumed_def only_counters_Allow)
  have same: "Peek e code now = Some ec \<Longrightarrow> Peek e code now' = Some ec' \<Longrightarrow> ec' = ec" for e code now now' ec ec'
    by (auto simp: Peek_def split: option.splits if_splits)
  show thesis
  proof (cases "\<exists>c body ec t. resolve env s r = Some c \<and> rc_known c \<and> rq_Method r = ''POST'' \<and> rate_ok env s c \<and>
      env_enroll env 4096 (rq_Body r) = Some body \<and> eb_Code body \<noteq> [] \<and>
      Peek (sv_codes s) (eb_Code body) (env_now env 1) = Some ec \<and> Lookup (Some (sv_reg s)) (ec_Kid ec) = Some t")
    case True
    then obtain c body ec t where c: "resolve env s r = Some c" "rc_known c" "rq_Method r = ''POST''" "rate_ok env s c"
      "env_enroll env 4096 (rq_Body r) = Some body" "eb_Code body \<noteq> []"
      "Peek (sv_codes s) (eb_Code body) (env_now env 1) = Some ec" "Lookup (Some (sv_reg s)) (ec_Kid ec) = Some t"
      by blast
    show thesis
    proof (cases "Peek (sv_codes s) (eb_Code body) (env_now env 2)")
      case None
      then show thesis using assms c cs expired by (simp add: handleEnroll_eq knockFail_eq) blast
    next
      case (Some ec')
      then have "ec' = ec" using c(7) same by blast
      with Some c have "enroll_ok env s r c (eb_Code body) ec t" by (simp add: enroll_ok_def)
      moreover have "handleEnroll env s r = (NoContent [(''X-Jit-Kid'', ec_Kid ec), (''X-Jit-Secret'', B64u (tok_Secret t)),
             (''X-Jit-Origins'', Join (ec_Origins ec) '',''), (''Cache-Control'', ''no-store'')],
             ServerProps.enrolled (consumed env (eb_Code body) (counted env s c)))"
        using Some c by (simp add: handleEnroll_eq)
      ultimately show thesis using assms by (intro enrolled) auto
    qed
  next
    case False
    have "resp = deny s (resolve env s r) \<and> only_counters s s'"
    proof (cases "resolve env s r")
      case (Some c)
      show ?thesis
      proof (cases "env_enroll env 4096 (rq_Body r)")
        case None
        then show ?thesis using assms Some
          by (auto simp: handleEnroll_eq knockFail_eq cs only_counters_metrics split: if_splits)
      next
        case body: (Some body)
        show ?thesis
        proof (cases "Peek (sv_codes s) (eb_Code body) (env_now env 1)")
          case None
          then show ?thesis using assms Some body
            by (auto simp: handleEnroll_eq knockFail_eq cs only_counters_metrics split: if_splits)
        next
          case ec: (Some ec)
          then show ?thesis using assms Some body False
            by (cases "Lookup (Some (sv_reg s)) (ec_Kid ec)")
              (auto simp: handleEnroll_eq knockFail_eq cs only_counters_metrics split: if_splits)
        qed
      qed
    qed (use assms in \<open>auto simp: handleEnroll_eq\<close>)
    then show thesis using denied by blast
  qed
qed

section \<open>Forward-auth\<close>

lemma deny_status: "rs_Status (deny s c) \<noteq> 204" "rs_Status (authzDeny s c) = 403"
  by (simp_all add: deny_def authzDeny_def NotFound_def text_error_def interstitial_response_def StatusOnly_def)

lemma NoContent_status [simp]: "rs_Status (NoContent hs) = 204"
  by (simp add: NoContent_def)

text \<open>When forward-auth answers 204.\<close>

definition authz_grants :: "Env \<Rightarrow> Server \<Rightarrow> Request \<Rightarrow> reqCtx \<Rightarrow> Grant \<Rightarrow> bool" where
  "authz_grants env s r c g \<longleftrightarrow>
     resolve env s r = Some c \<and> rc_known c \<and> \<not> isProtocolURI (cf_URIPrefix (sv_cfg s)) (rc_uri c) \<and>
     IsAllowed (sv_grants s) (rc_service c) (rc_ip c) (Some (sv_reg s)) (env_now env 0) (grant_cookie r) = Some g \<and>
     (binding (rc_svc c) = BindingIPCookie \<longrightarrow> g_Binding g = BindingIPCookie)"

definition from_proxy :: "Server \<Rightarrow> Request \<Rightarrow> bool" where
  "from_proxy s r \<longleftrightarrow> (\<exists>peer. peerAddr r = Some peer \<and> isTrusted (sv_cfg s) peer)"

lemma handleAuthz_granted:
  assumes "from_proxy s r" and "authz_grants env s r c g"
  shows "handleAuthz env s r = (NoContent [(''X-Jit-Kid'', g_Kid g)],
    s\<lparr>sv_metrics := (sv_metrics s)\<lparr>m_granted := i64 (m_granted (sv_metrics s) + 1)\<rparr>\<rparr>)"
  using assms by (auto simp: from_proxy_def authz_grants_def handleAuthz_def)

lemma handleAuthz_cases:
  assumes "handleAuthz env s r = (resp, s')"
  shows "only_counters s s' \<and>
    (rs_Status resp = 204 \<longleftrightarrow>
       from_proxy s r \<and>
       ((\<exists>c. resolve env s r = Some c \<and> isProtocolURI (cf_URIPrefix (sv_cfg s)) (rc_uri c)) \<or>
        (\<exists>c g. authz_grants env s r c g)))"
proof (cases "from_proxy s r")
  case False
  then show ?thesis using assms
    by (auto simp: from_proxy_def handleAuthz_def text_error_def split: option.splits)
next
  case proxy: True
  then obtain peer where p: "peerAddr r = Some peer" "isTrusted (sv_cfg s) peer" by (auto simp: from_proxy_def)
  show ?thesis
  proof (cases "resolve env s r")
    case None
    then show ?thesis using assms p by (auto simp: handleAuthz_def deny_status authz_grants_def)
  next
    case (Some c)
    show ?thesis
    proof (cases "isProtocolURI (cf_URIPrefix (sv_cfg s)) (rc_uri c) \<or> \<not> rc_known c")
      case True
      then show ?thesis using assms p Some proxy
        by (auto simp: handleAuthz_def deny_status authz_grants_def split: if_splits)
    next
      case False
      then show ?thesis using assms p Some proxy
        by (auto simp: handleAuthz_def deny_status authz_grants_def denied_def only_counters_metrics
            split: option.splits if_splits)
    qed
  qed
qed

lemma handleRegister_state: "snd (handleRegister env s r) = s"
  by (simp add: handleRegister_def split: option.splits)

section \<open>Administration\<close>

text \<open>An authenticated call of the admin API.\<close>

definition admin_auth :: "Server \<Rightarrow> Request \<Rightarrow> bool" where
  "admin_auth s r \<longleftrightarrow> from_proxy s r \<and> cf_AdminToken (sv_cfg s) \<noteq> [] \<and>
     TrimPrefix (Header_Get r ''Authorization'') ''Bearer '' = cf_AdminToken (sv_cfg s)"

definition admin_mints :: "AdminEnv \<Rightarrow> Server \<Rightarrow> Request \<Rightarrow> Grant \<Rightarrow> bool" where
  "admin_mints env s r g \<longleftrightarrow>
     admin_auth s r \<and> rq_Path r = ''/admin/grant'' \<and> rq_Method r = ''POST'' \<and>
     (\<exists>body ip. env_grant env 65536 (rq_Body r) = Some body \<and>
        CanonIP (gb_IP body) (cf_IPv6Prefix (sv_cfg s)) 32 = Inr ip \<and> CanonServerName (gb_Service body) \<noteq> [] \<and>
        g = adminGrantRecord env s body (CanonServerName (gb_Service body)) ip)"

lemma handleAdmin_unauth: "\<not> admin_auth s r \<Longrightarrow> snd (handleAdmin env s r) = s \<and> rs_Status (fst (handleAdmin env s r)) \<in> {401, 403}"
  by (auto simp: admin_auth_def from_proxy_def handleAdmin_def Let_def text_error_def split: option.splits)

lemma handleAdmin_auth:
  "admin_auth s r \<Longrightarrow> handleAdmin env s r =
     (if rq_Path r = ''/admin/grants'' then adminGrants env s r
      else if rq_Path r = ''/admin/grant'' then adminGrant env s r
      else if rq_Path r = ''/admin/revoke'' then adminRevoke env s r
      else if rq_Path r = ''/admin/revoke-token'' then adminRevokeToken env s r
      else if rq_Path r = ''/admin/enroll-code'' then adminEnrollCode env s r
      else if rq_Path r = ''/admin/metrics'' then (writeJSON 200 (snapshot (sv_metrics s)), s)
      else (NotFound, s))"
  by (auto simp: admin_auth_def from_proxy_def handleAdmin_def Let_def)

lemma adminGrant_state:
  "snd (adminGrant env s r) = s \<or>
   (\<exists>body ip. rq_Method r = ''POST'' \<and> env_grant env 65536 (rq_Body r) = Some body \<and>
      CanonIP (gb_IP body) (cf_IPv6Prefix (sv_cfg s)) 32 = Inr ip \<and> CanonServerName (gb_Service body) \<noteq> [] \<and>
      snd (adminGrant env s r) = s\<lparr>sv_grants := Put (sv_grants s)
        (Some (adminGrantRecord env s body (CanonServerName (gb_Service body)) ip)) []\<rparr>)"
  by (auto simp: adminGrant_def decodeJSON_def Let_def split: sum.splits option.splits if_splits)

lemma adminRevoke_state:
  "snd (adminRevoke env s r) = s \<or>
   (\<exists>svc ip. snd (adminRevoke env s r) = s\<lparr>sv_grants := snd (Revoke (sv_grants s) svc ip)\<rparr>)"
  by (auto simp: adminRevoke_def decodeJSON_def Let_def case_prod_beta' split: sum.splits option.splits if_splits)

lemma adminRevokeToken_state:
  "snd (adminRevokeToken env s r) = s \<or>
   (\<exists>kid. snd (adminRevokeToken env s r) = s\<lparr>sv_grants := snd (RevokeToken (sv_grants s) kid)\<rparr>)"
  by (auto simp: adminRevokeToken_def decodeJSON_def Let_def case_prod_beta' split: sum.splits option.splits if_splits)

lemma adminEnrollCode_state:
  "snd (adminEnrollCode env s r) = s \<or> (\<exists>codes. snd (adminEnrollCode env s r) = s\<lparr>sv_codes := codes\<rparr>)"
proof (cases "decodeJSON (env_enrollCode env) r")
  case (Inr body)
  show ?thesis
  proof (cases "Lookup (Some (sv_reg s)) (cb_Kid body) = None \<or> env_draw env 0 = None")
    case True
    then have "snd (adminEnrollCode env s r) = s"
      using Inr by (auto simp: adminEnrollCode_def RandomBytes_def Let_def simp del: not_None_eq)
    then show ?thesis ..
  next
    case False
    then obtain f where "env_draw env 0 = Some f" and "Lookup (Some (sv_reg s)) (cb_Kid body) \<noteq> None" by blast
    then have "\<exists>codes. snd (adminEnrollCode env s r) = s\<lparr>sv_codes := codes\<rparr>"
      unfolding adminEnrollCode_def Inr sum.case if_False Let_def RandomBytes_def option.case by auto
    then show ?thesis ..
  qed
qed (simp add: adminEnrollCode_def)

text \<open>The admin API changes grants and codes only.\<close>

lemma handleAdmin_cases:
  obtains (none) "snd (handleAdmin env s r) = s"
  | (grant) g where "admin_mints env s r g" and "snd (handleAdmin env s r) = s\<lparr>sv_grants := Put (sv_grants s) (Some g) []\<rparr>"
  | (revoke) svc ip where "snd (handleAdmin env s r) = s\<lparr>sv_grants := snd (Revoke (sv_grants s) svc ip)\<rparr>"
  | (revoke_token) kid where "snd (handleAdmin env s r) = s\<lparr>sv_grants := snd (RevokeToken (sv_grants s) kid)\<rparr>"
  | (codes) codes where "snd (handleAdmin env s r) = s\<lparr>sv_codes := codes\<rparr>"
proof (cases "admin_auth s r")
  case auth: True
  note eq = handleAdmin_auth [OF auth, of env]
  show thesis
  proof (cases "rq_Path r = ''/admin/grant''")
    case True
    then have "snd (handleAdmin env s r) = snd (adminGrant env s r)" using eq by simp
    then show thesis using adminGrant_state [of env s r] none grant auth True
      by (auto simp: admin_mints_def)
  next
    case False
    then consider "snd (handleAdmin env s r) = s" | "handleAdmin env s r = adminRevoke env s r"
      | "handleAdmin env s r = adminRevokeToken env s r" | "handleAdmin env s r = adminEnrollCode env s r"
      using eq by (simp add: adminGrants_def Let_def split: if_splits)
    then show thesis
      using adminRevoke_state [of env s r] adminRevokeToken_state [of env s r] adminEnrollCode_state [of env s r]
        none revoke revoke_token codes
      by cases auto
  qed
qed (use handleAdmin_unauth none in blast)

end
