(* ===== verification/Runs.thy ===== *)
theory Runs
  imports ServerProps
begin

text \<open>
  Executions of the Authorizer. A step serves a request on the main or the admin listener, sweeps the stores,
  or reloads the configuration on a signal; \<open>steps\<close> is a sequence of them and \<open>run\<close> one from a start
  of the program. \<open>server_inv\<close> is the invariant of all reachable states, and every stored grant was
  minted by a step of the run (\<open>minted\<close>).
\<close>

section \<open>Steps\<close>

datatype event =
    Served AdminEnv Request Response
  | AdminServed AdminEnv Request Response
  | Swept int
  | Hup string Config

inductive step :: "Server \<Rightarrow> event \<Rightarrow> Server \<Rightarrow> bool" where
  serve: "serve env s r = Some (resp, s') \<Longrightarrow> step s (Served env r resp) s'"
| admin: "AdminHandler s = Some h \<Longrightarrow> h env s r = (resp, s') \<Longrightarrow> step s (AdminServed env r resp) s'"
| sweep: "step s (Swept now) (sweepAll s now)"
| hup: "step s (Hup listenOv c) (sighup listenOv (finalize c) s)"

inductive steps :: "Server \<Rightarrow> event list \<Rightarrow> Server \<Rightarrow> bool" where
  none: "steps s [] s"
| snoc: "steps s evs s' \<Longrightarrow> step s' e s'' \<Longrightarrow> steps s (evs @ [e]) s''"

text \<open>The start of \<^verbatim>\<open>main\<close>: a finalized configuration, with the listen address of the command line.\<close>

definition with_listen :: "string \<Rightarrow> Config \<Rightarrow> Config" where
  "with_listen listenOv c = (if listenOv \<noteq> [] then c\<lparr>cf_Listen := listenOv\<rparr> else c)"

inductive started :: "Server \<Rightarrow> bool" where
  start: "finalize c = Inr cfg \<Longrightarrow> NewServer (with_listen listenOv cfg) d = Inr s \<Longrightarrow> started (Handler s)"

definition run :: "event list \<Rightarrow> Server \<Rightarrow> bool" where
  "run evs s \<longleftrightarrow> (\<exists>s0. started s0 \<and> steps s0 evs s)"

inductive_cases step_ServedE: "step s (Served env r resp) s'"
inductive_cases step_AdminServedE: "step s (AdminServed env r resp) s'"
inductive_cases step_SweptE: "step s (Swept now) s'"
inductive_cases step_HupE: "step s (Hup listenOv c) s'"
inductive_cases startedE: "started s"

lemma steps_append: "steps s1 evs2 s2 \<Longrightarrow> steps s0 evs1 s1 \<Longrightarrow> steps s0 (evs1 @ evs2) s2"
  by (induction rule: steps.induct) (auto simp flip: append_assoc intro: steps.intros)

lemma run_step: "run evs s \<Longrightarrow> step s e s' \<Longrightarrow> run (evs @ [e]) s'"
  by (auto simp: run_def intro: steps.snoc)

section \<open>The invariant\<close>

definition wf_grant :: "Grant \<Rightarrow> bool" where
  "wf_grant g \<longleftrightarrow>
     CanonServerName (g_Service g) = g_Service g \<and> g_Service g \<noteq> [] \<and> short_addr (g_IP g) \<and>
     hash_shape (g_CookieHash g) \<and> (g_Binding g = BindingIP \<or> g_Binding g = BindingIPCookie) \<and>
     (g_Binding g = BindingIPCookie \<longleftrightarrow> g_CookieHash g \<noteq> []) \<and> (g_Manual g \<longrightarrow> g_Binding g = BindingIP)"

definition wf_grants :: "GrantStore \<Rightarrow> bool" where
  "wf_grants s \<longleftrightarrow> (\<forall>k g. abs_grants s k = Some g \<longrightarrow> wf_grant g)"

definition server_inv :: "Server \<Rightarrow> bool" where
  "server_inv s \<longleftrightarrow>
     config_ok (sv_cfg s) \<and> Config_Registry (sv_cfg s) = Inr (sv_reg s) \<and>
     sv_mux s = Some (buildMuxLocked (sv_cfg s)) \<and> length (sv_nonceKey s) = 32 \<and>
     grant_inv (sv_grants s) \<and> wf_grants (sv_grants s) \<and> rl_inv (sv_rl s)"

lemma config_ok_listen [simp]: "config_ok (with_listen l c) = config_ok c"
  by (simp add: with_listen_def config_ok_def)

lemma wf_grants_New: "wf_grants NewGrantStore"
  by (simp add: wf_grants_def NewGrantStore_def)

lemma server_inv_started: "started s \<Longrightarrow> server_inv s"
  by (erule startedE)
    (auto simp: NewServer_def Handler_def server_inv_def grant_inv_New wf_grants_New
      rl_inv_New finalize_config_ok length_RandomBytes split: sum.splits)

lemma only_counters_inv: "only_counters s s' \<Longrightarrow> server_inv s \<Longrightarrow> server_inv s'"
  by (simp add: server_inv_def only_counters_fields)

lemma resolve_Some:
  assumes "resolve env s r = Some c"
  shows "fst (ClientIP (sv_cfg s) r) = Inr (rc_ip c)" and "resolveTarget (env_url env) (sv_cfg s) r = Some (rc_service c, rc_uri c)"
    and "rc_service c \<noteq> []" and "rc_known c \<Longrightarrow> Service (sv_cfg s) (rc_service c) = Some (rc_svc c)"
    and "CanonServerName (rc_service c) = rc_service c" and "clean_path (rc_uri c)" and "short_addr (rc_ip c)"
proof -
  show ip: "fst (ClientIP (sv_cfg s) r) = Inr (rc_ip c)"
    and t: "resolveTarget (env_url env) (sv_cfg s) r = Some (rc_service c, rc_uri c)"
    and "rc_service c \<noteq> []" and "rc_known c \<Longrightarrow> Service (sv_cfg s) (rc_service c) = Some (rc_svc c)"
    using assms by (auto simp: resolve_def Let_def split: sum.splits option.splits if_splits)
  show "CanonServerName (rc_service c) = rc_service c" and "clean_path (rc_uri c)"
    using resolveTarget_canonical [OF t] by simp_all
  show "short_addr (rc_ip c)" using ClientIP_canonical [OF ip] short_CanonIP by blast
qed

lemma BindingIP_neq [simp]: "BindingIP \<noteq> BindingIPCookie" "BindingIPCookie \<noteq> BindingIP"
  by (simp_all add: BindingIP_def BindingIPCookie_def)

lemma nil_neq_CookieHash [simp]: "[] \<noteq> CookieHash c"
  using CookieHash_nonempty [of c] by metis

lemma wf_grant_knock:
  assumes "server_inv s" and "knock_mints env s r c body nonce rnd t g cookie"
  shows "wf_grant g"
proof -
  have c: "resolve env s r = Some c" "rc_known c" and m: "mintGrant env s c (rb_Kid body) t = Inr (g, cookie)"
    using assms(2) by (auto simp: knock_mints_def)
  have "modes_ok (rc_svc c)"
    using assms(1) resolve_Some(4) [OF c] Service_modes_ok by (auto simp: server_inv_def)
  then have "binding (rc_svc c) = BindingIP \<or> binding (rc_svc c) = BindingIPCookie" by (rule binding_cases)
  then show ?thesis
    using mintGrant_fields [OF m] resolve_Some [OF c(1)] by (auto simp: wf_grant_def)
qed

lemma wf_grant_admin: "admin_mints env s r g \<Longrightarrow> wf_grant g"
  by (auto simp: admin_mints_def adminGrantRecord_def Let_def wf_grant_def CanonServerName_idem short_CanonIP)

lemma wf_grants_Put: "wf_grants s \<Longrightarrow> wf_grant g \<Longrightarrow> wf_grants (Put s (Some g) ohs)"
  by (auto simp: wf_grants_def abs_Put)

lemma wf_grants_sub:
  "wf_grants s \<Longrightarrow> (\<And>k g. abs_grants s' k = Some g \<Longrightarrow> abs_grants s k = Some g) \<Longrightarrow> wf_grants s'"
  by (auto simp: wf_grants_def)

lemma abs_sub_revoke:
  assumes "grant_inv s"
  shows "abs_grants (snd (Revoke s svc ip)) k = Some g \<Longrightarrow> abs_grants s k = Some g"
    and "abs_grants (snd (RevokeToken s kid)) k = Some g \<Longrightarrow> abs_grants s k = Some g"
    and "abs_grants (snd (Sweep s now)) k = Some g \<Longrightarrow> abs_grants s k = Some g"
  using assms by (auto simp: abs_Revoke RevokeToken_eq abs_Sweep split: option.splits if_splits)

lemma wf_grants_drop:
  assumes "grant_inv s" and "wf_grants s"
  shows "wf_grants (snd (Revoke s svc ip))" and "wf_grants (snd (RevokeToken s kid))" and "wf_grants (snd (Sweep s now))"
  by (rule wf_grants_sub [OF assms(2)]; erule abs_sub_revoke [OF assms(1)])+

lemma only_counters_handlers:
  "only_counters s (snd (handleChallenge env s r))" "only_counters s (snd (handleAuthz env s r))"
  using handleChallenge_cases [of env s r, OF surjective_pairing] handleAuthz_cases [of env s r, OF surjective_pairing]
  by simp_all

lemma server_inv_respond:
  assumes "server_inv s"
  shows "server_inv (snd (handleRespond env s r))"
proof -
  obtain resp s' where e: "handleRespond env s r = (resp, s')" by fastforce
  then show ?thesis
  proof (cases rule: handleRespond_cases)
    case (minted c body nonce rnd t g cookie)
    then have "wf_grant g" using assms wf_grant_knock by blast
    then show ?thesis
      using assms e minted(3)
      by (simp add: server_inv_def put_grant_def spend_def counted_def grant_inv_Put wf_grants_Put rl_inv_Allow)
  next
    case denied
    then show ?thesis using assms e only_counters_inv by simp
  next
    case (no_rand c body nonce rnd t m)
    then show ?thesis using assms e by (simp add: server_inv_def spend_def counted_def rl_inv_Allow)
  qed
qed

lemma server_inv_enroll:
  assumes "server_inv s"
  shows "server_inv (snd (handleEnroll env s r))"
proof -
  obtain resp s' where e: "handleEnroll env s r = (resp, s')" by fastforce
  then have "server_inv s'"
  proof (cases rule: handleEnroll_cases)
    case denied
    then show ?thesis using assms only_counters_inv by blast
  qed (use assms in \<open>simp_all add: server_inv_def enrolled_def consumed_def counted_def rl_inv_Allow\<close>)
  then show ?thesis by (simp add: e)
qed

lemma server_inv_admin:
  assumes "server_inv s"
  shows "server_inv (snd (handleAdmin env s r))"
proof (cases rule: handleAdmin_cases [of env s r])
  case (grant g)
  then show ?thesis using assms wf_grant_admin by (simp add: server_inv_def grant_inv_Put wf_grants_Put)
next
  case (revoke svc ip)
  then show ?thesis using assms by (simp add: server_inv_def grant_inv_Revoke wf_grants_drop)
next
  case (revoke_token kid)
  then show ?thesis using assms by (simp add: server_inv_def grant_inv_RevokeToken wf_grants_drop)
qed (use assms in \<open>simp_all add: server_inv_def\<close>)

text \<open>Whatever the listener and the route, a request ends in one of the handlers, or changes nothing.\<close>

definition answered :: "AdminEnv \<Rightarrow> Server \<Rightarrow> Request \<Rightarrow> Server \<Rightarrow> bool" where
  "answered env s r s' \<longleftrightarrow> s' = s \<or> (\<exists>rt. s' = snd (serve_route env rt s r))"

lemma answered_mux: "mux_serve env router s r = (resp, s') \<Longrightarrow> answered env s r s'"
  by (auto simp: mux_serve_def answered_def Let_def split: if_splits intro: exI [of _ "router (mux_clean (rq_EscapedPath r))"])

lemma answered_serve: "serve env s r = Some (resp, s') \<Longrightarrow> answered env s r s'"
  by (auto simp: serve_def answered_mux split: if_splits option.splits) (simp add: answered_def)

lemma answered_admin: "AdminHandler s = Some h \<Longrightarrow> h env s r = (resp, s') \<Longrightarrow> answered env s r s'"
  by (auto simp: AdminHandler_def answered_mux split: if_splits)

lemma answeredI: "P s \<Longrightarrow> (\<And>rt. P (snd (serve_route env rt s r))) \<Longrightarrow> answered env s r s' \<Longrightarrow> P s'"
  by (auto simp: answered_def)

lemma server_inv_serve:
  assumes "server_inv s" and "answered env s r s'"
  shows "server_inv s'"
proof -
  note counters = only_counters_handlers [THEN only_counters_inv, OF assms(1)]
  have "server_inv (snd (serve_route env rt s r))" for rt
    using assms(1)
    by (cases rt) (simp_all add: serve_route_def handleRegister_state counters server_inv_respond
        server_inv_enroll server_inv_admin)
  then show ?thesis using assms by (auto simp: answered_def)
qed

lemma server_inv_sweep: "server_inv s \<Longrightarrow> server_inv (sweepAll s now)"
  by (simp add: server_inv_def sweepAll_def Let_def grant_inv_Sweep rl_inv_Sweep wf_grants_drop)

lemma sighup_eq:
  "sighup listenOv loaded s =
     (case loaded of
        Inl err \<Rightarrow> s
      | Inr nc \<Rightarrow> (case Reload s (with_listen listenOv nc) of Inl err \<Rightarrow> s | Inr s' \<Rightarrow> s'))"
  by (simp add: sighup_def with_listen_def split: sum.splits)

lemma server_inv_sighup: "server_inv s \<Longrightarrow> server_inv (sighup listenOv (finalize c) s)"
  by (auto simp: sighup_eq Reload_def server_inv_def finalize_config_ok split: sum.splits if_splits)

lemma server_inv_step: "step s e s' \<Longrightarrow> server_inv s \<Longrightarrow> server_inv s'"
  by (induction rule: step.induct)
    (auto simp: server_inv_sweep server_inv_sighup intro: server_inv_serve answered_serve answered_admin)

lemma server_inv_steps: "steps s evs s' \<Longrightarrow> server_inv s \<Longrightarrow> server_inv s'"
  by (induction rule: steps.induct) (auto simp: server_inv_step)

lemma server_inv_run: "run evs s \<Longrightarrow> server_inv s"
  by (auto simp: run_def server_inv_started server_inv_steps)

text \<open>The nonce key is fixed at the start.\<close>

lemma serve_fields:
  assumes "answered env s r s'"
  shows "sv_nonceKey s' = sv_nonceKey s \<and> sv_cfg s' = sv_cfg s \<and> sv_reg s' = sv_reg s"
proof -
  let ?F = "\<lambda>x. sv_nonceKey x = sv_nonceKey s \<and> sv_cfg x = sv_cfg s \<and> sv_reg x = sv_reg s"
  have respond: "?F (snd (handleRespond env' s r))" for env'
  proof -
    obtain resp1 s1 where e: "handleRespond env' s r = (resp1, s1)" by fastforce
    then have "?F s1"
      by (cases rule: handleRespond_cases)
        (simp_all add: put_grant_def spend_def counted_def only_counters_fields)
    then show ?thesis by (simp add: e)
  qed
  have enroll: "?F (snd (handleEnroll env' s r))" for env'
  proof -
    obtain resp1 s1 where e: "handleEnroll env' s r = (resp1, s1)" by fastforce
    then have "?F s1"
      by (cases rule: handleEnroll_cases)
        (simp_all add: enrolled_def consumed_def counted_def only_counters_fields)
    then show ?thesis by (simp add: e)
  qed
  have admin: "?F (snd (handleAdmin env s r))"
    by (cases rule: handleAdmin_cases [of env s r]) simp_all
  have counters: "?F (snd (handleChallenge env' s r))" "?F (snd (handleAuthz env' s r))" for env'
    by (simp_all add: only_counters_fields [OF only_counters_handlers(1)] only_counters_fields [OF only_counters_handlers(2)])
  have "?F (snd (serve_route env rt s r))" for rt
    by (cases rt) (simp_all add: serve_route_def handleRegister_state respond enroll admin counters)
  then show ?thesis using assms by (auto simp: answered_def)
qed

lemma nonceKey_step: "step s e s' \<Longrightarrow> sv_nonceKey s' = sv_nonceKey s"
  by (induction rule: step.induct)
    (auto simp: serve_fields [OF answered_serve] serve_fields [OF answered_admin] sweepAll_def Let_def sighup_eq
      Reload_def split: sum.splits)

lemma nonceKey_steps: "steps s evs s' \<Longrightarrow> sv_nonceKey s' = sv_nonceKey s"
  by (induction rule: steps.induct) (auto simp: nonceKey_step)

section \<open>Where grants come from\<close>

text \<open>The request mints the grant: a verified knock, or an authenticated admin call.\<close>

definition mints :: "AdminEnv \<Rightarrow> Server \<Rightarrow> Request \<Rightarrow> Grant \<Rightarrow> bool" where
  "mints env s r g \<longleftrightarrow>
     (\<exists>c body nonce rnd t cookie. knock_mints (Env.truncate env) s r c body nonce rnd t g cookie) \<or>
     admin_mints env s r g"

fun event_request :: "event \<Rightarrow> (AdminEnv \<times> Request) option" where
  "event_request (Served env r resp) = Some (env, r)"
| "event_request (AdminServed env r resp) = Some (env, r)"
| "event_request (Swept now) = None"
| "event_request (Hup listenOv c) = None"

definition minted :: "Server \<Rightarrow> event list \<Rightarrow> Grant \<Rightarrow> bool" where
  "minted s0 evs g \<longleftrightarrow>
     (\<exists>evs1 e evs2 env r s1. evs = evs1 @ e # evs2 \<and> event_request e = Some (env, r) \<and>
        steps s0 evs1 s1 \<and> mints env s1 r g)"

lemma serve_grants:
  assumes "grant_inv (sv_grants s)" and "answered env s r s'" and "abs_grants (sv_grants s') k = Some g"
  shows "abs_grants (sv_grants s) k = Some g \<or> mints env s r g"
proof -
  let ?F = "\<lambda>x. abs_grants (sv_grants x) k = Some g \<longrightarrow> abs_grants (sv_grants s) k = Some g \<or> mints env s r g"
  have respond: "?F (snd (handleRespond (Env.truncate env) s r))"
  proof -
    obtain resp1 s1 where e: "handleRespond (Env.truncate env) s r = (resp1, s1)" by fastforce
    then have "?F s1"
    proof (cases rule: handleRespond_cases)
      case (minted c body nonce rnd t g' cookie)
      then have "mints env s r g'" unfolding mints_def by blast
      with minted(3) show ?thesis by (auto simp: put_grant_def spend_def counted_def abs_Put split: if_splits)
    qed (simp_all add: only_counters_fields spend_def counted_def)
    then show ?thesis by (simp add: e)
  qed
  have enroll: "sv_grants (snd (handleEnroll env' s r)) = sv_grants s" for env'
  proof -
    obtain resp1 s1 where e: "handleEnroll env' s r = (resp1, s1)" by fastforce
    then have "sv_grants s1 = sv_grants s"
      by (cases rule: handleEnroll_cases)
        (simp_all add: enrolled_def consumed_def counted_def only_counters_fields)
    then show ?thesis by (simp add: e)
  qed
  have admin: "?F (snd (handleAdmin env s r))"
  proof (cases rule: handleAdmin_cases [of env s r])
    case (grant g')
    then show ?thesis by (auto simp: abs_Put mints_def retired_def)
  qed (use abs_sub_revoke [OF assms(1)] in simp_all)
  have "?F (snd (serve_route env rt s r))" for rt
    using respond admin
    by (cases rt) (simp_all add: serve_route_def handleRegister_state enroll
        only_counters_fields [OF only_counters_handlers(1)] only_counters_fields [OF only_counters_handlers(2)])
  then show ?thesis using assms(2,3) by (auto simp: answered_def)
qed

lemma step_grants:
  assumes "step s e s'" and "server_inv s" and "abs_grants (sv_grants s') k = Some g"
  shows "abs_grants (sv_grants s) k = Some g \<or> (\<exists>env r. event_request e = Some (env, r) \<and> mints env s r g)"
  using assms(1)
proof cases
  case (serve env r resp)
  then show ?thesis using assms serve_grants [OF _ answered_serve] by (auto simp: server_inv_def)
next
  case (admin h env r resp)
  then show ?thesis using assms serve_grants [OF _ answered_admin] by (auto simp: server_inv_def)
next
  case (sweep now)
  then show ?thesis using assms abs_sub_revoke(3) by (auto simp: sweepAll_def Let_def server_inv_def)
next
  case (hup listenOv c)
  then show ?thesis using assms by (auto simp: sighup_eq Reload_def split: sum.splits if_splits)
qed

lemma grants_minted:
  "steps s0 evs s \<Longrightarrow> server_inv s0 \<Longrightarrow> (\<And>k. abs_grants (sv_grants s0) k = None) \<Longrightarrow>
     abs_grants (sv_grants s) k = Some g \<Longrightarrow> minted s0 evs g"
proof (induction arbitrary: k rule: steps.induct)
  case (snoc s evs s' e s'')
  have "server_inv s'" using snoc.hyps(1) snoc.prems(1) server_inv_steps by blast
  with snoc.hyps(2) snoc.prems(3)
  consider "abs_grants (sv_grants s') k = Some g" | env r where "event_request e = Some (env, r)" "mints env s' r g"
    using step_grants by blast
  then show ?case
  proof cases
    case 1
    then have "minted s evs g" using snoc by blast
    then show ?thesis unfolding minted_def by (metis append_Cons append_assoc)
  next
    case 2
    then show ?thesis using snoc.hyps(1) unfolding minted_def by blast
  qed
qed simp

lemma started_empty: "started s \<Longrightarrow> abs_grants (sv_grants s) k = None"
  by (erule startedE) (auto simp: NewServer_def Handler_def NewGrantStore_def split: sum.splits)

section \<open>Single use of nonces\<close>

text \<open>The clock reading an operation of the nonce store uses in a step.\<close>

fun event_time :: "event \<Rightarrow> int" where
  "event_time (Served env r resp) = env_now env 1"
| "event_time (AdminServed env r resp) = env_now env 1"
| "event_time (Swept now) = now"
| "event_time (Hup listenOv c) = 0"

lemma serve_nonces:
  assumes "answered env s r s'"
  shows "sv_nonces s' = sv_nonces s \<or>
    (\<exists>nid. sv_nonces s' = snd (Claim (sv_nonces s) nid (env_now env 1) (cf_NonceTTL (sv_cfg s))))"
proof -
  let ?F = "\<lambda>x. sv_nonces x = sv_nonces s \<or>
    (\<exists>nid. sv_nonces x = snd (Claim (sv_nonces s) nid (env_now env 1) (cf_NonceTTL (sv_cfg s))))"
  have now: "env_now (Env.truncate env) = env_now env" by (simp add: Env.truncate_def)
  have respond: "?F (snd (handleRespond (Env.truncate env) s r))"
  proof -
    obtain resp1 s1 where e: "handleRespond (Env.truncate env) s r = (resp1, s1)" by fastforce
    then have "?F s1"
      by (cases rule: handleRespond_cases)
        (auto simp: put_grant_def spend_def counted_def only_counters_fields now)
    then show ?thesis by (simp add: e)
  qed
  have enroll: "sv_nonces (snd (handleEnroll env' s r)) = sv_nonces s" for env'
  proof -
    obtain resp1 s1 where e: "handleEnroll env' s r = (resp1, s1)" by fastforce
    then have "sv_nonces s1 = sv_nonces s"
      by (cases rule: handleEnroll_cases)
        (simp_all add: enrolled_def consumed_def counted_def only_counters_fields)
    then show ?thesis by (simp add: e)
  qed
  have admin: "sv_nonces (snd (handleAdmin env s r)) = sv_nonces s"
    by (cases rule: handleAdmin_cases [of env s r]) simp_all
  have "?F (snd (serve_route env rt s r))" for rt
    using respond admin
    by (cases rt) (simp_all add: serve_route_def handleRegister_state enroll
        only_counters_fields [OF only_counters_handlers(1)] only_counters_fields [OF only_counters_handlers(2)])
  then show ?thesis using assms by (auto simp: answered_def)
qed

lemma spent_step:
  assumes "step s e s'" and "spent_until (sv_nonces s) nid until" and "event_time e < until"
  shows "spent_until (sv_nonces s') nid until"
  using assms(1)
proof cases
  case (serve env r resp)
  then show ?thesis using assms(2,3) serve_nonces [OF answered_serve] by (fastforce simp: spent_until_Claim)
next
  case (admin h env r resp)
  then show ?thesis using assms(2,3) serve_nonces [OF answered_admin] by (fastforce simp: spent_until_Claim)
next
  case (sweep now)
  then show ?thesis using assms(2,3) by (simp add: sweepAll_def Let_def spent_until_Sweep)
next
  case (hup listenOv c)
  then show ?thesis using assms(2) by (auto simp: sighup_eq Reload_def split: sum.splits if_splits)
qed

lemma spent_steps:
  "steps s evs s' \<Longrightarrow> spent_until (sv_nonces s) nid until \<Longrightarrow> (\<And>e. e \<in> set evs \<Longrightarrow> event_time e < until) \<Longrightarrow>
     spent_until (sv_nonces s') nid until"
  by (induction rule: steps.induct) (auto simp: spent_step)

text \<open>A nonce verified once and again within its window: the claim of the first use lasts past it.\<close>

lemma verified_window:
  assumes "VerifyNonce key nonce sn ip now1 ttl1 p6 = (True, rnd1)" and "is_i64 now1"
    and "VerifyNonce key nonce sn' ip' now2 ttl2 p6' = (True, rnd2)" and "is_i64 now2" and "ttl2 \<le> ttl1"
  shows "rnd2 = rnd1 \<and> now2 < now1 + ttl1"
proof -
  obtain ts1 where i1: "IssueNonce key ts1 rnd1 sn ip p6 = Inr nonce" and f1: "fresh ts1 now1 ttl1"
    using assms(1,2) by (auto simp: VerifyNonce_iff)
  obtain ts2 where i2: "IssueNonce key ts2 rnd2 sn' ip' p6' = Inr nonce" and f2: "fresh ts2 now2 ttl2"
    using assms(3,4) by (auto simp: VerifyNonce_iff)
  have "be64 ts1 = take 8 nonce" "be64 ts2 = take 8 nonce" "rnd1 = take 16 (drop 8 nonce)" "rnd2 = take 16 (drop 8 nonce)"
    using i1 i2 unfolding IssueNonce_Inr_iff by auto
  then have "ts2 = ts1" "rnd2 = rnd1" by (metis be64_inject, simp)
  then show ?thesis using f1 f2 assms(5) by (auto simp: fresh_def)
qed

lemma knock_spends:
  assumes "knock_mints env s r c body nonce rnd t g cookie"
    and "is_i64 (env_now env 1)" and "env_now env 1 + cf_NonceTTL (sv_cfg s) < 2 ^ 63" and "0 < cf_NonceTTL (sv_cfg s)"
  shows "spent_until (sv_nonces (snd (handleRespond env s r))) (B64u rnd) (env_now env 1 + cf_NonceTTL (sv_cfg s))"
proof -
  have "fst (Claim (sv_nonces s) (B64u rnd) (env_now env 1) (cf_NonceTTL (sv_cfg s)))"
    using assms(1) by (simp add: knock_mints_def knock_verified_def)
  moreover have "i64 (env_now env 1 + cf_NonceTTL (sv_cfg s)) = env_now env 1 + cf_NonceTTL (sv_cfg s)"
    using assms(2-4) by (intro i64_id) (simp add: is_i64_def)
  ultimately show ?thesis
    using handleRespond_mints [OF assms(1)] Claim_spends by (simp add: put_grant_def spend_def counted_def)
qed

end
