(* ===== verification/Concurrent.thy ===== *)
theory Concurrent
  imports Programs Runs
begin

text \<open>
  The Authorizer under concurrency. In the source every request runs in its own goroutine, next to the sweeper and the signal
  handler; what they share is guarded piece by piece: the configuration and the registry by \<^verbatim>\<open>Server.mu\<close>, each store, the rate
  limiter and the counters by a mutex of their own. A handler is therefore not one step but a sequence of atomic
  actions, with any number of actions of other goroutines in between.

  Here a handler is a program (\<open>prog\<close>): a tree of atomic actions, each a function of the shared state, one per critical section of the
  source. \<open>alone\<close> runs a program without interference, and gives the handlers of \<^verbatim>\<open>Server\<close> and \<^verbatim>\<open>Admin\<close>. \<open>cstep\<close> interleaves
  any number of programs.
\<close>

section \<open>Handlers\<close>

type_synonym server_prog = "(Server, Response) prog"

text \<open>\<^verbatim>\<open>s.config()\<close> and \<^verbatim>\<open>s.registry()\<close> are reads under the lock of the server. The nonce key never changes.\<close>

definition inc :: "(metrics \<Rightarrow> metrics) \<Rightarrow> server_prog \<Rightarrow> server_prog" where
  "inc f p = modify (\<lambda>s. s\<lparr>sv_metrics := f (sv_metrics s)\<rparr>) p"

definition deny_prog :: "reqCtx option \<Rightarrow> server_prog" where
  "deny_prog c = get sv_cfg (\<lambda>cfg. Reply (if mode_of cfg c = FailStealth then NotFound else interstitial_response))"

definition knockFail_prog :: "reqCtx option \<Rightarrow> server_prog" where
  "knockFail_prog c = inc (\<lambda>m. m\<lparr>m_knockFail := i64 (m_knockFail m + 1)\<rparr>) (deny_prog c)"

definition authzDeny_prog :: "reqCtx option \<Rightarrow> server_prog" where
  "authzDeny_prog c =
     (let answer = (\<lambda>mode. Reply (if mode = FailStealth then StatusOnly 403 [(''Cache-Control'', ''no-store'')] else interstitial_response))
      in get (\<lambda>s. defaultFailureMode (sv_cfg s)) (\<lambda>mode.
           case c of
             Some c \<Rightarrow> if rc_known c then get sv_cfg (\<lambda>cfg. answer (failureMode (rc_svc c))) else answer mode
           | None \<Rightarrow> answer mode))"

definition allow_prog :: "reqCtx \<Rightarrow> Config \<Rightarrow> int \<Rightarrow> (bool \<Rightarrow> server_prog) \<Rightarrow> server_prog" where
  "allow_prog c cfg now k =
     update (\<lambda>s. let (ok, rl) = Allow (sv_rl s) (RateKey (rc_service c) (rc_ip c)) (cf_RateLimit cfg) now
                 in (ok, s\<lparr>sv_rl := rl\<rparr>)) k"

definition challenge_prog :: "Env \<Rightarrow> Request \<Rightarrow> server_prog" where
  "challenge_prog env r =
     get (\<lambda>s. resolve env s r) (\<lambda>c.
       case c of
         None \<Rightarrow> deny_prog None
       | Some c \<Rightarrow>
           if \<not> rc_known c then deny_prog (Some c)
           else if rq_Method r \<noteq> ''GET'' then deny_prog (Some c)
           else
             get sv_cfg (\<lambda>cfg.
             allow_prog c cfg (env_now env 0) (\<lambda>ok.
               if \<not> ok then knockFail_prog (Some c)
               else
                 (case RandomBytes 16 (env_draw env 0) of
                    Inl err \<Rightarrow> deny_prog (Some c)
                  | Inr rnd \<Rightarrow>
                      get sv_nonceKey (\<lambda>nonceKey.
                        let ts = env_now env 1 in
                        (case IssueNonce nonceKey (word_of_int ts) rnd (rc_service c) (rc_ip c) (cf_IPv6Prefix cfg) of
                           Inl err \<Rightarrow> deny_prog (Some c)
                         | Inr nonce \<Rightarrow>
                             Reply (NoContent [(''X-Jit-Nonce'', B64u nonce), (''X-Jit-Ts'', FormatInt ts),
                                               (''Cache-Control'', ''no-store'')])))))))"

text \<open>The grant of a verified knock, under the configuration the handler read.\<close>

definition mint_under :: "Env \<Rightarrow> Config \<Rightarrow> reqCtx \<Rightarrow> string \<Rightarrow> Token \<Rightarrow> rand_error + (Grant \<times> (string \<times> string) list)" where
  "mint_under env cfg c kid token =
     (let now = env_now env 1;
          ttl = grantTTL cfg (rc_svc c);
          g = \<lparr>g_V = 1, g_Kid = kid, g_Service = rc_service c, g_IP = rc_ip c,
               g_Binding = binding (rc_svc c), g_CookieHash = [], g_Issued = now,
               g_Exp = i64 (now + ttl), g_Manual = False, g_SecretFP = Fingerprint (Some token)\<rparr>
      in if g_Binding g = BindingIPCookie then
           (case RandomBytes 32 (env_draw env 0) of
              Inl err \<Rightarrow> Inl err
            | Inr idBytes \<Rightarrow>
                let cid = B64u idBytes
                in Inr (g\<lparr>g_CookieHash := CookieHash cid\<rparr>,
                        [(''Set-Cookie'', cookie_string GrantCookieName cid ttl)]))
         else Inr (g, []))"

definition claim_prog :: "string \<Rightarrow> int \<Rightarrow> int \<Rightarrow> (bool \<Rightarrow> server_prog) \<Rightarrow> server_prog" where
  "claim_prog nid now ttl k =
     update (\<lambda>s. let (ok, nonces) = Claim (sv_nonces s) nid now ttl in (ok, s\<lparr>sv_nonces := nonces\<rparr>)) k"

definition put_prog :: "Grant \<Rightarrow> string list \<Rightarrow> server_prog \<Rightarrow> server_prog" where
  "put_prog g ohs p = modify (\<lambda>s. s\<lparr>sv_grants := Put (sv_grants s) (Some g) ohs\<rparr>) p"

text \<open>The knock from the claim of its nonce on.\<close>

definition accept_prog :: "Env \<Rightarrow> Request \<Rightarrow> reqCtx \<Rightarrow> Config \<Rightarrow> string \<Rightarrow> Token \<Rightarrow> bytes \<Rightarrow> server_prog" where
  "accept_prog env r c cfg kid token rnd =
     claim_prog (B64u rnd) (env_now env 1) (cf_NonceTTL cfg) (\<lambda>ok.
       if \<not> ok then knockFail_prog (Some c)
       else
         (case mint_under env cfg c kid token of
            Inl err \<Rightarrow> knockFail_prog (Some c)
          | Inr (g, cookie) \<Rightarrow>
              put_prog g [oldCookieHash r]
                (inc (\<lambda>m. m\<lparr>m_knockOK := i64 (m_knockOK m + 1)\<rparr>)
                  (Reply (NoContent (cookie @ [(''Cache-Control'', ''no-store'')]))))))"

definition verify_prog :: "Env \<Rightarrow> Request \<Rightarrow> reqCtx \<Rightarrow> Config \<Rightarrow> respondBody \<Rightarrow> server_prog" where
  "verify_prog env r c cfg body =
     (case (B64uDecode (rb_Nonce body), B64uDecode (rb_Proof body)) of
        (Inr nonceRaw, Inr tag) \<Rightarrow>
          if length nonceRaw \<noteq> NonceLen \<or> length tag \<noteq> 32 then knockFail_prog (Some c)
          else
            get sv_nonceKey (\<lambda>nonceKey.
              let now = env_now env 1;
                  (okNonce, rnd) = VerifyNonce nonceKey nonceRaw (rc_service c) (rc_ip c) now (cf_NonceTTL cfg) (cf_IPv6Prefix cfg)
              in if \<not> okNonce then knockFail_prog (Some c)
                 else
                   get sv_reg (\<lambda>reg.
                     let auth = Authorize (Some reg) (rb_Kid body) (rc_service c) now;
                         secret = (case auth of Inr t \<Rightarrow> tok_Secret t | Inl err \<Rightarrow> dummySecret);
                         proofOK = VerifyProof secret (rc_service c) (rb_Kid body) nonceRaw tag
                     in (case auth of
                           Inl err \<Rightarrow> knockFail_prog (Some c)
                         | Inr token \<Rightarrow>
                             if \<not> proofOK then knockFail_prog (Some c)
                             else accept_prog env r c cfg (rb_Kid body) token rnd)))
      | _ \<Rightarrow> knockFail_prog (Some c))"

definition respond_prog :: "Env \<Rightarrow> Request \<Rightarrow> server_prog" where
  "respond_prog env r =
     get (\<lambda>s. resolve env s r) (\<lambda>c.
       case c of
         None \<Rightarrow> deny_prog None
       | Some c \<Rightarrow>
           if \<not> rc_known c then deny_prog (Some c)
           else if rq_Method r \<noteq> ''POST'' then deny_prog (Some c)
           else
             get sv_cfg (\<lambda>cfg.
             allow_prog c cfg (env_now env 0) (\<lambda>ok.
               if \<not> ok then knockFail_prog (Some c)
               else
                 (case env_respond env 4096 (rq_Body r) of
                    None \<Rightarrow> knockFail_prog (Some c)
                  | Some body \<Rightarrow> verify_prog env r c cfg body))))"

definition release_prog :: "EnrollCode \<Rightarrow> Token \<Rightarrow> server_prog" where
  "release_prog code token =
     inc (\<lambda>m. m\<lparr>m_enrollOK := i64 (m_enrollOK m + 1)\<rparr>)
       (Reply (NoContent [(''X-Jit-Kid'', ec_Kid code), (''X-Jit-Secret'', B64u (tok_Secret token)),
                          (''X-Jit-Origins'', Join (ec_Origins code) '',''), (''Cache-Control'', ''no-store'')]))"

definition enroll_prog :: "Env \<Rightarrow> Request \<Rightarrow> server_prog" where
  "enroll_prog env r =
     get (\<lambda>s. resolve env s r) (\<lambda>c.
       case c of
         None \<Rightarrow> deny_prog None
       | Some c \<Rightarrow>
           if \<not> rc_known c then deny_prog (Some c)
           else if rq_Method r \<noteq> ''POST'' then deny_prog (Some c)
           else
             get sv_cfg (\<lambda>cfg.
             allow_prog c cfg (env_now env 0) (\<lambda>ok.
               if \<not> ok then knockFail_prog (Some c)
               else
                 (case env_enroll env 4096 (rq_Body r) of
                    None \<Rightarrow> deny_prog (Some c)
                  | Some body \<Rightarrow>
                      if eb_Code body = [] then deny_prog (Some c)
                      else
                        get (\<lambda>s. Peek (sv_codes s) (eb_Code body) (env_now env 1)) (\<lambda>peek.
                          case peek of
                            None \<Rightarrow> knockFail_prog (Some c)
                          | Some peek \<Rightarrow>
                              get sv_reg (\<lambda>reg.
                                if Lookup (Some reg) (ec_Kid peek) = None then knockFail_prog (Some c)
                                else
                                  update (\<lambda>s. let (code, codes) = Consume (sv_codes s) (eb_Code body) (env_now env 2)
                                              in (code, s\<lparr>sv_codes := codes\<rparr>)) (\<lambda>code.
                                    case code of
                                      None \<Rightarrow> knockFail_prog (Some c)
                                    | Some code \<Rightarrow>
                                        get sv_reg (\<lambda>reg.
                                          case Lookup (Some reg) (ec_Kid code) of
                                            None \<Rightarrow> deny_prog (Some c)
                                          | Some token \<Rightarrow> release_prog code token))))))))"

definition register_prog :: "Env \<Rightarrow> Request \<Rightarrow> server_prog" where
  "register_prog env r =
     get (\<lambda>s. resolve env s r) (\<lambda>c.
       case c of
         None \<Rightarrow> deny_prog None
       | Some c \<Rightarrow>
           if \<not> rc_known c then deny_prog (Some c)
           else if rq_Method r \<noteq> ''GET'' then deny_prog (Some c)
           else
             get sv_cfg (\<lambda>cfg.
               if failureMode (rc_svc c) = FailStealth then deny_prog (Some c)
               else
                 Reply \<lparr>rs_Status = 200,
                        rs_Header = [(''Content-Type'', ''text/html; charset=utf-8''), (''Cache-Control'', ''no-store''),
                                     (''Referrer-Policy'', ''no-referrer'')],
                        rs_Body = RegisterHTML\<rparr>))"

definition refused_prog :: "reqCtx \<Rightarrow> server_prog" where
  "refused_prog c = inc (\<lambda>m. m\<lparr>m_denied := i64 (m_denied m + 1)\<rparr>) (authzDeny_prog (Some c))"

definition check_prog :: "Env \<Rightarrow> Request \<Rightarrow> reqCtx \<Rightarrow> server_prog" where
  "check_prog env r c =
     get sv_reg (\<lambda>reg.
     get (\<lambda>s. IsAllowed (sv_grants s) (rc_service c) (rc_ip c) (Some reg) (env_now env 0) (grant_cookie r)) (\<lambda>g.
       case g of
         Some g \<Rightarrow>
           if binding (rc_svc c) = BindingIPCookie \<and> g_Binding g \<noteq> BindingIPCookie then refused_prog c
           else inc (\<lambda>m. m\<lparr>m_granted := i64 (m_granted m + 1)\<rparr>) (Reply (NoContent [(''X-Jit-Kid'', g_Kid g)]))
       | None \<Rightarrow> refused_prog c))"

definition target_prog :: "Env \<Rightarrow> Request \<Rightarrow> reqCtx \<Rightarrow> server_prog" where
  "target_prog env r c =
     get sv_cfg (\<lambda>cfg.
       if isProtocolURI (cf_URIPrefix cfg) (rc_uri c) then Reply (NoContent [])
       else if \<not> rc_known c then authzDeny_prog (Some c)
       else check_prog env r c)"

definition authz_prog :: "Env \<Rightarrow> Request \<Rightarrow> server_prog" where
  "authz_prog env r =
     (case peerAddr r of
        None \<Rightarrow> Reply (text_error ''forbidden'' 403)
      | Some peer \<Rightarrow>
          get (\<lambda>s. isTrusted (sv_cfg s) peer) (\<lambda>trusted.
            if \<not> trusted then Reply (text_error ''forbidden'' 403)
            else
              get (\<lambda>s. resolve env s r) (\<lambda>c.
                case c of
                  None \<Rightarrow> authzDeny_prog None
                | Some c \<Rightarrow> target_prog env r c)))"

section \<open>The admin API\<close>

definition admin_grant_under :: "AdminEnv \<Rightarrow> Config \<Rightarrow> Registry \<Rightarrow> grantBody \<Rightarrow> string \<Rightarrow> string \<Rightarrow> Grant" where
  "admin_grant_under env cfg reg body service ip =
     (let ttl = (if gb_TTL body \<le> 0 then cf_GrantTTL cfg else gb_TTL body);
          kid = (if gb_Kid body = [] then ''__manual__'' else gb_Kid body);
          manual = (gb_Kid body = []);
          now = env_now env 0
      in \<lparr>g_V = 1, g_Kid = kid, g_Service = service, g_IP = ip, g_Binding = BindingIP,
          g_CookieHash = [], g_Issued = now, g_Exp = i64 (now + ttl), g_Manual = manual,
          g_SecretFP = Fingerprint (Lookup (Some reg) kid)\<rparr>)"

definition adminGrants_prog :: "AdminEnv \<Rightarrow> server_prog" where
  "adminGrants_prog env =
     get (\<lambda>s. List (sv_grants s) (env_now env 0)) (\<lambda>list.
       Reply (writeJSON 200 (JObject [(''count'', JInt (int (length list))), (''grants'', JArray (map grant_json list))])))"

definition adminGrant_prog :: "AdminEnv \<Rightarrow> Request \<Rightarrow> server_prog" where
  "adminGrant_prog env r =
     (case decodeJSON (env_grant env) r of
        Inl resp \<Rightarrow> Reply resp
      | Inr body \<Rightarrow>
          get sv_cfg (\<lambda>cfg.
            let service = CanonServerName (gb_Service body)
            in case CanonIP (gb_IP body) (cf_IPv6Prefix cfg) 32 of
                 Inl err \<Rightarrow> Reply (writeJSON 400 (json_error ''service and valid ip required''))
               | Inr ip \<Rightarrow>
                   if service = [] then Reply (writeJSON 400 (json_error ''service and valid ip required''))
                   else
                     get sv_reg (\<lambda>reg.
                       let g = admin_grant_under env cfg reg body service ip
                       in put_prog g []
                            (Reply (writeJSON 200 (JObject [(''exp'', JInt (g_Exp g)), (''granted'', JBool True),
                                                            (''ip'', JString ip), (''service'', JString service)]))))))"

definition adminRevoke_prog :: "AdminEnv \<Rightarrow> Request \<Rightarrow> server_prog" where
  "adminRevoke_prog env r =
     (case decodeJSON (env_revoke env) r of
        Inl resp \<Rightarrow> Reply resp
      | Inr body \<Rightarrow>
          get sv_cfg (\<lambda>cfg.
            let service = CanonServerName (vb_Service body)
            in case CanonIP (vb_IP body) (cf_IPv6Prefix cfg) 32 of
                 Inl err \<Rightarrow> Reply (writeJSON 400 (json_error ''service and valid ip required''))
               | Inr ip \<Rightarrow>
                   if service = [] then Reply (writeJSON 400 (json_error ''service and valid ip required''))
                   else
                     update (\<lambda>s. let (removed, grants) = Revoke (sv_grants s) service ip in (removed, s\<lparr>sv_grants := grants\<rparr>))
                       (\<lambda>removed. Reply (writeJSON 200 (JObject [(''revoked'', JBool removed)])))))"

definition adminRevokeToken_prog :: "AdminEnv \<Rightarrow> Request \<Rightarrow> server_prog" where
  "adminRevokeToken_prog env r =
     (case decodeJSON (env_revokeToken env) r of
        Inl resp \<Rightarrow> Reply resp
      | Inr body \<Rightarrow>
          if vt_Kid body = [] then Reply (writeJSON 400 (json_error ''kid required''))
          else
            update (\<lambda>s. let (n, grants) = RevokeToken (sv_grants s) (vt_Kid body) in (n, s\<lparr>sv_grants := grants\<rparr>)) (\<lambda>n.
              Reply (writeJSON 200 (JObject [(''grants_removed'', JInt n), (''revoked_token'', JString (vt_Kid body))]))))"

definition adminEnrollCode_prog :: "AdminEnv \<Rightarrow> Request \<Rightarrow> server_prog" where
  "adminEnrollCode_prog env r =
     (case decodeJSON (env_enrollCode env) r of
        Inl resp \<Rightarrow> Reply resp
      | Inr body \<Rightarrow>
          get sv_reg (\<lambda>reg.
            if Lookup (Some reg) (cb_Kid body) = None then Reply (writeJSON 400 (json_error ''known kid required''))
            else
              get sv_cfg (\<lambda>cfg.
                let ttl = (if cb_TTL body \<le> 0 then cf_EnrollTTL cfg else cb_TTL body);
                    ttl = (if ttl < 300 then 300 else ttl);
                    ttl = (if ttl > 604800 then 604800 else ttl)
                in case RandomBytes 12 (env_draw env 0) of
                     Inl err \<Rightarrow> Reply (writeJSON 500 (json_error ''rng''))
                   | Inr rnd \<Rightarrow>
                       let code = B64u rnd;
                           origins = (case cb_Origins body of None \<Rightarrow> [] | Some os \<Rightarrow> os);
                           register =
                             (if HasPrefix (cb_Server body) ''https://'' then
                                [(''register_url'', JString (TrimRight (cb_Server body) ''/'' @ cf_URIPrefix cfg @
                                   ''/register?code='' @ code @
                                   (if origins \<noteq> [] then ''&origins='' @ Join origins '','' else [])))]
                              else [])
                       in update (\<lambda>s. ((), s\<lparr>sv_codes := Put_es (sv_codes s) code
                                   \<lparr>ec_Kid = cb_Kid body, ec_Origins = origins, ec_Exp = i64 (env_now env 0 + ttl)\<rparr>\<rparr>)) (\<lambda>_.
                            Reply (writeJSON 200 (JObject ([(''code'', JString code), (''kid'', JString (cb_Kid body)),
                              (''origins'', case cb_Origins body of None \<Rightarrow> JNull | Some os \<Rightarrow> JArray (map JString os))] @
                              register @ [(''ttl'', JInt ttl)])))))))"

definition admin_prog :: "AdminEnv \<Rightarrow> Request \<Rightarrow> server_prog" where
  "admin_prog env r =
     get sv_cfg (\<lambda>cfg.
       if (case peerAddr r of None \<Rightarrow> True | Some peer \<Rightarrow> \<not> isTrusted cfg peer)
       then Reply (text_error ''forbidden'' 403)
       else if cf_AdminToken cfg = []
       then Reply (text_error ''admin API disabled (no admin_token configured)'' 403)
       else if TrimPrefix (Header_Get r ''Authorization'') ''Bearer '' \<noteq> cf_AdminToken cfg
       then Reply (text_error ''unauthorized'' 401)
       else if rq_Path r = ''/admin/grants'' then adminGrants_prog env
       else if rq_Path r = ''/admin/grant'' then adminGrant_prog env r
       else if rq_Path r = ''/admin/revoke'' then adminRevoke_prog env r
       else if rq_Path r = ''/admin/revoke-token'' then adminRevokeToken_prog env r
       else if rq_Path r = ''/admin/enroll-code'' then adminEnrollCode_prog env r
       else if rq_Path r = ''/admin/metrics'' then get (\<lambda>s. snapshot (sv_metrics s)) (\<lambda>m. Reply (writeJSON 200 m))
       else Reply NotFound)"

section \<open>Goroutines\<close>

definition route_prog :: "AdminEnv \<Rightarrow> route \<Rightarrow> Request \<Rightarrow> server_prog" where
  "route_prog env rt r =
     (case rt of
        RChallenge \<Rightarrow> challenge_prog (Env.truncate env) r
      | RRespond \<Rightarrow> respond_prog (Env.truncate env) r
      | REnroll \<Rightarrow> enroll_prog (Env.truncate env) r
      | RRegister \<Rightarrow> register_prog (Env.truncate env) r
      | RAuthz \<Rightarrow> authz_prog (Env.truncate env) r
      | RHealthz \<Rightarrow> Reply (NoContent [])
      | RAdmin \<Rightarrow> admin_prog env r
      | RAdminSlash \<Rightarrow> Reply (Redirect r (mux_clean (rq_Path r) @ ''/''))
      | RNotFound \<Rightarrow> Reply NotFound)"

text \<open>One tick of the sweeper: four sweeps, each under the lock of its store.\<close>

definition tick_prog :: "int \<Rightarrow> server_prog" where
  "tick_prog now =
     modify (\<lambda>s. s\<lparr>sv_grants := snd (Sweep (sv_grants s) now)\<rparr>)
     (modify (\<lambda>s. s\<lparr>sv_nonces := snd (Sweep_ns (sv_nonces s) now)\<rparr>)
     (modify (\<lambda>s. s\<lparr>sv_codes := snd (Sweep_es (sv_codes s) now)\<rparr>)
     (modify (\<lambda>s. s\<lparr>sv_rl := snd (Sweep_rl (sv_rl s) now)\<rparr>) Finish)))"

definition hup_prog :: "string \<Rightarrow> 'e + Config \<Rightarrow> server_prog" where
  "hup_prog listenOv loaded = modify (sighup listenOv loaded) Finish"

text \<open>What runs in a goroutine: a request that was dispatched to a handler, a tick, a reload.\<close>

datatype job = Handle route AdminEnv Request | Tick int | Sighup string Config

fun job_prog :: "job \<Rightarrow> server_prog" where
  "job_prog (Handle rt env r) = route_prog env rt r"
| "job_prog (Tick now) = tick_prog now"
| "job_prog (Sighup listenOv c) = hup_prog listenOv (finalize c)"

section \<open>Without interference\<close>

lemma alone_inc [simp]: "alone (inc f p) s = alone p (s\<lparr>sv_metrics := f (sv_metrics s)\<rparr>)"
  by (simp add: inc_def)

lemma alone_allow [simp]:
  "alone (allow_prog c cfg now k) s =
     (case Allow (sv_rl s) (RateKey (rc_service c) (rc_ip c)) (cf_RateLimit cfg) now of (ok, rl) \<Rightarrow> alone (k ok) (s\<lparr>sv_rl := rl\<rparr>))"
  by (simp add: allow_prog_def split: prod.splits)

lemma alone_claim [simp]:
  "alone (claim_prog nid now ttl k) s =
     (case Claim (sv_nonces s) nid now ttl of (ok, nonces) \<Rightarrow> alone (k ok) (s\<lparr>sv_nonces := nonces\<rparr>))"
  by (simp add: claim_prog_def split: prod.splits)

lemma alone_put [simp]: "alone (put_prog g ohs p) s = alone p (s\<lparr>sv_grants := Put (sv_grants s) (Some g) ohs\<rparr>)"
  by (simp add: put_prog_def)

lemma alone_deny [simp]: "alone (deny_prog c) s = (Some (deny s c), s)"
  by (simp add: deny_prog_def deny_def)

lemma alone_knockFail [simp]: "alone (knockFail_prog c) s = apfst Some (knockFail s c)"
  by (simp add: knockFail_prog_def knockFail_eq)

lemma alone_authzDeny [simp]: "alone (authzDeny_prog c) s = (Some (authzDeny s c), s)"
  by (simp add: authzDeny_prog_def authzDeny_def mode_of_def Let_def split: option.splits)

lemma alone_challenge: "alone (challenge_prog env r) s = apfst Some (handleChallenge env s r)"
  by (simp add: challenge_prog_def handleChallenge_def Let_def split: option.splits prod.splits sum.splits)

lemma mint_under_eq: "mintGrant env s c kid t = mint_under env (sv_cfg s) c kid t"
  by (simp add: mintGrant_def mint_under_def Let_def)

lemma alone_verify:
  "alone (verify_prog env r c (sv_cfg s) body) s =
     (case verifyKnock env s c body of
        (None, s) \<Rightarrow> apfst Some (knockFail s (Some c))
      | (Some token, s) \<Rightarrow>
          (case mintGrant env s c (rb_Kid body) token of
             Inl err \<Rightarrow> apfst Some (knockFail s (Some c))
           | Inr (g, cookie) \<Rightarrow>
               let s = s\<lparr>sv_grants := Put (sv_grants s) (Some g) [oldCookieHash r]\<rparr>;
                   s = s\<lparr>sv_metrics := (sv_metrics s)\<lparr>m_knockOK := i64 (m_knockOK (sv_metrics s) + 1)\<rparr>\<rparr>
               in (Some (NoContent (cookie @ [(''Cache-Control'', ''no-store'')])), s)))"
  by (simp add: verify_prog_def accept_prog_def verifyKnock_def mint_under_eq Let_def split: prod.splits sum.splits)

lemma alone_respond: "alone (respond_prog env r) s = apfst Some (handleRespond env s r)"
proof -
  have cfg: "alone (verify_prog env r c (sv_cfg s) body) (s\<lparr>sv_rl := rl\<rparr>) =
      apfst Some (case verifyKnock env (s\<lparr>sv_rl := rl\<rparr>) c body of
        (None, s) \<Rightarrow> knockFail s (Some c)
      | (Some token, s) \<Rightarrow>
          (case mintGrant env s c (rb_Kid body) token of
             Inl err \<Rightarrow> knockFail s (Some c)
           | Inr (g, cookie) \<Rightarrow>
               let s = s\<lparr>sv_grants := Put (sv_grants s) (Some g) [oldCookieHash r]\<rparr>;
                   s = s\<lparr>sv_metrics := (sv_metrics s)\<lparr>m_knockOK := i64 (m_knockOK (sv_metrics s) + 1)\<rparr>\<rparr>
               in (NoContent (cookie @ [(''Cache-Control'', ''no-store'')]), s)))" for c body rl
    using alone_verify [of env r c "s\<lparr>sv_rl := rl\<rparr>" body] by (simp add: Let_def split: prod.splits option.splits sum.splits)
  show ?thesis
    by (simp add: respond_prog_def handleRespond_def cfg Let_def split: option.splits prod.splits)
qed

lemma alone_enroll: "alone (enroll_prog env r) s = apfst Some (handleEnroll env s r)"
  by (auto simp: enroll_prog_def handleEnroll_def release_prog_def Let_def split: option.splits prod.splits)

lemma alone_register: "alone (register_prog env r) s = apfst Some (handleRegister env s r)"
  by (simp add: register_prog_def handleRegister_def split: option.splits)

lemma alone_authz: "alone (authz_prog env r) s = apfst Some (handleAuthz env s r)"
  by (simp add: authz_prog_def target_prog_def check_prog_def refused_prog_def handleAuthz_def denied_def authzDeny_def Let_def split: option.splits)

lemma admin_grant_under_eq: "adminGrantRecord env s body svc ip = admin_grant_under env (sv_cfg s) (sv_reg s) body svc ip"
  by (simp add: adminGrantRecord_def admin_grant_under_def)

lemma alone_admin: "alone (admin_prog env r) s = apfst Some (handleAdmin env s r)"
proof -
  have "alone (adminGrant_prog env r) s = apfst Some (adminGrant env s r)"
    by (simp add: adminGrant_prog_def adminGrant_def admin_grant_under_eq Let_def split: sum.splits)
  moreover have "alone (adminRevoke_prog env r) s = apfst Some (adminRevoke env s r)"
    by (simp add: adminRevoke_prog_def adminRevoke_def Let_def split: sum.splits prod.splits)
  moreover have "alone (adminRevokeToken_prog env r) s = apfst Some (adminRevokeToken env s r)"
    by (simp add: adminRevokeToken_prog_def adminRevokeToken_def Let_def split: sum.splits prod.splits)
  moreover have "alone (adminEnrollCode_prog env r) s = apfst Some (adminEnrollCode env s r)"
    by (simp add: adminEnrollCode_prog_def adminEnrollCode_def Let_def split: sum.splits)
  ultimately show ?thesis
    by (simp add: admin_prog_def handleAdmin_def adminGrants_prog_def adminGrants_def Let_def split: option.splits)
qed

lemmas alone_handlers = alone_challenge alone_respond alone_enroll alone_register alone_authz alone_admin

lemma alone_route: "alone (route_prog env rt r) s = apfst Some (serve_route env rt s r)"
  by (cases rt) (simp_all add: route_prog_def serve_route_def alone_handlers)

lemma alone_tick: "alone (tick_prog now) s = (None, sweepAll s now)"
  by (simp add: tick_prog_def sweepAll_def Let_def)

lemma alone_hup: "alone (hup_prog listenOv loaded) s = (None, sighup listenOv loaded s)"
  by (simp add: hup_prog_def)

section \<open>Interleaving\<close>

text \<open>A listener reads the routing table and starts the handler of the route. (What it answers itself, a path it refuses or a redirect to the
  cleaned one, does not touch the shared state and starts no handler.) Ticks and signals come at any time.\<close>

definition routed :: "(string \<Rightarrow> route) \<Rightarrow> Request \<Rightarrow> route option" where
  "routed router r =
     (let path = mux_clean (rq_EscapedPath r); rt = router path
      in if rt \<noteq> RAdminSlash \<and> path \<noteq> rq_EscapedPath r then None else Some rt)"

fun dispatches :: "Server \<Rightarrow> job \<Rightarrow> bool" where
  "dispatches s (Handle rt env r) \<longleftrightarrow>
     \<not> muxWouldRedirect (rq_Path r) \<and> (case sv_mux s of None \<Rightarrow> False | Some mux \<Rightarrow> routed (mux_route mux) r = Some rt) \<or>
     cf_AdminListen (sv_cfg s) \<noteq> [] \<and> routed admin_route r = Some rt"
| "dispatches s (Tick now) \<longleftrightarrow> True"
| "dispatches s (Sighup listenOv c) \<longleftrightarrow> True"

lemma dispatched_serve:
  assumes "dispatches s (Handle rt env r)"
  shows "serve env s r = Some (serve_route env rt s r) \<or> (\<exists>h. AdminHandler s = Some h \<and> h env s r = serve_route env rt s r)"
  using assms by (auto simp: serve_def AdminHandler_def mux_serve_def routed_def Let_def split: option.splits if_splits)

type_synonym System = "(Server, Response, job) system"

abbreviation cstep :: "System \<Rightarrow> System \<Rightarrow> bool" where
  "cstep \<equiv> gstep job_prog dispatches"

text \<open>An execution from a state of the server: the successive states of the system.\<close>

abbreviation execution :: "Server \<Rightarrow> System list \<Rightarrow> bool" where
  "execution \<equiv> grun job_prog dispatches"

lemma handled_alone [simp]:
  "alone (route_prog env rt r) s = (Some (fst (serve_route env rt s r)), snd (serve_route env rt s r))"
  by (simp add: alone_route apfst_def map_prod_def case_prod_beta)

end
