(* ===== verification/Interference.thy ===== *)
theory Interference
  imports Concurrent
begin

text \<open>
  Rely-guarantee for the goroutines of the Authorizer. \<open>effect\<close> lists what a job can do to the shared state in one atomic action, with all that is known at that
  moment; \<open>job_guarantees\<close> shows that the programs do nothing else, as long as the others keep the configuration, the registry and the nonce
  key in order. Properties of all interleavings are then case distinctions over \<open>effect\<close>: locales \<open>authorizer_rely\<close> and \<open>authorizer_metered\<close> give the generic
  ones of \<open>Programs\<close>.
\<close>

abbreviation no_content :: "Response \<Rightarrow> bool" where
  "no_content resp \<equiv> rs_Status resp = 204"

section \<open>What a job can do\<close>

text \<open>A state in the middle of an execution: its configuration is one of \<open>Cs\<close>, with its registry, and the nonce key is \<open>key\<close>.\<close>

definition in_force :: "Config set \<Rightarrow> bytes \<Rightarrow> Server \<Rightarrow> bool" where
  "in_force Cs key s \<longleftrightarrow> sv_cfg s \<in> Cs \<and> Config_Registry (sv_cfg s) = Inr (sv_reg s) \<and> sv_nonceKey s = key"

text \<open>A knock that checks out under configurations of \<open>Cs\<close>. The handler reads the configuration twice and the registry once; a reload may
  come in between.\<close>

definition knock_under ::
  "Config set \<Rightarrow> bytes \<Rightarrow> Env \<Rightarrow> Request \<Rightarrow> reqCtx \<Rightarrow> Config \<Rightarrow> respondBody \<Rightarrow> bytes \<Rightarrow> bytes \<Rightarrow> Token \<Rightarrow> bool" where
  "knock_under Cs key env r c cfg body nonce rnd t \<longleftrightarrow>
     (\<exists>s. in_force Cs key s \<and> resolve env s r = Some c) \<and> rc_known c \<and> rq_Method r = ''POST'' \<and> cfg \<in> Cs \<and>
     env_respond env 4096 (rq_Body r) = Some body \<and> B64uDecode (rb_Nonce body) = Inr nonce \<and>
     VerifyNonce key nonce (rc_service c) (rc_ip c) (env_now env 1) (cf_NonceTTL cfg) (cf_IPv6Prefix cfg) = (True, rnd) \<and>
     (\<exists>s. in_force Cs key s \<and> permits (Some (sv_reg s)) (rb_Kid body) (rc_service c) (env_now env 1) t) \<and>
     (\<exists>tag. B64uDecode (rb_Proof body) = Inr tag \<and> VerifyProof (tok_Secret t) (rc_service c) (rb_Kid body) nonce tag)"

text \<open>A grant an administrator makes under configurations of \<open>Cs\<close>.\<close>

definition admin_under :: "Config set \<Rightarrow> bytes \<Rightarrow> AdminEnv \<Rightarrow> Request \<Rightarrow> Grant \<Rightarrow> bool" where
  "admin_under Cs key env r g \<longleftrightarrow>
     (\<exists>s. in_force Cs key s \<and> admin_auth s r) \<and> rq_Path r = ''/admin/grant'' \<and>
     (\<exists>body ip cfg reg. cfg \<in> Cs \<and> env_grant env 65536 (rq_Body r) = Some body \<and>
        CanonIP (gb_IP body) (cf_IPv6Prefix cfg) 32 = Inr ip \<and> CanonServerName (gb_Service body) \<noteq> [] \<and>
        g = admin_grant_under env cfg reg body (CanonServerName (gb_Service body)) ip)"

inductive effect :: "Config set \<Rightarrow> bytes \<Rightarrow> job \<Rightarrow> Server \<Rightarrow> Server \<Rightarrow> bool" for Cs key where
  reads: "effect Cs key j s s"
| counts: "effect Cs key (Handle rt env r) s (s\<lparr>sv_metrics := m\<rparr>)"
| throttles: "effect Cs key (Handle rt env r) s (s\<lparr>sv_rl := snd (Allow (sv_rl s) k n now)\<rparr>)"
| claims: "knock_under Cs key (Env.truncate env) r c cfg body nonce rnd t \<Longrightarrow>
    effect Cs key (Handle RRespond env r) s
      (s\<lparr>sv_nonces := snd (Claim (sv_nonces s) (B64u rnd) (env_now env 1) (cf_NonceTTL cfg))\<rparr>)"
| grants: "knock_under Cs key (Env.truncate env) r c cfg body nonce rnd t \<Longrightarrow>
    mint_under (Env.truncate env) cfg c (rb_Kid body) t = Inr (g, cookie) \<Longrightarrow>
    effect Cs key (Handle RRespond env r) s (s\<lparr>sv_grants := Put (sv_grants s) (Some g) [oldCookieHash r]\<rparr>)"
| consumes: "effect Cs key (Handle REnroll env r) s (s\<lparr>sv_codes := snd (Consume (sv_codes s) code now)\<rparr>)"
| admin_grants: "admin_under Cs key env r g \<Longrightarrow>
    effect Cs key (Handle RAdmin env r) s (s\<lparr>sv_grants := Put (sv_grants s) (Some g) []\<rparr>)"
| revokes: "effect Cs key (Handle RAdmin env r) s (s\<lparr>sv_grants := snd (Revoke (sv_grants s) svc ip)\<rparr>)"
| revokes_token: "effect Cs key (Handle RAdmin env r) s (s\<lparr>sv_grants := snd (RevokeToken (sv_grants s) kid)\<rparr>)"
| codes: "RandomBytes 12 (env_draw env 0) = Inr rnd \<Longrightarrow>
    effect Cs key (Handle RAdmin env r) s (s\<lparr>sv_codes := Put_es (sv_codes s) (B64u rnd) ec\<rparr>)"
| sweeps_grants: "effect Cs key (Tick now) s (s\<lparr>sv_grants := snd (Sweep (sv_grants s) now)\<rparr>)"
| sweeps_nonces: "effect Cs key (Tick now) s (s\<lparr>sv_nonces := snd (Sweep_ns (sv_nonces s) now)\<rparr>)"
| sweeps_codes: "effect Cs key (Tick now) s (s\<lparr>sv_codes := snd (Sweep_es (sv_codes s) now)\<rparr>)"
| sweeps_rl: "effect Cs key (Tick now) s (s\<lparr>sv_rl := snd (Sweep_rl (sv_rl s) now)\<rparr>)"
| reloads: "effect Cs key (Sighup listenOv c) s (sighup listenOv (finalize c) s)"

lemma guarantees_inc [simp]:
  "guarantees (in_force Cs key) (effect Cs key (Handle rt env r)) (inc f p) =
     ((\<exists>s. in_force Cs key s) \<longrightarrow> guarantees (in_force Cs key) (effect Cs key (Handle rt env r)) p)"
  by (auto simp: inc_def effect.counts)

lemma guarantees_deny [simp]: "guarantees (in_force Cs key) (effect Cs key (Handle rt env r)) (deny_prog c)"
  by (simp add: deny_prog_def effect.reads)

lemma guarantees_knockFail [simp]: "guarantees (in_force Cs key) (effect Cs key (Handle rt env r)) (knockFail_prog c)"
  by (simp add: knockFail_prog_def)

lemma guarantees_authzDeny [simp]: "guarantees (in_force Cs key) (effect Cs key (Handle rt env r)) (authzDeny_prog c)"
  by (simp add: authzDeny_prog_def effect.reads Let_def split: option.splits)

lemma guarantees_allow:
  assumes "\<And>ok. guarantees (in_force Cs key) (effect Cs key (Handle rt env r)) (k ok)"
  shows "guarantees (in_force Cs key) (effect Cs key (Handle rt env r)) (allow_prog c cfg now k)"
  using assms by (auto simp: allow_prog_def case_prod_beta intro: effect.throttles)

lemma guarantees_challenge: "guarantees (in_force Cs key) (effect Cs key (Handle RChallenge env r)) (challenge_prog env' r')"
  by (auto simp: challenge_prog_def effect.reads Let_def split: option.splits sum.splits intro!: guarantees_allow)

lemma truncate_simps [simp]:
  "env_now (Env.truncate env) = env_now env" "env_draw (Env.truncate env) = env_draw env"
  "env_respond (Env.truncate env) = env_respond env" "env_enroll (Env.truncate env) = env_enroll env"
  by (simp_all add: Env.truncate_def)

lemma guarantees_accept:
  assumes "knock_under Cs key (Env.truncate env) r c cfg body nonce rnd t"
  shows "guarantees (in_force Cs key) (effect Cs key (Handle RRespond env r)) (accept_prog (Env.truncate env) r c cfg (rb_Kid body) t rnd)"
  using effect.claims [OF assms] effect.grants [OF assms]
  by (auto simp: accept_prog_def claim_prog_def put_prog_def case_prod_beta split: sum.splits)

lemma guarantees_verify:
  assumes "in_force Cs key s" and "resolve (Env.truncate env) s r = Some c" and "rc_known c" and "rq_Method r = ''POST''"
    and "in_force Cs key s'" and "env_respond env 4096 (rq_Body r) = Some body"
  shows "guarantees (in_force Cs key) (effect Cs key (Handle RRespond env r)) (verify_prog (Env.truncate env) r c (sv_cfg s') body)"
proof -
  have k: "guarantees (in_force Cs key) (effect Cs key (Handle RRespond env r))
      (accept_prog (Env.truncate env) r c (sv_cfg s') (rb_Kid body) t rnd)"
    if "in_force Cs key s2" "Authorize (Some (sv_reg s2)) (rb_Kid body) (rc_service c) (env_now env 1) = Inr t"
      "B64uDecode (rb_Nonce body) = Inr nonce" "B64uDecode (rb_Proof body) = Inr tag"
      "VerifyNonce key nonce (rc_service c) (rc_ip c) (env_now env 1) (cf_NonceTTL (sv_cfg s')) (cf_IPv6Prefix (sv_cfg s')) = (True, rnd)"
      "VerifyProof (tok_Secret t) (rc_service c) (rb_Kid body) nonce tag" for s2 t nonce tag rnd
    by (rule guarantees_accept [where nonce = nonce])
      (use assms that in \<open>auto simp: knock_under_def Authorize_Inr_iff in_force_def\<close>)
  have key: "sv_nonceKey s2 = key" if "in_force Cs key s2" for s2 using that by (simp add: in_force_def)
  show ?thesis
    by (auto simp: verify_prog_def effect.reads Let_def key split: sum.splits prod.splits intro: k)
qed

lemma guarantees_respond:
  "guarantees (in_force Cs key) (effect Cs key (Handle RRespond env r)) (respond_prog (Env.truncate env) r)"
  by (auto simp: respond_prog_def effect.reads split: option.splits intro!: guarantees_allow intro: guarantees_verify)

lemma guarantees_enroll:
  "guarantees (in_force Cs key) (effect Cs key (Handle REnroll env r)) (enroll_prog env' r')"
  by (auto simp: enroll_prog_def release_prog_def effect.reads case_prod_beta split: option.splits
      intro!: guarantees_allow effect.consumes)

lemma guarantees_register:
  "guarantees (in_force Cs key) (effect Cs key (Handle RRegister env r)) (register_prog env' r')"
  by (auto simp: register_prog_def effect.reads split: option.splits)

lemma guarantees_authz:
  "guarantees (in_force Cs key) (effect Cs key (Handle RAuthz env r)) (authz_prog env' r')"
  by (auto simp: authz_prog_def target_prog_def check_prog_def refused_prog_def effect.reads split: option.splits)

lemma guarantees_adminGrant:
  assumes "in_force Cs key s" and "admin_auth s r" and "rq_Path r = ''/admin/grant''"
  shows "guarantees (in_force Cs key) (effect Cs key (Handle RAdmin env r)) (adminGrant_prog env r)"
  using assms
  by (auto simp: adminGrant_prog_def put_prog_def effect.reads Let_def decodeJSON_def split: sum.splits if_splits option.splits
      intro!: effect.admin_grants) (auto simp: admin_under_def in_force_def)

lemma guarantees_admin: "guarantees (in_force Cs key) (effect Cs key (Handle RAdmin env r)) (admin_prog env r)"
proof -
  have "guarantees (in_force Cs key) (effect Cs key (Handle RAdmin env r)) (adminRevoke_prog env r)"
    "guarantees (in_force Cs key) (effect Cs key (Handle RAdmin env r)) (adminRevokeToken_prog env r)"
    "guarantees (in_force Cs key) (effect Cs key (Handle RAdmin env r)) (adminEnrollCode_prog env r)"
    by (auto simp: adminRevoke_prog_def adminRevokeToken_prog_def adminEnrollCode_prog_def effect.reads Let_def case_prod_beta
        split: sum.splits intro: effect.revokes effect.revokes_token effect.codes)
  then show ?thesis
    using guarantees_adminGrant
    by (auto simp: admin_prog_def adminGrants_prog_def effect.reads admin_auth_def from_proxy_def split: option.splits)
qed

lemma job_guarantees: "guarantees (in_force Cs key) (effect Cs key j) (job_prog j)"
proof (cases j)
  case (Handle rt env r)
  then show ?thesis
    by (cases rt) (simp_all add: route_prog_def guarantees_challenge guarantees_respond guarantees_enroll guarantees_register
        guarantees_authz guarantees_admin)
next
  case (Tick now)
  then show ?thesis by (simp add: tick_prog_def effect.intros)
next
  case (Sighup listenOv c)
  then show ?thesis by (simp add: hup_prog_def effect.reloads)
qed

lemma in_force_effect:
  assumes "effect Cs key j s s'" and "in_force Cs key s"
    and "\<And>listenOv c nc. j = Sighup listenOv c \<Longrightarrow> finalize c = Inr nc \<Longrightarrow> with_listen listenOv nc \<in> Cs"
  shows "in_force Cs key s'"
  using assms
  by (induction rule: effect.induct) (auto simp: in_force_def sighup_eq Reload_def split: sum.splits if_splits)

text \<open>With the configurations of \<open>Cs\<close> in force, what every effect of the admissible jobs keeps is an invariant.\<close>

locale authorizer_rely =
  fixes Cs :: "Config set" and key :: bytes and admissible :: "job \<Rightarrow> bool" and J :: "Server \<Rightarrow> bool"
  assumes configs: "admissible (Sighup listenOv c) \<Longrightarrow> finalize c = Inr nc \<Longrightarrow> with_listen listenOv nc \<in> Cs"
    and effects_keep: "admissible j \<Longrightarrow> effect Cs key j s s' \<Longrightarrow> in_force Cs key s \<Longrightarrow> J s \<Longrightarrow> J s'"

sublocale authorizer_rely \<subseteq> rely job_prog dispatches "in_force Cs key" "effect Cs key" admissible J
  using job_guarantees in_force_effect configs effects_keep by unfold_locales blast+

locale authorizer_metered = authorizer_rely +
  fixes taker :: "job \<Rightarrow> bool" and bringer :: "job \<Rightarrow> bool" and gone :: "Server \<Rightarrow> bool"
  assumes effects_last: "admissible j \<Longrightarrow> effect Cs key j s s' \<Longrightarrow> in_force Cs key s \<Longrightarrow> J s \<Longrightarrow> \<not> bringer j \<Longrightarrow> lasting gone s s'"
    and jobs_take: "taker j \<Longrightarrow> admissible j \<Longrightarrow>
      takes no_content (\<lambda>s. in_force Cs key s \<and> J s) (\<lambda>s s'. \<not> gone s \<and> gone s') (job_prog j)"
    and jobs_bring: "bringer j \<Longrightarrow> admissible j \<Longrightarrow> brings_once (\<lambda>s. in_force Cs key s \<and> J s) gone (job_prog j)"

sublocale authorizer_metered \<subseteq> metered job_prog dispatches "in_force Cs key" "effect Cs key" admissible J no_content taker bringer gone
  using effects_last jobs_take jobs_bring by unfold_locales blast+

end
