(* ===== verification/Inprocess.thy ===== *)
theory Inprocess
  imports Server
begin

text \<open>
  What the two in-process engines, the Caddy handler and the Traefik plugin, have in common: the
  process-wide state both keep in package variables, outside the handler instances a reload rebuilds, and
  the outcome of a middleware, which answers the request or passes it to the next handler.
\<close>

section \<open>Shared state\<close>

text \<open>The package variables: \<open>sh_once\<close> tells whether the initialization has run (\<^verbatim>\<open>sync.Once\<close>), \<open>sh_err\<close> is its
  error.\<close>

record Shared =
  sh_grants :: GrantStore
  sh_nonces :: NonceStore
  sh_codes :: EnrollStore
  sh_rl :: RateLimiter
  sh_nonceKey :: bytes
  sh_err :: "rand_error option"
  sh_once :: bool
  sh_lastSweep :: int

text \<open>Before the initialization the pointers are nil; nothing reads them then.\<close>

definition no_shared :: Shared where
  "no_shared = \<lparr>sh_grants = NewGrantStore, sh_nonces = NewNonceStore, sh_codes = NewEnrollStore,
     sh_rl = NewRateLimiter 0, sh_nonceKey = [], sh_err = None, sh_once = False, sh_lastSweep = 0\<rparr>"

datatype outcome = Answer Response | Next

definition sweep_shared :: "int \<Rightarrow> Shared \<Rightarrow> Shared" where
  "sweep_shared now sh =
     (let sh = sh\<lparr>sh_grants := snd (Sweep (sh_grants sh) now)\<rparr>;
          sh = sh\<lparr>sh_nonces := snd (Sweep_ns (sh_nonces sh) now)\<rparr>;
          sh = sh\<lparr>sh_codes := snd (Sweep_es (sh_codes sh) now)\<rparr>
      in sh\<lparr>sh_rl := snd (Sweep_rl (sh_rl sh) now)\<rparr>)"

section \<open>Durations\<close>

text \<open>\<^verbatim>\<open>int64(d.Seconds())\<close> of a duration in nanoseconds: \<^verbatim>\<open>Seconds\<close> is \<^verbatim>\<open>float64(sec) + float64(nsec)/1e9\<close>, two roundings to
  the nearest 53-bit value, ties to even; the conversion drops the fraction. Everything is
  symmetric in the sign. \<open>quot_even n d\<close> is the quotient rounded to the nearest integer.\<close>

definition quot_even :: "int \<Rightarrow> int \<Rightarrow> int" where
  "quot_even n d =
     (let q = n div d; r = n mod d
      in if 2 * r < d \<or> 2 * r = d \<and> even q then q else q + 1)"

fun bit_length :: "nat \<Rightarrow> int \<Rightarrow> nat" where
  "bit_length 0 n = 0"
| "bit_length (Suc fuel) n = (if n \<le> 0 then 0 else Suc (bit_length fuel (n div 2)))"

text \<open>The scale \<open>k\<close> puts \<open>n * 2 ^ k / d\<close> between \<open>2 ^ 52\<close> and \<open>2 ^ 53\<close>; for \<open>0 < n < d = 10 ^ 9\<close> it is between 53 and 82.\<close>

fun float_scale :: "nat \<Rightarrow> int \<Rightarrow> int \<Rightarrow> nat \<Rightarrow> nat" where
  "float_scale 0 n d k = k"
| "float_scale (Suc fuel) n d k = (if n * 2 ^ k < d * 2 ^ 52 then float_scale fuel n d (Suc k) else k)"

definition pos_seconds :: "int \<Rightarrow> int" where
  "pos_seconds d =
     (let sec = d div 10 ^ 9; nsec = d mod 10 ^ 9
      in if nsec = 0 then sec
         else
           let k = float_scale 40 nsec (10 ^ 9) 52;
               m = quot_even (nsec * 2 ^ k) (10 ^ 9);
               total = sec * 2 ^ k + m;
               b = bit_length 128 total;
               rounded = (if b > 53 then quot_even total (2 ^ (b - 53)) * 2 ^ (b - 53) else total)
           in rounded div 2 ^ k)"

definition dur_seconds :: "int \<Rightarrow> int" where
  "dur_seconds d = (if d < 0 then - pos_seconds (- d) else pos_seconds d)"

lemma dur_seconds_whole: "dur_seconds (n * 10 ^ 9) = n"
proof (cases "n * 10 ^ 9 < 0")
  case True
  have "pos_seconds (- (n * 10 ^ 9)) = - n"
    unfolding pos_seconds_def Let_def by (simp flip: mult_minus_left)
  then show ?thesis using True by (simp add: dur_seconds_def)
qed (simp add: dur_seconds_def pos_seconds_def)

end
