(* ===== verification/Cycle.thy ===== *)
theory Cycle
  imports Runs
begin

text \<open>
  The whole exchange of a legitimate client: a challenge, the proof made with the token's secret
  over the nonce it got, and the forward-auth call that admits it. Each stage is shown to succeed
  under the conditions the client and its operator control, and the state of each stage is the one
  the stage before left.
\<close>

section \<open>The three stages\<close>

lemma resolve_CanonIP:
  assumes "resolve env s r = Some c"
  shows "CanonIP (rc_ip c) (cf_IPv6Prefix (sv_cfg s)) 32 = Inr (rc_ip c)"
  using ClientIP_canonical [OF resolve_Some(1) [OF assms]] CanonIP_idem by blast

lemma resolve_cong: "sv_cfg s' = sv_cfg s \<Longrightarrow> resolve env s' r = resolve env s r"
  by (simp add: resolve_def)

text \<open>The options that have a part in the resolution.\<close>

definition same_identity :: "Config \<Rightarrow> Config \<Rightarrow> bool" where
  "same_identity c c' \<longleftrightarrow> cf_trusted c = cf_trusted c' \<and> cf_RealIPHeader c = cf_RealIPHeader c' \<and>
     cf_IPv6Prefix c = cf_IPv6Prefix c'"

lemma identity_cong:
  assumes "same_identity c' c"
  shows "ClientIP c' r = ClientIP c r" and "resolveTarget up c' r = resolveTarget up c r"
proof -
  have f: "cf_trusted c' = cf_trusted c" "cf_RealIPHeader c' = cf_RealIPHeader c" "cf_IPv6Prefix c' = cf_IPv6Prefix c"
    using assms by (simp_all add: same_identity_def)
  have t: "isTrusted c' = isTrusted c" by (intro ext) (simp add: isTrusted_def f)
  then have "usable c' = usable c" by (intro ext) (simp only: usable_def)
  then have "rightmostUntrusted c' xs = rightmostUntrusted c xs" for xs
    by (cases "find (usable c) xs") (simp_all add: rightmostUntrusted_eq f)
  then show "ClientIP c' r = ClientIP c r" by (cases "peerAddr r") (simp_all add: ClientIP_def t f)
  show "resolveTarget up c' r = resolveTarget up c r"
    by (cases "peerAddr r") (simp_all add: resolveTarget_def t)
qed

lemma resolve_same_identity:
  assumes "same_identity (sv_cfg s') (sv_cfg s)" and "cf_canonServices (sv_cfg s') = cf_canonServices (sv_cfg s)"
  shows "resolve env s' r = resolve env s r"
  using identity_cong [OF assms(1)] assms(2) by (simp only: resolve_def Let_def Service_def)

text \<open>The random part of a nonce, from one read of the random source.\<close>

abbreviation rand16 :: "(nat \<Rightarrow> byte) \<Rightarrow> bytes" where
  "rand16 f \<equiv> map f [0..<16]"

lemma challenge_answers:
  assumes "resolve env s r = Some c" and "rc_known c" and "rq_Method r = ''GET''" and "rate_ok env s c"
    and "env_draw env 0 = Some f"
  obtains nonce where
    "IssueNonce (sv_nonceKey s) (word_of_int (env_now env 1)) (rand16 f) (rc_service c) (rc_ip c)
       (cf_IPv6Prefix (sv_cfg s)) = Inr nonce"
    "handleChallenge env s r =
       (NoContent [(''X-Jit-Nonce'', B64u nonce), (''X-Jit-Ts'', FormatInt (env_now env 1)),
                   (''Cache-Control'', ''no-store'')], counted env s c)"
proof -
  obtain nonce where n: "IssueNonce (sv_nonceKey s) (word_of_int (env_now env 1)) (rand16 f) (rc_service c)
      (rc_ip c) (cf_IPv6Prefix (sv_cfg s)) = Inr nonce"
    using resolve_CanonIP [OF assms(1)] by (auto simp: IssueNonce_Inr_iff)
  have a: "fst (Allow (sv_rl s) (RateKey (rc_service c) (rc_ip c)) (cf_RateLimit (sv_cfg s)) (env_now env 0))"
    using assms(4) by (simp add: rate_ok_def)
  have "handleChallenge env s r =
       (NoContent [(''X-Jit-Nonce'', B64u nonce), (''X-Jit-Ts'', FormatInt (env_now env 1)),
                   (''Cache-Control'', ''no-store'')], counted env s c)"
    using assms(1-3,5) a n
    by (simp add: handleChallenge_def counted_def Let_def RandomBytes_def case_prod_beta')
  with n show thesis by (rule that)
qed

text \<open>The proof a client computes from the nonce it was sent.\<close>

definition client_answers :: "respondBody \<Rightarrow> Token \<Rightarrow> string \<Rightarrow> bytes \<Rightarrow> bool" where
  "client_answers body t service nonce \<longleftrightarrow>
     rb_Nonce body = B64u nonce \<and> rb_Proof body = B64u (BuildProof (tok_Secret t) service (rb_Kid body) nonce)"

lemma uint_time: "0 \<le> ts \<Longrightarrow> ts < 2 ^ 63 \<Longrightarrow> uint (word_of_int ts :: 64 word) = ts"
  by (simp add: uint_word_of_int)

lemma respond_verifies:
  assumes "IssueNonce (sv_nonceKey s) (word_of_int ts) rnd (rc_service c) (rc_ip c) (cf_IPv6Prefix (sv_cfg s)) = Inr nonce"
    and "0 \<le> ts" and "ts \<le> env_now env 1" and "env_now env 1 < ts + cf_NonceTTL (sv_cfg s)" and "env_now env 1 < 2 ^ 63"
    and "permits (Some (sv_reg s)) (rb_Kid body) (rc_service c) (env_now env 1) t"
    and "client_answers body t (rc_service c) nonce" and "mget (ns_spent (sv_nonces s)) (B64u rnd) = None"
  shows "knock_verified env s c body nonce rnd t"
proof -
  have now: "is_i64 (env_now env 1)" using assms(2,3,5) by (simp add: is_i64_def)
  have "fresh (word_of_int ts) (env_now env 1) (cf_NonceTTL (sv_cfg s))"
    using assms(2-5) by (simp add: fresh_def uint_time)
  then have "VerifyNonce (sv_nonceKey s) nonce (rc_service c) (rc_ip c) (env_now env 1) (cf_NonceTTL (sv_cfg s))
      (cf_IPv6Prefix (sv_cfg s)) = (True, rnd)"
    using assms(1) VerifyNonce_iff [OF now] by blast
  moreover have "fst (Claim (sv_nonces s) (B64u rnd) (env_now env 1) (cf_NonceTTL (sv_cfg s)))"
    using assms(8) by (simp add: Claim_def)
  ultimately show ?thesis
    using assms(6,7) by (simp add: knock_verified_def client_answers_def B64uDecode_B64u VerifyProof_def)
qed

text \<open>The client shows the cookie it was sent, where it was sent one.\<close>

definition shows_cookie :: "Request \<Rightarrow> Grant \<Rightarrow> bool" where
  "shows_cookie r g \<longleftrightarrow>
     (if g_Binding g = BindingIPCookie then grant_cookie r \<noteq> [] \<and> g_CookieHash g = CookieHash (grant_cookie r)
      else grant_cookie r = [])"

lemma put_grant_admits:
  assumes "shows_cookie r g" and "hash_shape (g_CookieHash g)"
    and "now < g_Exp g" and "permits reg (g_Kid g) (g_Service g) now t" and "g_SecretFP g = Fingerprint (Some t)"
  shows "IsAllowed (Put s (Some g) ohs) (g_Service g) (g_IP g) reg now (grant_cookie r) = Some g"
proof -
  have "findGrant (Put s (Some g) ohs) (g_Service g) (g_IP g) (grant_cookie r) = Some g"
    using assms(1) findGrant_Put_cookie [of g "grant_cookie r" s ohs] findGrant_Put_ip [of g "grant_cookie r" s ohs]
    by (cases "g_Binding g = BindingIPCookie") (auto simp: shows_cookie_def)
  moreover have "grant_ok reg now (g_Service g) (g_IP g) (grant_cookie r) g"
    using assms by (auto simp: grant_ok_def shows_cookie_def split: if_splits)
  ultimately show ?thesis by (simp add: IsAllowed_Some_iff)
qed

lemma authz_admits:
  assumes m: "knock_mints env1 s r1 c1 body nonce rnd t g cookie" and p: "from_proxy s r2"
    and c2: "resolve env2 s r2 = Some c2" "rc_service c2 = rc_service c1" "rc_ip c2 = rc_ip c1" "rc_svc c2 = rc_svc c1"
      "rc_known c2" "\<not> isProtocolURI (cf_URIPrefix (sv_cfg s)) (rc_uri c2)"
    and t: "env_now env2 0 < g_Exp g" "permits (Some (sv_reg s)) (rb_Kid body) (rc_service c1) (env_now env2 0) t"
    and ck: "shows_cookie r2 g"
  shows "fst (handleAuthz env2 (snd (handleRespond env1 s r1)) r2) = NoContent [(''X-Jit-Kid'', rb_Kid body)]"
proof -
  let ?s = "snd (handleRespond env1 s r1)"
  have mint: "mintGrant env1 s c1 (rb_Kid body) t = Inr (g, cookie)" using m by (simp add: knock_mints_def)
  note g = mintGrant_fields [OF mint]
  have s: "?s = put_grant r1 g (spend env1 rnd (counted env1 s c1))" using handleRespond_mints [OF m] by simp
  then have f: "sv_cfg ?s = sv_cfg s" "sv_reg ?s = sv_reg s" "sv_grants ?s = Put (sv_grants s) (Some g) [oldCookieHash r1]"
    by (simp_all add: put_grant_def spend_def counted_def)
  have "IsAllowed (Put (sv_grants s) (Some g) [oldCookieHash r1]) (g_Service g) (g_IP g) (Some (sv_reg s)) (env_now env2 0)
      (grant_cookie r2) = Some g"
    using put_grant_admits [OF ck g(11) t(1)] t(2) g by simp
  then have "authz_grants env2 ?s r2 c2 g"
    using c2 g f resolve_cong [OF f(1), of env2 r2] by (simp add: authz_grants_def)
  moreover have "from_proxy ?s r2" using p by (simp add: from_proxy_def f)
  ultimately show ?thesis using handleAuthz_granted g(1) by simp
qed

text \<open>Two requests of one client to one service.\<close>

definition same_client :: "reqCtx \<Rightarrow> reqCtx \<Rightarrow> bool" where
  "same_client c c' \<longleftrightarrow> c = c'\<lparr>rc_uri := rc_uri c\<rparr>"

lemma same_client_fields:
  assumes "same_client c c'"
  shows "rc_service c = rc_service c'" "rc_ip c = rc_ip c'" "rc_svc c = rc_svc c'" "rc_known c = rc_known c'"
  using assms by (cases c; cases c'; simp add: same_client_def)+

lemma counted_fields [simp]:
  "sv_cfg (counted env s c) = sv_cfg s" "sv_reg (counted env s c) = sv_reg s" "sv_grants (counted env s c) = sv_grants s"
  "sv_nonces (counted env s c) = sv_nonces s" "sv_nonceKey (counted env s c) = sv_nonceKey s"
  "sv_codes (counted env s c) = sv_codes s" "sv_mux (counted env s c) = sv_mux s"
  by (simp_all add: counted_def)

lemma mintGrant_ok: "env_draw env 0 \<noteq> None \<Longrightarrow> \<exists>g cookie. mintGrant env s c kid t = Inr (g, cookie)"
  by (auto simp: mintGrant_def Let_def RandomBytes_def)

section \<open>Refusals\<close>

lemma knock_denials:
  "(rs_Status (fst (handleChallenge env s r)) = 204 \<or> fst (handleChallenge env s r) = deny s (resolve env s r)) \<and>
   (rs_Status (fst (handleRespond env s r)) = 204 \<or> fst (handleRespond env s r) = deny s (resolve env s r)) \<and>
   (rs_Status (fst (handleEnroll env s r)) = 204 \<or> fst (handleEnroll env s r) = deny s (resolve env s r)) \<and>
   (fst (handleRegister env s r) = deny s (resolve env s r) \<or> rs_Status (fst (handleRegister env s r)) = 200)"
proof -
  obtain resp s' where e: "handleEnroll env s r = (resp, s')" by fastforce
  obtain resp1 s1 where p: "handleRespond env s r = (resp1, s1)" by fastforce
  have "rs_Status resp = 204 \<or> resp = deny s (resolve env s r)" using e by (cases rule: handleEnroll_cases) simp_all
  moreover have "rs_Status resp1 = 204 \<or> resp1 = deny s (resolve env s r)" using p by (cases rule: handleRespond_cases) simp_all
  moreover have "rs_Status (fst (handleChallenge env s r)) = 204 \<or> fst (handleChallenge env s r) = deny s (resolve env s r)"
    using handleChallenge_cases [of env s r, OF surjective_pairing] by auto
  moreover have "fst (handleRegister env s r) = deny s (resolve env s r) \<or> rs_Status (fst (handleRegister env s r)) = 200"
    by (simp add: handleRegister_def split: option.splits)
  ultimately show ?thesis using e p by simp
qed

lemma authz_refuses:
  assumes "resolve env s r = Some c" and "\<not> isProtocolURI (cf_URIPrefix (sv_cfg s)) (rc_uri c)"
    and "IsAllowed (sv_grants s) (rc_service c) (rc_ip c) (Some (sv_reg s)) (env_now env 0) (grant_cookie r) = None"
  shows "rs_Status (fst (handleAuthz env s r)) = 403"
  using assms by (auto simp: handleAuthz_def deny_status text_error_def split: option.splits)

section \<open>What a route of the main listener can add\<close>

lemma main_routes: "cf_AdminListen cfg \<noteq> [] \<Longrightarrow> mux_route (buildMuxLocked cfg) p \<notin> {RAdmin, RAdminSlash}"
  by (simp add: mux_route_def buildMuxLocked_def Let_def)

lemma enroll_codes:
  "sv_grants (snd (handleEnroll env s r)) = sv_grants s \<and>
   (Peek (sv_codes s) code now = None \<longrightarrow> Peek (sv_codes (snd (handleEnroll env s r))) code now = None)"
proof -
  obtain resp s' where e: "handleEnroll env s r = (resp, s')" by fastforce
  have c: "Peek (sv_codes (consumed env x (counted env s c))) code now = None" if "Peek (sv_codes s) code now = None" for x c
    using that by (auto simp: consumed_def counted_def Peek_def es_codes_Consume)
  show ?thesis using e
    by (cases rule: handleEnroll_cases)
      (auto simp: e enrolled_def c only_counters_fields, simp_all add: consumed_def counted_def)
qed

lemma respond_adds:
  "sv_codes (snd (handleRespond env s r)) = sv_codes s \<and>
   (abs_grants (sv_grants (snd (handleRespond env s r))) k = Some g \<longrightarrow> abs_grants (sv_grants s) k = Some g \<or>
      (\<exists>c body nonce rnd t cookie. knock_mints env s r c body nonce rnd t g cookie))"
proof -
  obtain resp s' where e: "handleRespond env s r = (resp, s')" by fastforce
  then show ?thesis
  proof (cases rule: handleRespond_cases)
    case (minted c body nonce rnd t g' cookie)
    then show ?thesis using e by (auto simp: put_grant_def spend_def counted_def abs_Put split: if_splits)
  qed (simp_all add: e only_counters_fields spend_def counted_def)
qed

lemma route_grants:
  assumes "rt \<notin> {RAdmin, RAdminSlash}"
  shows "(\<forall>k g. abs_grants (sv_grants (snd (serve_route env rt s r))) k = Some g \<longrightarrow> abs_grants (sv_grants s) k = Some g \<or>
      (\<exists>c body nonce rnd t cookie. knock_mints (Env.truncate env) s r c body nonce rnd t g cookie)) \<and>
    (\<forall>code now. Peek (sv_codes s) code now = None \<longrightarrow> Peek (sv_codes (snd (serve_route env rt s r))) code now = None)"
  using assms enroll_codes [of "Env.truncate env" s r] respond_adds [of "Env.truncate env" s r]
    only_counters_fields [OF only_counters_handlers(1)] only_counters_fields [OF only_counters_handlers(2)]
  by (cases rt) (simp_all add: serve_route_def handleRegister_state)

end
