(* ===== verification/Gate.thy ===== *)
theory Gate
  imports Inprocess Cycle
begin

text \<open>
  What an in-process engine promises, whatever host it runs in. \<open>Policy\<close> is what the options of a
  handler say; \<open>gate_mints\<close> is a request whose knock checks out, with everything that was verified. The
  locale \<open>gate\<close> states the contract of an engine: which requests pass, where grants come from, what becomes of spent
  nonces. Soundness over whole executions, with handlers rebuilt at will, follows from the contract
  once for both engines.
\<close>

section \<open>Policies and knocks\<close>

record Policy =
  gp_Prefix :: string
  gp_Stealth :: bool
  gp_Binding :: string
  gp_GrantTTL :: int
  gp_NonceTTL :: int
  gp_IPv6Prefix :: int
  gp_RateLimit :: int
  gp_reg :: Registry

definition gate_deny :: "Policy \<Rightarrow> Response" where
  "gate_deny p =
     (if gp_Stealth p then StatusOnly 404 [(''Cache-Control'', ''no-store'')] else interstitial_response)"

definition gate_rate_ok :: "Env \<Rightarrow> Policy \<Rightarrow> string \<Rightarrow> string \<Rightarrow> Shared \<Rightarrow> bool" where
  "gate_rate_ok env p svc ip sh \<longleftrightarrow> fst (Allow (sh_rl sh) (RateKey svc ip) (gp_RateLimit p) (env_now env 1))"

definition gate_counted :: "Env \<Rightarrow> Policy \<Rightarrow> string \<Rightarrow> string \<Rightarrow> Shared \<Rightarrow> Shared" where
  "gate_counted env p svc ip sh = sh\<lparr>sh_rl := snd (Allow (sh_rl sh) (RateKey svc ip) (gp_RateLimit p) (env_now env 1))\<rparr>"

definition gate_verified ::
  "Env \<Rightarrow> Policy \<Rightarrow> string \<Rightarrow> string \<Rightarrow> respondBody \<Rightarrow> bytes \<Rightarrow> bytes \<Rightarrow> Token \<Rightarrow> Shared \<Rightarrow> bool" where
  "gate_verified env p svc ip body nonce rnd t sh \<longleftrightarrow>
     B64uDecode (rb_Nonce body) = Inr nonce \<and>
     VerifyNonce (sh_nonceKey sh) nonce svc ip (env_now env 2) (gp_NonceTTL p) (gp_IPv6Prefix p) = (True, rnd) \<and>
     Lookup (Some (gp_reg p)) (rb_Kid body) = Some t \<and> \<not> IsExpired (Some t) (env_now env 2) \<and>
     AllowedForService (Some (gp_reg p)) (rb_Kid body) ''*'' \<and>
     (\<exists>tag. B64uDecode (rb_Proof body) = Inr tag \<and> VerifyProof (tok_Secret t) svc (rb_Kid body) nonce tag) \<and>
     fst (Claim (sh_nonces sh) (B64u rnd) (env_now env 2) (gp_NonceTTL p))"

definition gate_spent :: "Env \<Rightarrow> Policy \<Rightarrow> bytes \<Rightarrow> Shared \<Rightarrow> Shared" where
  "gate_spent env p rnd sh = sh\<lparr>sh_nonces := snd (Claim (sh_nonces sh) (B64u rnd) (env_now env 2) (gp_NonceTTL p))\<rparr>"

text \<open>The grant a verified knock is worth.\<close>

definition gate_grant :: "Env \<Rightarrow> Policy \<Rightarrow> string \<Rightarrow> string \<Rightarrow> string \<Rightarrow> Token \<Rightarrow> Grant \<Rightarrow> bool" where
  "gate_grant env p svc ip kid t g \<longleftrightarrow>
     g_Kid g = kid \<and> g_Service g = svc \<and> g_IP g = ip \<and> g_Binding g = gp_Binding p \<and> g_Issued g = env_now env 2 \<and>
     g_Exp g = i64 (env_now env 2 + gp_GrantTTL p) \<and> \<not> g_Manual g \<and> g_SecretFP g = Fingerprint (Some t) \<and>
     hash_shape (g_CookieHash g) \<and> (g_Binding g = BindingIPCookie \<longleftrightarrow> g_CookieHash g \<noteq> [])"

text \<open>A request that mints \<open>g\<close>, in the state after the sweep that precedes it.\<close>

definition gate_mints ::
  "Env \<Rightarrow> Policy \<Rightarrow> string \<Rightarrow> Request \<Rightarrow> Shared \<Rightarrow> respondBody \<Rightarrow> bytes \<Rightarrow> bytes \<Rightarrow> Token \<Rightarrow> Grant \<Rightarrow> bool" where
  "gate_mints env p ip r sh body nonce rnd t g \<longleftrightarrow>
     rq_Path r = gp_Prefix p @ ''/respond'' \<and> rq_Method r = ''POST'' \<and> CanonServerName (rq_Host r) \<noteq> [] \<and>
     gate_rate_ok env p (CanonServerName (rq_Host r)) ip sh \<and> env_respond env 4096 (rq_Body r) = Some body \<and>
     gate_verified env p (CanonServerName (rq_Host r)) ip body nonce rnd t sh \<and>
     gate_grant env p (CanonServerName (rq_Host r)) ip (rb_Kid body) t g"

text \<open>The nonce in the body of a request.\<close>

definition sends_nonce :: "Env \<Rightarrow> Request \<Rightarrow> bytes \<Rightarrow> bool" where
  "sends_nonce env r nonce \<longleftrightarrow> (\<exists>body. env_respond env 4096 (rq_Body r) = Some body \<and> B64uDecode (rb_Nonce body) = Inr nonce)"

text \<open>A request to enroll that is entitled to the secret of \<open>t\<close>.\<close>

definition gate_enrolls :: "Env \<Rightarrow> Policy \<Rightarrow> string \<Rightarrow> string \<Rightarrow> Request \<Rightarrow> Shared \<Rightarrow> string \<Rightarrow> EnrollCode \<Rightarrow> Token \<Rightarrow> bool" where
  "gate_enrolls env p svc ip r sh code ec t \<longleftrightarrow>
     gate_rate_ok env p svc ip sh \<and> (\<exists>body. env_enroll env 4096 (rq_Body r) = Some body \<and> eb_Code body = code) \<and> code \<noteq> [] \<and>
     Peek (sh_codes sh) code (env_now env 2) = Some ec \<and> Peek (sh_codes sh) code (env_now env 3) = Some ec \<and>
     Lookup (Some (gp_reg p)) (ec_Kid ec) = Some t"

definition gate_released :: "EnrollCode \<Rightarrow> Token \<Rightarrow> Response" where
  "gate_released ec t = NoContent [(''X-Jit-Kid'', ec_Kid ec), (''X-Jit-Secret'', B64u (tok_Secret t)),
     (''X-Jit-Origins'', Join (ec_Origins ec) '',''), (''Cache-Control'', ''no-store'')]"

definition gate_consumed :: "Env \<Rightarrow> string \<Rightarrow> Shared \<Rightarrow> Shared" where
  "gate_consumed env code sh = sh\<lparr>sh_codes := snd (Consume (sh_codes sh) code (env_now env 3))\<rparr>"

section \<open>Executions\<close>

text \<open>Requests served by whatever handler the router then has, and enrollment codes minted out of band.\<close>

datatype 'h gate_event =
    GateServed Env 'h Request outcome
  | GateCode draw string string "string list" int

type_synonym 'h engine = "Env \<Rightarrow> 'h \<Rightarrow> Request \<Rightarrow> Shared \<Rightarrow> outcome \<times> Shared"
type_synonym minter = "draw \<Rightarrow> string \<Rightarrow> string \<Rightarrow> string list \<Rightarrow> int \<Rightarrow> Shared \<Rightarrow> Shared"

inductive gate_run :: "'h engine \<Rightarrow> minter \<Rightarrow> Shared \<Rightarrow> 'h gate_event list \<Rightarrow> Shared \<Rightarrow> bool"
  for serve mint sh0 where
  start: "gate_run serve mint sh0 [] sh0"
| served: "gate_run serve mint sh0 evs sh \<Longrightarrow> serve env h r sh = (out, sh') \<Longrightarrow>
    gate_run serve mint sh0 (evs @ [GateServed env h r out]) sh'"
| code: "gate_run serve mint sh0 evs sh \<Longrightarrow>
    gate_run serve mint sh0 (evs @ [GateCode d c kid origins exp]) (mint d c kid origins exp sh)"

text \<open>The invariant of the process-wide state, once it is initialized.\<close>

definition shared_inv :: "Shared \<Rightarrow> bool" where
  "shared_inv sh \<longleftrightarrow> sh_once sh \<and> sh_err sh = None \<and> length (sh_nonceKey sh) = 32 \<and>
     grant_inv (sh_grants sh) \<and> rl_inv (sh_rl sh)"

fun gate_time :: "'h gate_event \<Rightarrow> int" where
  "gate_time (GateServed env h r out) = max (env_now env 0) (env_now env 2)"
| "gate_time (GateCode d c kid origins exp) = 0"

lemma sweep_shared_simps [simp]:
  "sh_grants (sweep_shared now sh) = snd (Sweep (sh_grants sh) now)"
  "sh_nonces (sweep_shared now sh) = snd (Sweep_ns (sh_nonces sh) now)"
  "sh_codes (sweep_shared now sh) = snd (Sweep_es (sh_codes sh) now)"
  "sh_rl (sweep_shared now sh) = snd (Sweep_rl (sh_rl sh) now)"
  "sh_nonceKey (sweep_shared now sh) = sh_nonceKey sh" "sh_err (sweep_shared now sh) = sh_err sh"
  "sh_once (sweep_shared now sh) = sh_once sh" "sh_lastSweep (sweep_shared now sh) = sh_lastSweep sh"
  by (simp_all add: sweep_shared_def Let_def)

lemma shared_inv_sweep: "shared_inv sh \<Longrightarrow> shared_inv (sweep_shared now sh)"
  by (simp add: shared_inv_def grant_inv_Sweep rl_inv_Sweep)

section \<open>Frames and auxiliary facts\<close>

lemma gate_counted_simps [simp]:
  "sh_grants (gate_counted env p svc ip sh) = sh_grants sh" "sh_nonces (gate_counted env p svc ip sh) = sh_nonces sh"
  "sh_codes (gate_counted env p svc ip sh) = sh_codes sh" "sh_nonceKey (gate_counted env p svc ip sh) = sh_nonceKey sh"
  "sh_once (gate_counted env p svc ip sh) = sh_once sh" "sh_err (gate_counted env p svc ip sh) = sh_err sh"
  by (simp_all add: gate_counted_def)

lemma gate_spent_simps [simp]:
  "sh_grants (gate_spent env p rnd sh) = sh_grants sh" "sh_rl (gate_spent env p rnd sh) = sh_rl sh"
  "sh_codes (gate_spent env p rnd sh) = sh_codes sh" "sh_nonceKey (gate_spent env p rnd sh) = sh_nonceKey sh"
  "sh_once (gate_spent env p rnd sh) = sh_once sh" "sh_err (gate_spent env p rnd sh) = sh_err sh"
  "sh_nonces (gate_spent env p rnd (gate_counted env' p' svc ip sh)) = sh_nonces (gate_spent env p rnd sh)"
  by (simp_all add: gate_spent_def gate_counted_def)

lemma gate_consumed_simps [simp]:
  "sh_grants (gate_consumed env code sh) = sh_grants sh" "sh_nonces (gate_consumed env code sh) = sh_nonces sh"
  "sh_rl (gate_consumed env code sh) = sh_rl sh" "sh_nonceKey (gate_consumed env code sh) = sh_nonceKey sh"
  "sh_once (gate_consumed env code sh) = sh_once sh" "sh_err (gate_consumed env code sh) = sh_err sh"
  by (simp_all add: gate_consumed_def)

lemma shared_inv_counted: "shared_inv sh \<Longrightarrow> shared_inv (gate_counted env p svc ip sh)"
  by (simp add: shared_inv_def gate_counted_def rl_inv_Allow)

lemma gate_verified_counted [simp]:
  "gate_verified env p svc ip body nonce rnd t (gate_counted env p' svc' ip' sh) = gate_verified env p svc ip body nonce rnd t sh"
  by (simp add: gate_verified_def gate_counted_def)

lemma shared_inv_grants: "shared_inv sh \<Longrightarrow> shared_inv (sh\<lparr>sh_grants := Put (sh_grants sh) g ohs\<rparr>)"
  by (simp add: shared_inv_def grant_inv_Put)

lemma shared_inv_spent: "shared_inv (gate_spent env p rnd sh) = shared_inv sh"
  and shared_inv_consumed: "shared_inv (gate_consumed env code sh) = shared_inv sh"
  by (simp_all add: shared_inv_def)

lemma Claim_refused: "\<not> fst (Claim n x now ttl) \<Longrightarrow> snd (Claim n x now ttl) = n"
  by (auto simp: Claim_def split: if_splits)

lemma Peek_same: "Peek e code now = Some ec \<Longrightarrow> Peek e code now' = Some ec' \<Longrightarrow> ec' = ec"
  by (auto simp: Peek_def split: option.splits if_splits)

text \<open>The random identifier of a cookie is never empty.\<close>

lemma B64u_RandomBytes: "RandomBytes 32 d = Inr b \<Longrightarrow> B64u b \<noteq> []"
proof
  assume r: "RandomBytes 32 d = Inr b" and "B64u b = []"
  then have "B64u b = B64u []" by (simp add: B64u_def)
  then have "b = []" by (simp only: b64u.enc_inject)
  then show False using length_RandomBytes [OF r] by simp
qed

lemma prefix_path: "HasPrefix (p @ ''/'' @ x) (p @ ''/'')"
  by (simp add: HasPrefix_def)

text \<open>Nothing verifies under a lifetime that is not positive.\<close>

lemma verified_positive:
  assumes "is_i64 now" and "VerifyNonce key nonce sn ip now ttl p6 = (True, rnd)"
  shows "0 \<le> now \<and> 0 < ttl"
proof -
  obtain ts where "fresh ts now ttl" using assms by (auto simp: VerifyNonce_iff)
  then show ?thesis using uint_ge_0 [of ts] unfolding fresh_def by linarith
qed

text \<open>The time a nonce says it was issued at, and its random part.\<close>

definition issued_at :: "bytes \<Rightarrow> int" where
  "issued_at nonce = uint (be64_decode (take 8 nonce))"

definition random_part :: "bytes \<Rightarrow> bytes" where
  "random_part nonce = take 16 (drop 8 nonce)"

lemma VerifyNonce_window:
  assumes "VerifyNonce key nonce sn ip now ttl p6 = (True, rnd)" and "is_i64 now"
  shows "rnd = random_part nonce" and "issued_at nonce \<le> now" and "now < issued_at nonce + ttl"
proof -
  obtain ts where i: "IssueNonce key ts rnd sn ip p6 = Inr nonce" and f: "fresh ts now ttl"
    using assms by (auto simp: VerifyNonce_iff)
  have "take 8 nonce = be64 ts" "take 16 (drop 8 nonce) = rnd" using i unfolding IssueNonce_Inr_iff by auto
  then show "rnd = random_part nonce" and "issued_at nonce \<le> now" and "now < issued_at nonce + ttl"
    using f be64_decode_be64 [of ts "[]"] by (auto simp: random_part_def issued_at_def fresh_def)
qed

lemma spent_until_Claim_later:
  assumes "spent_until n nid until" and "is_i64 now" and "0 < ttl" and "now + ttl < 2 ^ 63"
  shows "spent_until (snd (Claim n nid' now ttl)) nid until"
proof -
  have "i64 (now + ttl) = now + ttl" using assms(2-4) by (intro i64_id) (simp add: is_i64_def)
  then show ?thesis using assms(1,3) by (auto simp: spent_until_def Claim_def split: option.splits)
qed

section \<open>The contract of an engine\<close>

text \<open>The sweep that precedes a request does nothing, or one sweep of every store.\<close>

locale gate_sweeper =
  fixes sweep :: "int \<Rightarrow> Shared \<Rightarrow> Shared"
  assumes sweep_cases: "sweep now sh = sh \<or> sweep now sh = sweep_shared now (sh\<lparr>sh_lastSweep := now\<rparr>)"
begin

lemma sweep_inv: "shared_inv sh \<Longrightarrow> shared_inv (sweep now sh)"
  using sweep_cases [of now sh] shared_inv_sweep [of "sh\<lparr>sh_lastSweep := now\<rparr>" now] by (auto simp: shared_inv_def)

lemma sweep_grants:
  "shared_inv sh \<Longrightarrow> abs_grants (sh_grants (sweep now sh)) k = Some g \<Longrightarrow> abs_grants (sh_grants sh) k = Some g"
  using sweep_cases [of now sh] abs_sub_revoke(3) by (auto simp: shared_inv_def)

lemma sweep_spent:
  "spent_until (sh_nonces sh) nid until \<Longrightarrow> now < until \<Longrightarrow> spent_until (sh_nonces (sweep now sh)) nid until"
  using sweep_cases [of now sh] spent_until_Sweep by auto

lemma sweep_key [simp]: "sh_nonceKey (sweep now sh) = sh_nonceKey sh"
  using sweep_cases [of now sh] by auto

end

text \<open>An engine passes a request on only for a grant it finds in the swept table, files a grant only for a
  verified knock, whose nonce it then has spent, and otherwise leaves grants, nonce key and the
  initialization alone.\<close>

locale gate = gate_sweeper +
  fixes serve :: "'h engine" and mint :: minter
    and client :: "'h \<Rightarrow> Request \<Rightarrow> string option" and policy :: "'h \<Rightarrow> Policy"
  assumes passes: "serve env h r sh = (Next, sh') \<Longrightarrow> sh' = sweep (env_now env 0) sh \<and>
      (\<exists>ip g. client h r = Some ip \<and>
        IsAllowed (sh_grants sh') (CanonServerName (rq_Host r)) ip (Some (gp_reg (policy h))) (env_now env 1) (grant_cookie r) = Some g \<and>
        (gp_Binding (policy h) = BindingIPCookie \<longrightarrow> g_Binding g = BindingIPCookie))"
    and files: "serve env h r sh = (out, sh') \<Longrightarrow>
      sh_grants sh' = sh_grants (sweep (env_now env 0) sh) \<or>
      (\<exists>ip body nonce rnd t g. client h r = Some ip \<and>
         gate_mints env (policy h) ip r (sweep (env_now env 0) sh) body nonce rnd t g \<and>
         sh_grants sh' = Put (sh_grants (sweep (env_now env 0) sh)) (Some g) [oldCookieHash r])"
    and spends: "serve env h r sh = (out, sh') \<Longrightarrow>
      sh_nonces sh' = sh_nonces (sweep (env_now env 0) sh) \<or>
      (\<exists>rnd. sh_nonces sh' = sh_nonces (gate_spent env (policy h) rnd (sweep (env_now env 0) sh)))"
    and mints_spend: "client h r = Some ip \<Longrightarrow>
      gate_mints env (policy h) ip r (sweep (env_now env 0) sh) body nonce rnd t g \<Longrightarrow>
      sh_nonces (snd (serve env h r sh)) = sh_nonces (gate_spent env (policy h) rnd (sweep (env_now env 0) sh))"
    and keeps: "serve env h r sh = (out, sh') \<Longrightarrow> shared_inv sh \<Longrightarrow> shared_inv sh' \<and> sh_nonceKey sh' = sh_nonceKey sh"
    and mint_codes: "sh_once sh \<Longrightarrow> \<exists>codes. mint d c kid origins exp sh = sh\<lparr>sh_codes := codes\<rparr>"
begin

text \<open>Another type of handlers that is read as this one gives an engine again.\<close>

lemma rename: "gate sweep (\<lambda>env h. serve env (f h)) mint (client \<circ> f) (policy \<circ> f)"
  unfolding comp_def
  by unfold_locales (blast intro: mints_spend mint_codes dest: passes files spends keeps)+

text \<open>Some earlier request of the execution minted the grant.\<close>

definition gate_minted :: "Shared \<Rightarrow> 'h gate_event list \<Rightarrow> Grant \<Rightarrow> bool" where
  "gate_minted sh0 evs g \<longleftrightarrow>
     (\<exists>evs1 env h r out evs2 sh1 ip body nonce rnd t. evs = evs1 @ GateServed env h r out # evs2 \<and>
        gate_run serve mint sh0 evs1 sh1 \<and> client h r = Some ip \<and>
        gate_mints env (policy h) ip r (sweep (env_now env 0) sh1) body nonce rnd t g)"

lemma run_inv: "gate_run serve mint sh0 evs sh \<Longrightarrow> shared_inv sh0 \<Longrightarrow> shared_inv sh \<and> sh_nonceKey sh = sh_nonceKey sh0"
proof (induction rule: gate_run.induct)
  case (code evs sh d c kid origins exp)
  then have "sh_once sh" by (simp add: shared_inv_def)
  then obtain codes where "mint d c kid origins exp sh = sh\<lparr>sh_codes := codes\<rparr>" using mint_codes by blast
  then show ?case using code by (simp add: shared_inv_def)
qed (use keeps in auto)

lemma run_minted:
  "gate_run serve mint sh0 evs sh \<Longrightarrow> shared_inv sh0 \<Longrightarrow> (\<And>k. abs_grants (sh_grants sh0) k = None) \<Longrightarrow>
     abs_grants (sh_grants sh) k = Some g \<Longrightarrow> gate_minted sh0 evs g"
proof (induction arbitrary: k rule: gate_run.induct)
  case (served evs sh env h r out sh')
  have inv: "shared_inv sh" using run_inv served.hyps(1) served.prems(1) by blast
  have "(\<exists>k. abs_grants (sh_grants (sweep (env_now env 0) sh)) k = Some g) \<or>
    (\<exists>ip body nonce rnd t. client h r = Some ip \<and>
       gate_mints env (policy h) ip r (sweep (env_now env 0) sh) body nonce rnd t g)"
    using files [OF served.hyps(2)] served.prems(3) by (auto simp: abs_Put split: if_splits)
  then show ?case
  proof
    assume "\<exists>k. abs_grants (sh_grants (sweep (env_now env 0) sh)) k = Some g"
    then have "gate_minted sh0 evs g" using sweep_grants [OF inv] served.IH [OF served.prems(1,2)] by blast
    then show ?thesis unfolding gate_minted_def by (metis append_Cons append_assoc)
  next
    assume "\<exists>ip body nonce rnd t. client h r = Some ip \<and>
       gate_mints env (policy h) ip r (sweep (env_now env 0) sh) body nonce rnd t g"
    then show ?thesis using served.hyps(1) unfolding gate_minted_def by blast
  qed
next
  case (code evs sh d c kid origins exp)
  have "sh_once sh" using run_inv [OF code.hyps] code.prems(1) by (simp add: shared_inv_def)
  then obtain codes where "mint d c kid origins exp sh = sh\<lparr>sh_codes := codes\<rparr>" using mint_codes by blast
  then have "gate_minted sh0 evs g" using code by simp
  then show ?case unfolding gate_minted_def by (metis append_Cons append_assoc)
qed simp

lemma passes_sound:
  assumes "gate_run serve mint sh0 evs sh" and "shared_inv sh0" and "\<And>k. abs_grants (sh_grants sh0) k = None"
    and "serve env h r sh = (Next, sh')"
  shows "\<exists>ip g. client h r = Some ip \<and>
    grant_ok (Some (gp_reg (policy h))) (env_now env 1) (CanonServerName (rq_Host r)) ip (grant_cookie r) g \<and>
    (gp_Binding (policy h) = BindingIPCookie \<longrightarrow> g_Binding g = BindingIPCookie) \<and> gate_minted sh0 evs g"
proof -
  have inv: "shared_inv sh" using run_inv [OF assms(1,2)] by simp
  obtain ip g where ip: "client h r = Some ip" and sh': "sh' = sweep (env_now env 0) sh"
    and b: "gp_Binding (policy h) = BindingIPCookie \<longrightarrow> g_Binding g = BindingIPCookie"
    and a: "IsAllowed (sh_grants sh') (CanonServerName (rq_Host r)) ip (Some (gp_reg (policy h))) (env_now env 1) (grant_cookie r) = Some g"
    using passes [OF assms(4)] by blast
  obtain k where "abs_grants (sh_grants sh') k = Some g" using IsAllowed_stored [OF a] by blast
  then have "gate_minted sh0 evs g" using sh' sweep_grants [OF inv] run_minted [OF assms(1-3)] by blast
  then show ?thesis using ip b IsAllowed_stored [OF a] by blast
qed

lemma spent_served:
  assumes "serve env h r sh = (out, sh')" and "spent_until (sh_nonces sh) nid until"
    and "max (env_now env 0) (env_now env 2) < until"
  shows "spent_until (sh_nonces sh') nid until"
  using spends [OF assms(1)] sweep_spent [OF assms(2), of "env_now env 0"] assms(3)
  by (auto simp: gate_spent_def spent_until_Claim)

lemma spent_run:
  "gate_run serve mint sh0 evs sh \<Longrightarrow> shared_inv sh0 \<Longrightarrow> spent_until (sh_nonces sh0) nid until \<Longrightarrow>
     (\<And>e. e \<in> set evs \<Longrightarrow> gate_time e < until) \<Longrightarrow> spent_until (sh_nonces sh) nid until"
proof (induction rule: gate_run.induct)
  case (served evs sh env h r out sh')
  show ?case
    by (rule spent_served [OF served.hyps(2)])
      (use served.IH [OF served.prems(1,2)] served.prems(3) [of "GateServed env h r out"] served.prems(3) in auto)
next
  case (code evs sh d c kid origins exp)
  have "sh_once sh" using run_inv [OF code.hyps] code.prems(1) by (simp add: shared_inv_def)
  then obtain codes where "mint d c kid origins exp sh = sh\<lparr>sh_codes := codes\<rparr>" using mint_codes by blast
  then show ?case using code by simp
qed

text \<open>A nonce that was accepted is not accepted again by any handler whose nonce lifetime is not longer.\<close>

lemma single_use:
  assumes "shared_inv sh" and "client h r = Some ip"
    and "gate_mints env (policy h) ip r (sweep (env_now env 0) sh) body nonce rnd t g"
    and "gate_run serve mint (snd (serve env h r sh)) evs sh'"
    and "is_i64 (env_now env 2)" and "env_now env 2 + gp_NonceTTL (policy h) < 2 ^ 63" and "is_i64 (env_now env' 2)"
    and "env_now env' 0 \<le> env_now env' 2"
    and "\<And>e. e \<in> set evs \<Longrightarrow> gate_time e \<le> env_now env' 2" and "gp_NonceTTL (policy h') \<le> gp_NonceTTL (policy h)"
  shows "\<not> gate_mints env' (policy h') ip' r' (sweep (env_now env' 0) sh') body' nonce rnd' t' g'"
proof
  assume again: "gate_mints env' (policy h') ip' r' (sweep (env_now env' 0) sh') body' nonce rnd' t' g'"
  let ?u = "env_now env 2 + gp_NonceTTL (policy h)" and ?sh = "snd (serve env h r sh)"
  obtain out where srv: "serve env h r sh = (out, ?sh)" by (metis prod.collapse)
  have inv: "shared_inv ?sh" and key: "sh_nonceKey ?sh = sh_nonceKey sh" using keeps [OF srv assms(1)] by auto
  have key': "sh_nonceKey sh' = sh_nonceKey sh" using run_inv [OF assms(4) inv] key by simp
  note v = assms(3) [unfolded gate_mints_def gate_verified_def]
  note v' = again [unfolded gate_mints_def gate_verified_def]
  have w: "rnd' = rnd \<and> env_now env' 2 < ?u"
    using v v' by (intro verified_window [OF _ assms(5) _ assms(7,10)]) (auto simp: key')
  have "0 \<le> env_now env 2 \<and> 0 < gp_NonceTTL (policy h)" using v by (auto dest: verified_positive [OF assms(5)])
  then have "i64 ?u = ?u" using assms(6) by (simp add: i64_id is_i64_def)
  then have "spent_until (sh_nonces ?sh) (B64u rnd) ?u"
    using mints_spend [OF assms(2,3)] v by (auto simp: gate_spent_def intro!: Claim_spends)
  then have "spent_until (sh_nonces sh') (B64u rnd) ?u"
    using w assms(9) by (intro spent_run [OF assms(4) inv]) fastforce+
  then have "spent_until (sh_nonces (sweep (env_now env' 0) sh')) (B64u rnd) ?u"
    using w assms(8) by (intro sweep_spent) auto
  then show False using v' w spent_until_refused by blast
qed

end

end
