(* ===== verification/Deployment.thy ===== *)
theory Deployment
  imports Cycle
begin

text \<open>
  A deployment the properties are tried on: the sample configuration of \<open>Config\<close> (one service \<open>app\<close>
  open to any registered token, one token \<open>laptop\<close>, proxies in \<^verbatim>\<open>10.0.0.0/8\<close>), its server after the start, and a client
  at \<^verbatim>\<open>192.0.2.1\<close> behind the proxy \<^verbatim>\<open>10.0.0.2\<close> that knocks and is admitted.
\<close>

section \<open>The server\<close>

definition sample_reg :: Registry where
  "sample_reg = (case Config_Registry sample_final of Inr reg \<Rightarrow> reg | Inl err \<Rightarrow> NewRegistry None None)"

definition sample_server :: Server where
  "sample_server =
     \<lparr>sv_cfg = sample_final, sv_reg = sample_reg, sv_grants = NewGrantStore, sv_nonces = NewNonceStore,
      sv_codes = NewEnrollStore, sv_nonceKey = replicate 32 0, sv_rl = NewRateLimiter DefaultRateLimitEntries,
      sv_metrics = zero_metrics, sv_mux = Some (buildMuxLocked sample_final)\<rparr>"

definition app_service :: ServiceConfig where
  "app_service = \<lparr>sc_Tokens = [''*''], sc_FailureMode = [], sc_Binding = [], sc_GrantTTL = 0\<rparr>"

definition laptop :: TokenConfig where
  "laptop = \<lparr>tc_Kid = ''laptop'', tc_Secret = B64u (replicate 16 5), tc_Label = [], tc_Expires = 0\<rparr>"

lemma sample_ok: "config_ok sample_final"
  using finalize_config_ok [OF sample_finalize] .

lemma sample_registry: "Config_Registry sample_final = Inr sample_reg"
proof -
  obtain r where "Config_Registry sample_final = Inr r" using Config_Registry_ok [OF sample_ok] by blast
  then show ?thesis by (simp add: sample_reg_def)
qed

lemma sample_started: "started sample_server"
proof -
  have "map (\<lambda>i. 0) [0..<32] = (replicate 32 0 :: bytes)" by (simp add: map_replicate_const)
  then have "NewServer (with_listen [] sample_final) (Some (\<lambda>i. 0)) = Inr (sample_server\<lparr>sv_mux := None\<rparr>)"
    by (simp add: with_listen_def NewServer_def sample_registry RandomBytes_def sample_server_def)
  then have "started (Handler (sample_server\<lparr>sv_mux := None\<rparr>))" using sample_finalize by (intro started.start)
  then show ?thesis by (simp add: Handler_def sample_server_def)
qed

lemma sample_run: "run [] sample_server"
  using sample_started steps.none by (auto simp: run_def)

lemma sample_fields [simp]:
  "sv_cfg sample_server = sample_final" "sv_reg sample_server = sample_reg" "sv_nonces sample_server = NewNonceStore"
  "sv_codes sample_server = NewEnrollStore" "sv_grants sample_server = NewGrantStore"
  "sv_mux sample_server = Some (buildMuxLocked sample_final)"
  by (simp_all add: sample_server_def)

lemma sample_options [simp]:
  "cf_NonceTTL sample_final = 60" "cf_GrantTTL sample_final = 3600" "cf_RateLimit sample_final = 10"
  "cf_IPv6Prefix sample_final = 128" "cf_RealIPHeader sample_final = ''X-Forwarded-For''"
  "cf_AdminListen sample_final = []" "cf_AdminToken sample_final = []"
  by (simp_all add: sample_final_def sample_config_def fill_defaults_def DefaultConfig_def)

lemma sample_prefix [simp]: "cf_URIPrefix sample_final = ''/.well-known/jit-access''"
proof -
  have "''/'' @ Trim DefaultURIPrefix ''/'' = ''/.well-known/jit-access''" by code_simp
  then show ?thesis
    by (simp add: sample_final_def sample_config_def fill_defaults_def DefaultConfig_def DefaultURIPrefix_def)
qed

lemma sample_service: "Service sample_final ''app'' = Some app_service"
proof -
  have "CanonServerName ''app'' = ''app''" by code_simp
  then show ?thesis
    using Service_Some_iff [OF sample_ok, of "''app''"]
    by (auto simp: sample_final_def sample_config_def fill_defaults_def app_service_def)
qed

lemma sample_permits: "permits (Some sample_reg) ''laptop'' ''app'' now (token_of laptop)"
proof -
  have "effective_service sample_final ''app'' = Some app_service" by (simp add: effective_service_def sample_service)
  then show ?thesis
    using permits_config [OF sample_ok sample_registry, of "''laptop''" "''app''" now "token_of laptop"]
    by (auto simp: sample_final_def sample_config_def fill_defaults_def app_service_def laptop_def)
qed

lemma app_options [simp]:
  "binding app_service = BindingIP" "failureMode app_service = FailInterstitial" "grantTTL sample_final app_service = 3600"
  by (simp_all add: app_service_def binding_def failureMode_def grantTTL_def)

section \<open>A client behind the proxy\<close>

definition sample_knock :: "string \<Rightarrow> string \<Rightarrow> Request" where
  "sample_knock meth path =
     (sample_request ''10.0.0.2:5000'' [(''X-Forwarded-For'', ''192.0.2.1'')])
       \<lparr>rq_Method := meth, rq_Path := path, rq_EscapedPath := path\<rparr>"

definition sample_env :: "int \<Rightarrow> respondBody option \<Rightarrow> Env" where
  "sample_env now body =
     \<lparr>env_now = \<lambda>i. now, env_draw = \<lambda>i. Some (\<lambda>j. 0), env_url = \<lambda>u. None, env_respond = \<lambda>n b. body,
      env_enroll = \<lambda>n b. None\<rparr>"

definition sample_ctx :: "string \<Rightarrow> reqCtx" where
  "sample_ctx path = \<lparr>rc_service = ''app'', rc_ip = ''192.0.2.1'', rc_uri = path, rc_svc = app_service, rc_known = True\<rparr>"

lemma sample_env_fields [simp]:
  "env_now (sample_env now body) i = now" "env_draw (sample_env now body) i = Some (\<lambda>j. 0)"
  "env_respond (sample_env now body) n b = body" "env_enroll (sample_env now body) n b = None"
  by (simp_all add: sample_env_def)

lemma sample_ctx_fields [simp]:
  "rc_service (sample_ctx p) = ''app''" "rc_ip (sample_ctx p) = ''192.0.2.1''" "rc_uri (sample_ctx p) = p"
  "rc_svc (sample_ctx p) = app_service" "rc_known (sample_ctx p)"
  by (simp_all add: sample_ctx_def)

lemma knock_fields [simp]:
  "rq_Method (sample_knock m p) = m" "rq_Path (sample_knock m p) = p" "rq_EscapedPath (sample_knock m p) = p"
  by (simp_all add: sample_knock_def)

lemma knock_peer: "peerAddr (sample_knock m p) = Some (Addr4 0x0a000002)"
  using sample_proxy(1) [of "[(''X-Forwarded-For'', ''192.0.2.1'')]"] by (simp add: peerAddr_def sample_knock_def)

lemma knock_ClientIP: "ClientIP sample_final (sample_knock m p) = (Inr ''192.0.2.1'', True)"
proof -
  have l: "forwardedList (sample_knock m p) ''X-Forwarded-For'' = [''192.0.2.1'']"
  proof -
    have "forwardedList (sample_request ''10.0.0.2:5000'' [(''X-Forwarded-For'', ''192.0.2.1'')]) ''X-Forwarded-For''
      = [''192.0.2.1'']" by code_simp
    then show ?thesis by (simp add: forwardedList_def Header_Values_def sample_knock_def)
  qed
  have a: "ParseAddr ''192.0.2.1'' = Some (Addr4 0xc0000201)" "Unmap (Addr4 0xc0000201) = Addr4 0xc0000201"
    "CanonIP (AddrString (Addr4 0xc0000201)) 128 32 = Inr ''192.0.2.1''" by code_simp+
  show ?thesis
    using ClientIP_proxied [OF knock_peer sample_proxy(2), of m p] sample_outsider(2) by (simp add: l a)
qed

lemma knock_target: "resolveTarget (\<lambda>u. None) sample_final (sample_knock m p) = Some (''app'', cleanURIPath p)"
proof -
  have "forwardedViews (\<lambda>u. None) (sample_request ''10.0.0.2:5000'' [(''X-Forwarded-For'', ''192.0.2.1'')]) = []"
    by code_simp
  then have v: "forwardedViews (\<lambda>u. None) (sample_knock m p) = []"
    by (simp add: forwardedViews_def Header_Get_def Header_Values_def sample_knock_def)
  have "CanonServerName (rq_Host (sample_knock m p)) = ''app''"
  proof -
    have "CanonServerName ''app'' = ''app''" by code_simp
    then show ?thesis by (simp add: sample_knock_def sample_request_def)
  qed
  then show ?thesis using knock_peer sample_proxy(2) v by (simp add: resolveTarget_def)
qed

lemma knock_resolve:
  "sv_cfg s = sample_final \<Longrightarrow> resolve (sample_env now body) s (sample_knock m p) = Some (sample_ctx (cleanURIPath p))"
  using knock_ClientIP [of m p] knock_target [of m p]
  by (simp add: resolve_def sample_env_def sample_service sample_ctx_def)

lemma knock_proxy: "sv_cfg s = sample_final \<Longrightarrow> from_proxy s (sample_knock m p)"
  using knock_peer sample_proxy(2) by (simp add: from_proxy_def)

lemma knock_rate:
  "rate_ok (sample_env now body) sample_server (sample_ctx p)"
  "rate_ok (sample_env now body) (counted (sample_env now' body') sample_server (sample_ctx p')) (sample_ctx p)"
  by (simp_all add: rate_ok_def counted_def sample_server_def sample_ctx_def Allow_def NewRateLimiter_def
      DefaultRateLimitEntries_def Let_def sample_env_def i64_def)

section \<open>Its knock\<close>

definition sample_mux_env :: "Env \<Rightarrow> AdminEnv" where
  "sample_mux_env env = Env.extend env
     \<lparr>env_grant = \<lambda>n b. None, env_revoke = \<lambda>n b. None, env_revokeToken = \<lambda>n b. None, env_enrollCode = \<lambda>n b. None\<rparr>"

lemma truncate_mux_env [simp]: "Env.truncate (sample_mux_env env) = env"
  by (cases env) (simp add: sample_mux_env_def Env.defs)

definition challenge_path :: string where
  "challenge_path = ''/.well-known/jit-access/challenge''"

definition respond_path :: string where
  "respond_path = ''/.well-known/jit-access/respond''"

lemma sample_routes:
  "\<not> muxWouldRedirect challenge_path" "mux_clean challenge_path = challenge_path"
  "mux_route (buildMuxLocked sample_final) challenge_path = RChallenge"
  "\<not> muxWouldRedirect respond_path" "mux_clean respond_path = respond_path"
  "mux_route (buildMuxLocked sample_final) respond_path = RRespond"
  by (simp_all add: mux_route_def buildMuxLocked_def) code_simp+

text \<open>The nonce of the sample challenge, and the client's answer to it.\<close>

definition sample_nonce :: bytes where
  "sample_nonce =
     (case IssueNonce (replicate 32 0) (word_of_int 1000) (rand16 (\<lambda>j. 0)) ''app'' ''192.0.2.1'' 128 of
        Inr nonce \<Rightarrow> nonce | Inl err \<Rightarrow> [])"

definition sample_body :: respondBody where
  "sample_body = \<lparr>rb_V = 1, rb_Kid = ''laptop'', rb_Nonce = B64u sample_nonce,
     rb_Proof = B64u (BuildProof (tok_Secret (token_of laptop)) ''app'' ''laptop'' sample_nonce)\<rparr>"

definition sample_minted :: Grant where
  "sample_minted = \<lparr>g_V = 1, g_Kid = ''laptop'', g_Service = ''app'', g_IP = ''192.0.2.1'', g_Binding = BindingIP,
     g_CookieHash = [], g_Issued = 1010, g_Exp = 4610, g_Manual = False, g_SecretFP = Fingerprint (Some (token_of laptop))\<rparr>"

lemma sample_issued:
  "IssueNonce (replicate 32 0) (word_of_int 1000) (rand16 (\<lambda>j. 0)) ''app'' ''192.0.2.1'' 128 = Inr sample_nonce"
proof -
  have "CanonIP ''192.0.2.1'' 128 32 = Inr ''192.0.2.1''" by code_simp
  then have "\<exists>n. IssueNonce (replicate 32 0) (word_of_int 1000) (rand16 (\<lambda>j. 0)) ''app'' ''192.0.2.1'' 128 = Inr n"
    by (auto simp: IssueNonce_Inr_iff)
  then show ?thesis by (auto simp: sample_nonce_def)
qed

lemma sample_mints:
  assumes "s = sample_server \<or> s = counted (sample_env 1000 body) sample_server (sample_ctx p)"
  shows "knock_mints (sample_env 1010 (Some sample_body)) s (sample_knock ''POST'' respond_path)
    (sample_ctx respond_path) sample_body sample_nonce (rand16 (\<lambda>j. 0)) (token_of laptop) sample_minted []"
proof -
  let ?e = "sample_env 1010 (Some sample_body)"
  have s: "sv_cfg s = sample_final" "sv_reg s = sample_reg" "sv_nonces s = NewNonceStore" "sv_nonceKey s = replicate 32 0"
    "rate_ok ?e s (sample_ctx respond_path)"
    using assms knock_rate by (auto simp: counted_def sample_server_def)
  have "cleanURIPath respond_path = respond_path" by code_simp
  then have "resolve ?e s (sample_knock ''POST'' respond_path) = Some (sample_ctx respond_path)"
    using knock_resolve [OF s(1)] by simp
  moreover have "knock_verified ?e s (sample_ctx respond_path) sample_body sample_nonce (rand16 (\<lambda>j. 0)) (token_of laptop)"
    by (rule respond_verifies [where ts = 1000])
      (use s sample_issued sample_permits in \<open>simp_all add: sample_ctx_def sample_env_def sample_body_def client_answers_def
        NewNonceStore_def\<close>)
  moreover have "mintGrant ?e s (sample_ctx respond_path) ''laptop'' (token_of laptop) = Inr (sample_minted, [])"
    by (simp add: mintGrant_def s(1) sample_ctx_def sample_env_def sample_minted_def i64_def)
  ultimately show ?thesis
    using s(5) by (simp add: knock_mints_def sample_ctx_def sample_env_def sample_body_def)
qed

text \<open>Its administrator.\<close>

definition admin_secret :: string where
  "admin_secret = ''0123456789abcdef''"

definition sample_admin :: "string \<Rightarrow> Request" where
  "sample_admin path = (sample_knock ''POST'' path)\<lparr>rq_Header := [(''Authorization'', ''Bearer '' @ admin_secret)]\<rparr>"

lemma sample_admin_fields [simp]: "rq_Path (sample_admin p) = p" "rq_Method (sample_admin p) = ''POST''"
  by (simp_all add: sample_admin_def)

lemma sample_admin_auth:
  assumes "cf_trusted (sv_cfg s) = cf_trusted sample_final" and "cf_AdminToken (sv_cfg s) = admin_secret"
  shows "admin_auth s (sample_admin p)"
proof -
  have "peerAddr (sample_admin p) = Some (Addr4 0x0a000002)"
    using knock_peer [of "''POST''" p] by (simp add: peerAddr_def sample_admin_def)
  then have "from_proxy s (sample_admin p)" using sample_proxy(2) assms(1) by (simp add: from_proxy_def isTrusted_def)
  moreover have "TrimPrefix (Header_Get (sample_admin p) ''Authorization'') ''Bearer '' = admin_secret"
  proof -
    have "CanonicalHeaderKey ''Authorization'' = ''Authorization''"
      "TrimPrefix (''Bearer '' @ admin_secret) ''Bearer '' = admin_secret" by code_simp+
    then show ?thesis by (simp add: Header_Get_def Header_Values_def sample_admin_def)
  qed
  ultimately show ?thesis using assms(2) by (simp add: admin_auth_def admin_secret_def)
qed

text \<open>The knock as a run of the program.\<close>

definition sample_knocked :: Server where
  "sample_knocked = snd (handleRespond (sample_env 1010 (Some sample_body)) sample_server (sample_knock ''POST'' respond_path))"

lemma sample_knocked_eq:
  "sample_knocked = put_grant (sample_knock ''POST'' respond_path) sample_minted
     (spend (sample_env 1010 (Some sample_body)) (rand16 (\<lambda>j. 0))
       (counted (sample_env 1010 (Some sample_body)) sample_server (sample_ctx respond_path)))"
  using handleRespond_mints [OF sample_mints, of sample_server] by (simp add: sample_knocked_def)

lemma sample_knocked_fields:
  "sv_cfg sample_knocked = sample_final" "sv_reg sample_knocked = sample_reg"
  "sv_grants sample_knocked = Put NewGrantStore (Some sample_minted) [oldCookieHash (sample_knock ''POST'' respond_path)]"
  by (simp_all add: sample_knocked_eq put_grant_def spend_def)

definition sample_event :: event where
  "sample_event = Served (sample_mux_env (sample_env 1010 (Some sample_body))) (sample_knock ''POST'' respond_path)
     (NoContent [(''Cache-Control'', ''no-store'')])"

lemma sample_step: "step sample_server sample_event sample_knocked"
  using handleRespond_mints [OF sample_mints, of sample_server]
  unfolding sample_event_def
  by (intro step.serve) (simp add: serve_def mux_serve_def sample_routes serve_route_def sample_knocked_def)

lemma sample_steps: "steps sample_server [sample_event] sample_knocked"
  using steps.snoc [OF steps.none sample_step] by simp

lemma sample_cookie: "grant_cookie (sample_knock m p) = []"
proof -
  have "readCookies (sample_request ''10.0.0.2:5000'' [(''X-Forwarded-For'', ''192.0.2.1'')]) GrantCookieName = []"
    by code_simp
  then have "readCookies (sample_knock m p) GrantCookieName = []"
    by (simp add: readCookies_def Header_Values_def sample_knock_def)
  then show ?thesis by (simp add: grant_cookie_def Request_Cookie_def)
qed

lemma sample_authz:
  "authz_grants (sample_env 2000 None) sample_knocked (sample_knock ''GET'' ''/'') (sample_ctx ''/'') sample_minted"
proof -
  have root: "cleanURIPath ''/'' = ''/''" by code_simp
  have "findGrant (sv_grants sample_knocked) ''app'' ''192.0.2.1'' [] = Some sample_minted"
    using findGrant_Put_ip [of sample_minted "[]"] by (simp add: sample_knocked_fields sample_minted_def)
  moreover have "grant_ok (Some sample_reg) 2000 ''app'' ''192.0.2.1'' [] sample_minted"
    using sample_permits [of 2000] by (auto simp: grant_ok_def sample_minted_def)
  ultimately show ?thesis
    using knock_resolve [OF sample_knocked_fields(1), of 2000 None "''GET''" "''/''"]
    by (simp add: authz_grants_def root sample_knocked_fields isProtocolURI_def sample_cookie IsAllowed_Some_iff)
qed

lemma sample_admitted_at:
  assumes "cleanURIPath p = p" and "\<not> isProtocolURI ''/.well-known/jit-access'' p"
  shows "fst (handleAuthz (sample_env 2000 None) sample_knocked (sample_knock ''GET'' p)) = NoContent [(''X-Jit-Kid'', ''laptop'')]"
proof -
  have "fst (handleAuthz (sample_env 2000 None) sample_knocked (sample_knock ''GET'' p)) =
      NoContent [(''X-Jit-Kid'', rb_Kid sample_body)]"
    unfolding sample_knocked_def
    by (rule authz_admits [OF sample_mints knock_proxy knock_resolve])
      (use assms in \<open>simp_all add: sample_ctx_def sample_env_def sample_minted_def sample_body_def
        sample_permits shows_cookie_def sample_cookie\<close>)
  then show ?thesis by (simp add: sample_body_def)
qed

lemma sample_admitted:
  "fst (handleAuthz (sample_env 2000 None) sample_knocked (sample_knock ''GET'' ''/'')) = NoContent [(''X-Jit-Kid'', ''laptop'')]"
proof -
  have "cleanURIPath ''/'' = ''/''" by code_simp
  then show ?thesis by (rule sample_admitted_at) (simp add: isProtocolURI_def)
qed

lemma sample_admitted_authz:
  "fst (handleAuthz (sample_env 2000 None) sample_knocked (sample_knock ''GET'' ''/authz'')) = NoContent [(''X-Jit-Kid'', ''laptop'')]"
proof -
  have "cleanURIPath ''/authz'' = ''/authz''" "\<not> isProtocolURI ''/.well-known/jit-access'' ''/authz''" by code_simp+
  then show ?thesis by (rule sample_admitted_at)
qed

lemma sample_challenge:
  "handleChallenge (sample_env 1000 None) sample_server (sample_knock ''GET'' challenge_path) =
     (NoContent [(''X-Jit-Nonce'', B64u sample_nonce), (''X-Jit-Ts'', FormatInt 1000), (''Cache-Control'', ''no-store'')],
      counted (sample_env 1000 None) sample_server (sample_ctx challenge_path))"
proof -
  let ?e = "sample_env 1000 None"
  have "cleanURIPath challenge_path = challenge_path" by code_simp
  then have r: "resolve ?e sample_server (sample_knock ''GET'' challenge_path) = Some (sample_ctx challenge_path)"
    using knock_resolve [of sample_server] by simp
  have "rc_known (sample_ctx challenge_path)" "env_draw ?e 0 = Some (\<lambda>j. 0)" by (simp_all add: sample_ctx_def sample_env_def)
  then obtain nonce where "IssueNonce (sv_nonceKey sample_server) (word_of_int (env_now ?e 1)) (rand16 (\<lambda>j. 0))
        (rc_service (sample_ctx challenge_path)) (rc_ip (sample_ctx challenge_path))
        (cf_IPv6Prefix (sv_cfg sample_server)) = Inr nonce"
    and h: "handleChallenge ?e sample_server (sample_knock ''GET'' challenge_path) =
      (NoContent [(''X-Jit-Nonce'', B64u nonce), (''X-Jit-Ts'', FormatInt (env_now ?e 1)), (''Cache-Control'', ''no-store'')],
       counted ?e sample_server (sample_ctx challenge_path))"
    using challenge_answers [OF r _ _ knock_rate(1)] by (metis knock_fields(1))
  then have "nonce = sample_nonce"
    using sample_issued by (simp add: sample_ctx_def sample_env_def sample_server_def)
  then show ?thesis using h by (simp add: sample_env_def)
qed

end
