(* ===== verification/ConcurrentProps.thy ===== *)
theory ConcurrentProps
  imports Interference Gate Deployment
begin

text \<open>
  The properties of the Authorizer under every interleaving of its goroutines.
\<close>

section \<open>The invariant\<close>

lemma wf_grant_under:
  assumes "knock_under Cs key env r c cfg body nonce rnd t" and "Cs \<subseteq> Collect config_ok"
    and "mint_under env cfg c (rb_Kid body) t = Inr (g, cookie)"
  shows "wf_grant g"
proof -
  obtain s where s: "in_force Cs key s" "resolve env s r = Some c" and known: "rc_known c"
    using assms(1) by (auto simp: knock_under_def)
  have m: "mintGrant env (s\<lparr>sv_cfg := cfg\<rparr>) c (rb_Kid body) t = Inr (g, cookie)" using assms(3) by (simp add: mint_under_eq)
  have "config_ok (sv_cfg s)" using s(1) assms(2) by (auto simp: in_force_def)
  then have "modes_ok (rc_svc c)" using resolve_Some(4) [OF s(2) known] Service_modes_ok by blast
  then have "binding (rc_svc c) = BindingIP \<or> binding (rc_svc c) = BindingIPCookie" by (rule binding_cases)
  then show ?thesis using mintGrant_fields [OF m] resolve_Some [OF s(2)] by (auto simp: wf_grant_def)
qed

lemma wf_grant_admin_under: "admin_under Cs key env r g \<Longrightarrow> wf_grant g"
  by (auto simp: admin_under_def admin_grant_under_def Let_def wf_grant_def CanonServerName_idem short_CanonIP)

lemma server_inv_effect:
  assumes "effect (Collect config_ok) key j s s'" and "server_inv s"
  shows "server_inv s'"
  using assms
proof (induction rule: effect.induct)
  case (grants env r c cfg body nonce rnd t g cookie s)
  then have "wf_grant g" using wf_grant_under by blast
  then show ?case using grants.prems by (simp add: server_inv_def grant_inv_Put wf_grants_Put)
next
  case (admin_grants env r g s)
  then have "wf_grant g" using wf_grant_admin_under by blast
  then show ?case using admin_grants.prems by (simp add: server_inv_def grant_inv_Put wf_grants_Put)
next
  case (reloads listenOv c s)
  then show ?case by (rule server_inv_sighup)
qed (simp_all add: server_inv_def rl_inv_Allow grant_inv_Revoke grant_inv_RevokeToken grant_inv_Sweep rl_inv_Sweep wf_grants_drop)

interpretation inv: authorizer_rely "Collect config_ok" key "\<lambda>j. True" server_inv for key
  by unfold_locales (auto simp: finalize_config_ok intro: server_inv_effect)

lemma server_inv_in_force: "server_inv s \<Longrightarrow> config_ok (sv_cfg s) \<and> in_force (Collect config_ok) (sv_nonceKey s) s"
  by (simp add: server_inv_def in_force_def)

lemma execution_inv:
  assumes "started s0" and "execution s0 tr" and "sys \<in> set tr"
  shows "server_inv (fst sys)" and "sv_nonceKey (fst sys) = sv_nonceKey s0"
proof -
  obtain tr' where tr': "execution s0 tr'" "last tr' = sys" using execution_prefix [OF assms(2,3)] by blast
  have "inv.good (sv_nonceKey s0) s0"
    using server_inv_started [OF assms(1)] server_inv_in_force by (simp add: inv.good_def)
  then have "inv.kept (sv_nonceKey s0) sys" using inv.execution_kept [OF tr'(1)] tr'(2) by simp
  then show "server_inv (fst sys)" and "sv_nonceKey (fst sys) = sv_nonceKey s0"
    by (simp_all add: inv.kept_def inv.good_def in_force_def)
qed

text \<open>C9: every interleaving keeps the server well formed. Whatever requests run at the same time, with sweeps and reloads between any two of
  their actions, the state of the server satisfies the invariant at every moment: a valid configuration with its registry and its routing
  table, an index that agrees with the table of grants, grants in canonical form, a bounded rate limiter, and the nonce key it
  started with, which no reload replaces.\<close>

theorem concurrent_invariant:
  assumes "started s0" and "execution s0 tr" and "sys \<in> set tr"
  shows "server_inv (fst sys) \<and> sv_nonceKey (fst sys) = sv_nonceKey s0"
  using execution_inv [OF assms] by blast

text \<open>The sample knock as a goroutine.\<close>

lemma mux_env_fields [simp]:
  "env_now (sample_mux_env env) = env_now env" "env_draw (sample_mux_env env) = env_draw env"
  "env_respond (sample_mux_env env) = env_respond env" "env_enroll (sample_mux_env env) = env_enroll env"
  by (simp_all add: sample_mux_env_def Env.defs)

definition knock_job :: job where
  "knock_job = Handle RRespond (sample_mux_env (sample_env 1010 (Some sample_body))) (sample_knock ''POST'' respond_path)"

lemma sample_routed:
  "\<not> muxWouldRedirect ''/authz''" "routed (mux_route (buildMuxLocked sample_final)) (sample_knock m ''/authz'') = Some RAuthz"
  "\<not> muxWouldRedirect ''/admin/enroll-code''" "routed (mux_route (buildMuxLocked sample_final)) (sample_admin ''/admin/enroll-code'') = Some RAdmin"
  "\<not> muxWouldRedirect ''/.well-known/jit-access/enroll''"
  "routed (mux_route (buildMuxLocked sample_final)) (sample_knock m ''/.well-known/jit-access/enroll'') = Some REnroll"
proof -
  have "mux_clean ''/authz'' = ''/authz''" "mux_clean ''/admin/enroll-code'' = ''/admin/enroll-code''"
    "mux_clean ''/.well-known/jit-access/enroll'' = ''/.well-known/jit-access/enroll''" by code_simp+
  then show "routed (mux_route (buildMuxLocked sample_final)) (sample_knock m ''/authz'') = Some RAuthz"
    and "routed (mux_route (buildMuxLocked sample_final)) (sample_admin ''/admin/enroll-code'') = Some RAdmin"
    and "routed (mux_route (buildMuxLocked sample_final)) (sample_knock m ''/.well-known/jit-access/enroll'') = Some REnroll"
    by (simp_all add: routed_def mux_route_def buildMuxLocked_def sample_admin_def) code_simp+
qed code_simp+

lemma knock_dispatched: "sv_mux s = Some (buildMuxLocked sample_final) \<Longrightarrow> dispatches s knock_job"
  by (simp add: knock_job_def sample_routes routed_def)

lemma sample_knocked_mux: "sv_mux sample_knocked = Some (buildMuxLocked sample_final)"
  by (simp add: sample_knocked_eq put_grant_def spend_def counted_def)

lemma knock_job_alone: "alone (job_prog knock_job) sample_server = (Some (NoContent [(''Cache-Control'', ''no-store'')]), sample_knocked)"
  using handleRespond_mints [OF sample_mints, of sample_server]
  by (simp add: knock_job_def serve_route_def sample_knocked_def)

theorem concurrent_invariant_witness:
  "\<exists>tr. execution sample_server tr \<and> last tr = (sample_knocked, [(knock_job, Reply (NoContent [(''Cache-Control'', ''no-store'')]))]) \<and>
     server_inv (fst (last tr)) \<and> sv_nonceKey (fst (last tr)) = sv_nonceKey sample_server"
proof -
  obtain tr where tr: "execution sample_server tr" "last tr = in_turn job_prog [knock_job] (sample_server, [])"
    using begin_in_turn [of job_prog dispatches "[knock_job]" sample_server] knock_dispatched by auto
  have "server_inv (fst (last tr)) \<and> sv_nonceKey (fst (last tr)) = sv_nonceKey sample_server"
    using concurrent_invariant [OF sample_started tr(1) last_in_set [OF execution_nonempty [OF tr(1)]]] .
  then show ?thesis using tr by (intro exI [of _ tr]) (simp add: knock_job_alone)
qed

section \<open>Nonces\<close>

text \<open>Jobs of an execution in which the nonce lifetime is \<open>ttl\<close> throughout, clocks do not overflow, and no sweep has run at or after the time \<open>until\<close>.\<close>

fun steady :: "int \<Rightarrow> int \<Rightarrow> job \<Rightarrow> bool" where
  "steady ttl until (Handle rt env r) \<longleftrightarrow> is_i64 (env_now env 1) \<and> env_now env 1 + ttl < 2 ^ 63"
| "steady ttl until (Tick now) \<longleftrightarrow> now < until"
| "steady ttl until (Sighup listenOv c) \<longleftrightarrow> (\<forall>nc. finalize c = Inr nc \<longrightarrow> cf_NonceTTL nc = ttl)"

definition knocks_with :: "bytes \<Rightarrow> job \<Rightarrow> bool" where
  "knocks_with nonce j \<longleftrightarrow> (\<exists>env r. j = Handle RRespond env r \<and> sends_nonce (Env.truncate env) r nonce)"

abbreviation ttl_configs :: "int \<Rightarrow> Config set" where
  "ttl_configs ttl \<equiv> {cfg. cf_NonceTTL cfg = ttl}"

lemma spent_effect:
  assumes "effect (ttl_configs ttl) key j s s'" and "steady ttl until j" and "0 < ttl" and "spent_until (sv_nonces s) nid until"
  shows "spent_until (sv_nonces s') nid until"
  using assms(1,2,4)
proof (induction rule: effect.induct)
  case (claims env r c cfg body nonce rnd t s)
  then have "cf_NonceTTL cfg = ttl" by (simp add: knock_under_def)
  then show ?case using claims assms(3) by (simp add: spent_until_Claim_later)
next
  case (sweeps_nonces now s)
  then show ?case by (simp add: spent_until_Sweep)
next
  case (reloads listenOv c s)
  then show ?case by (auto simp: sighup_eq Reload_def split: sum.splits if_splits)
qed simp_all

lemma deny_takes: "takes no_content I T (deny_prog c)" "takes no_content I T (knockFail_prog c)"
  by (auto simp: deny_prog_def knockFail_prog_def inc_def NotFound_def text_error_def interstitial_response_def)

lemma allow_takes: "(\<And>ok. takes no_content I T (k ok)) \<Longrightarrow> takes no_content I T (allow_prog c cfg now k)"
  by (simp add: allow_prog_def case_prod_beta)

text \<open>A knock is accepted only after it claimed its nonce.\<close>

lemma respond_takes:
  assumes "steady ttl (issued_at nonce + ttl) (Handle RRespond env r)" and "0 < ttl" and "sends_nonce (Env.truncate env) r nonce"
  shows "takes no_content (\<lambda>s. in_force (ttl_configs ttl) key s \<and> True)
    (\<lambda>s s'. \<not> spent_until (sv_nonces s) (B64u (random_part nonce)) (issued_at nonce + ttl) \<and>
       spent_until (sv_nonces s') (B64u (random_part nonce)) (issued_at nonce + ttl))
    (respond_prog (Env.truncate env) r)" (is "takes no_content ?I ?T _")
proof -
  obtain body where body: "env_respond env 4096 (rq_Body r) = Some body" "B64uDecode (rb_Nonce body) = Inr nonce"
    using assms(3) by (auto simp: sends_nonce_def)
  have now: "is_i64 (env_now env 1)" "env_now env 1 + ttl < 2 ^ 63" using assms(1) by simp_all
  have accept: "takes no_content ?I ?T (accept_prog (Env.truncate env) r c cfg kid t rnd)"
    if "VerifyNonce k nonce sn ip (env_now env 1) ttl p6 = (True, rnd)" "cf_NonceTTL cfg = ttl" for c cfg kid t rnd k sn ip p6
  proof -
    note w = VerifyNonce_window [OF that(1) now(1)]
    have i: "i64 (env_now env 1 + ttl) = env_now env 1 + ttl" using now assms(2) by (intro i64_id) (simp add: is_i64_def)
    have "?T s (s\<lparr>sv_nonces := snd (Claim (sv_nonces s) (B64u rnd) (env_now env 1) ttl)\<rparr>)"
      if ok: "fst (Claim (sv_nonces s) (B64u rnd) (env_now env 1) ttl)" for s
      using spent_until_refused [of "sv_nonces s" "B64u rnd" "issued_at nonce + ttl" "env_now env 1" ttl] ok w
        spent_until_mono [OF Claim_spends [OF ok i], of "issued_at nonce + ttl"] by auto
    then show ?thesis
      using that(2) by (auto simp: accept_prog_def claim_prog_def case_prod_beta deny_takes)
  qed
  have verify: "takes no_content ?I ?T (verify_prog (Env.truncate env) r c (sv_cfg s) body)" if "in_force (ttl_configs ttl) key s" for c s
  proof -
    have t: "cf_NonceTTL (sv_cfg s) = ttl" using that by (simp add: in_force_def)
    show ?thesis
      using body by (auto simp: verify_prog_def t Let_def deny_takes split: sum.splits prod.splits intro: accept [simplified])
  qed
  show ?thesis
    by (auto simp: respond_prog_def body deny_takes split: option.splits intro!: allow_takes intro: verify [simplified])
qed

interpretation nonce: authorizer_metered "ttl_configs ttl" key "\<lambda>j. 0 < ttl \<and> steady ttl (issued_at nonce + ttl) j" "\<lambda>s. True"
  "knocks_with nonce" "\<lambda>j. False" "\<lambda>s. spent_until (sv_nonces s) (B64u (random_part nonce)) (issued_at nonce + ttl)" for ttl key nonce
proof unfold_locales
  show "with_listen listenOv nc \<in> ttl_configs ttl"
    if "0 < ttl \<and> steady ttl (issued_at nonce + ttl) (Sighup listenOv c)" "finalize c = Inr nc" for listenOv c nc
    using that by (simp add: with_listen_def)
  show "takes no_content (\<lambda>s. in_force (ttl_configs ttl) key s \<and> True)
      (\<lambda>s s'. \<not> spent_until (sv_nonces s) (B64u (random_part nonce)) (issued_at nonce + ttl) \<and>
         spent_until (sv_nonces s') (B64u (random_part nonce)) (issued_at nonce + ttl)) (job_prog j)"
    if "knocks_with nonce j" "0 < ttl \<and> steady ttl (issued_at nonce + ttl) j" for j
    using that respond_takes by (auto simp: knocks_with_def route_prog_def)
qed (use spent_effect in blast)+

text \<open>C6: a nonce works once under every interleaving without a late sweep. However the goroutines of two knocks with the same nonce are interleaved with each other and
  with everything else, at most one of them is answered 204, as long as the nonce lifetime is the same throughout, no tick of the sweeper has
  a time at or after the time the nonce expires, and no clock reading overflows with the lifetime.\<close>

theorem concurrent_nonce_single_use:
  assumes "started s0" and "execution s0 tr" and "cf_NonceTTL (sv_cfg s0) = ttl"
    and "\<And>j. j \<in> jobs_of (last tr) \<Longrightarrow> steady ttl (issued_at nonce + ttl) j"
    and "i < length (snd (last tr))" and "snd (last tr) ! i = (j, p)" and "knocks_with nonce j" and "replied no_content p"
    and "i' < length (snd (last tr))" and "snd (last tr) ! i' = (j', p')" and "knocks_with nonce j'" and "i' \<noteq> i"
  shows "\<not> replied no_content p'"
proof
  assume "replied no_content p'"
  have inv: "server_inv s0" using server_inv_started [OF assms(1)] .
  then have ttl: "0 < ttl" using assms(3) by (auto simp: server_inv_def config_ok_def)
  have "nonce.good ttl (sv_nonceKey s0) s0" using inv assms(3) by (simp add: nonce.good_def server_inv_def in_force_def)
  then have "i = i'"
    by (rule nonce.at_most_one [OF assms(2), where nonce = nonce])
      (use assms(4-) ttl \<open>replied no_content p'\<close> in \<open>simp_all add: nonce.succeeded_def\<close>)
  then show False using assms(12) by simp
qed

text \<open>Two knocks with the same nonce: the first is accepted, the second is not.\<close>

theorem concurrent_nonce_single_use_witness:
  "\<exists>tr p p'. execution sample_server tr \<and> snd (last tr) = [(knock_job, p), (knock_job, p')] \<and> replied no_content p \<and> \<not> replied no_content p'"
proof -
  obtain tr where tr: "execution sample_server tr" "last tr = in_turn job_prog [knock_job, knock_job] (sample_server, [])"
    using begin_in_turn [of job_prog dispatches "[knock_job, knock_job]" sample_server] knock_dispatched sample_knocked_mux by (auto simp: knock_job_alone)
  obtain p' where l: "snd (last tr) = [(knock_job, Reply (NoContent [(''Cache-Control'', ''no-store'')])), (knock_job, p')]"
    using tr(2) by (simp add: knock_job_alone)
  have k: "knocks_with sample_nonce knock_job"
    by (auto simp: knocks_with_def knock_job_def sends_nonce_def sample_body_def B64uDecode_B64u)
  have "steady 60 (issued_at sample_nonce + 60) knock_job"
    by (simp add: knock_job_def is_i64_def)
  then have j: "steady 60 (issued_at sample_nonce + 60) j" if "j \<in> jobs_of (last tr)" for j
    using that l by (auto simp: jobs_of_def)
  have "\<not> replied no_content p'"
    by (rule concurrent_nonce_single_use [OF sample_started tr(1) _ j, where i = 0 and i' = 1 and j = knock_job and j' = knock_job
          and p = "Reply (NoContent [(''Cache-Control'', ''no-store'')])"]) (use k in \<open>simp_all add: l\<close>)
  then show ?thesis using tr(1) l by fastforce
qed

section \<open>A knock that stalls\<close>

text \<open>A knock up to the claim of its nonce, whatever nonces are spent, and from there on.\<close>

lemma advance_respond:
  assumes "knock_mints env (s\<lparr>sv_nonces := NewNonceStore\<rparr>) r c body nonce rnd t g cookie"
  shows "advance 5 (respond_prog env r) s = (accept_prog env r c (sv_cfg s) (rb_Kid body) t rnd, counted env s c)"
    and "mint_under env (sv_cfg s) c (rb_Kid body) t = Inr (g, cookie)"
proof -
  have "resolve env (s\<lparr>sv_nonces := NewNonceStore\<rparr>) r = resolve env s r"
    by (intro resolve_same_identity) (simp_all add: same_identity_def)
  then have k: "resolve env s r = Some c" "rc_known c" "rq_Method r = ''POST''" "rate_ok env s c" "env_respond env 4096 (rq_Body r) = Some body"
    and v: "knock_verified env (s\<lparr>sv_nonces := NewNonceStore\<rparr>) c body nonce rnd t"
    using assms by (simp_all add: knock_mints_def rate_ok_def)
  obtain tag where tag: "B64uDecode (rb_Proof body) = Inr tag" "VerifyProof (tok_Secret t) (rc_service c) (rb_Kid body) nonce tag"
    and n: "B64uDecode (rb_Nonce body) = Inr nonce" "permits (Some (sv_reg s)) (rb_Kid body) (rc_service c) (env_now env 1) t"
    "VerifyNonce (sv_nonceKey s) nonce (rc_service c) (rc_ip c) (env_now env 1) (cf_NonceTTL (sv_cfg s)) (cf_IPv6Prefix (sv_cfg s)) = (True, rnd)"
    using v by (auto simp: knock_verified_def)
  note l = VerifyNonce_length [OF n(3)] VerifyProof_length [OF tag(2)]
  have a: "Authorize (Some (sv_reg s)) (rb_Kid body) (rc_service c) (env_now env 1) = Inr t" using n(2) by (simp add: Authorize_Inr_iff)
  have five: "5 = Suc (Suc (Suc (Suc (Suc 0))))" by simp
  show "advance 5 (respond_prog env r) s = (accept_prog env r c (sv_cfg s) (rb_Kid body) t rnd, counted env s c)"
    using k(4) by (simp add: five respond_prog_def k allow_prog_def verify_prog_def tag n l a rate_ok_def counted_def case_prod_beta Let_def
        del: One_nat_def)
  show "mint_under env (sv_cfg s) c (rb_Kid body) t = Inr (g, cookie)" using assms by (simp add: knock_mints_def mint_under_eq)
qed

lemma alone_accept:
  assumes "fst (Claim (sv_nonces s) (B64u rnd) (env_now env 1) (cf_NonceTTL cfg))" and "mint_under env cfg c kid t = Inr (g, cookie)"
  shows "fst (alone (accept_prog env r c cfg kid t rnd) s) = Some (NoContent (cookie @ [(''Cache-Control'', ''no-store'')]))"
  using assms by (simp add: accept_prog_def case_prod_beta)

text \<open>The knock of the sample deployment once more, one second before its nonce expires.\<close>

definition late_knock_job :: job where
  "late_knock_job = Handle RRespond (sample_mux_env (sample_env 1059 (Some sample_body))) (sample_knock ''POST'' respond_path)"

lemma late_knock_mints:
  "\<exists>g. knock_mints (sample_env 1059 (Some sample_body)) (sample_knocked\<lparr>sv_nonces := NewNonceStore\<rparr>) (sample_knock ''POST'' respond_path)
     (sample_ctx respond_path) sample_body sample_nonce (rand16 (\<lambda>j. 0)) (token_of laptop) g []"
proof -
  let ?e = "sample_env 1059 (Some sample_body)" and ?s = "sample_knocked\<lparr>sv_nonces := NewNonceStore\<rparr>"
  have f: "sv_cfg ?s = sample_final" "sv_reg ?s = sample_reg" "sv_nonceKey ?s = replicate 32 0" "sv_nonces ?s = NewNonceStore"
    "sv_rl ?s = sv_rl (counted (sample_env 1010 (Some sample_body)) sample_server (sample_ctx respond_path))"
    by (simp_all add: sample_knocked_eq put_grant_def spend_def sample_server_def counted_def)
  have "cleanURIPath respond_path = respond_path" by code_simp
  then have "resolve ?e ?s (sample_knock ''POST'' respond_path) = Some (sample_ctx respond_path)" using knock_resolve [OF f(1)] by simp
  moreover have "rate_ok ?e ?s (sample_ctx respond_path)"
    using knock_rate(2) [of 1059 "Some sample_body" 1010 "Some sample_body" respond_path respond_path] f(1,5) by (simp add: rate_ok_def)
  moreover have "knock_verified ?e ?s (sample_ctx respond_path) sample_body sample_nonce (rand16 (\<lambda>j. 0)) (token_of laptop)"
    by (rule respond_verifies [where ts = 1000])
      (use f in \<open>simp_all add: sample_issued [simplified] sample_permits sample_body_def client_answers_def NewNonceStore_def\<close>)
  moreover have "\<exists>g. mintGrant ?e ?s (sample_ctx respond_path) ''laptop'' (token_of laptop) = Inr (g, [])"
    by (simp add: mintGrant_def)
  ultimately show ?thesis by (auto simp: knock_mints_def sample_body_def)
qed

text \<open>C10: the other schedules do accept a nonce twice. The sidecar runs with one configuration throughout; a knock is accepted at 1010, and its
  replay, read at 1059 while the nonce issued at 1000 is still fresh, verifies and stops before its claim. The sweeper ticks at 1070, when
  the claim of the first knock has lapsed, and drops it; then the replay goes on, claims the nonce anew and is answered 204 like the first.\<close>

theorem stalled_knock_replays:
  "\<exists>tr. started sample_server \<and> execution sample_server tr \<and> knocks_with sample_nonce knock_job \<and> knocks_with sample_nonce late_knock_job \<and>
     snd (last tr) = [(knock_job, Reply (NoContent [(''Cache-Control'', ''no-store'')])),
       (late_knock_job, Reply (NoContent [(''Cache-Control'', ''no-store'')])), (Tick 1070, Finish)]"
proof -
  let ?R = "Reply (NoContent [(''Cache-Control'', ''no-store'')]) :: server_prog" and ?e = "sample_env 1059 (Some sample_body)"
  let ?s = "counted ?e sample_knocked (sample_ctx respond_path)"
  let ?p = "accept_prog ?e (sample_knock ''POST'' respond_path) (sample_ctx respond_path) sample_final ''laptop'' (token_of laptop) (rand16 (\<lambda>j. 0))"
  obtain g where m: "knock_mints ?e (sample_knocked\<lparr>sv_nonces := NewNonceStore\<rparr>) (sample_knock ''POST'' respond_path)
     (sample_ctx respond_path) sample_body sample_nonce (rand16 (\<lambda>j. 0)) (token_of laptop) g []" using late_knock_mints by blast
  have a: "advance 5 (job_prog late_knock_job) sample_knocked = (?p, ?s)"
    using advance_respond(1) [OF m] by (simp add: late_knock_job_def route_prog_def sample_knocked_fields sample_body_def)
  have d: "dispatches sample_knocked late_knock_job" by (simp add: late_knock_job_def sample_knocked_mux sample_routes routed_def)
  have r1: "reached job_prog dispatches sample_server (sample_knocked, [] @ [(knock_job, ?R)])"
    using reached_job [OF reached_begin [of job_prog dispatches] _ knock_job_alone] knock_dispatched by simp
  have r2: "reached job_prog dispatches sample_server (?s, [(knock_job, ?R), (late_knock_job, ?p)])"
    using reached_advance [OF reached_start [OF r1 d] _ _ a, of 1] by simp
  have r3: "reached job_prog dispatches sample_server (sweepAll ?s 1070, [(knock_job, ?R), (late_knock_job, ?p), (Tick 1070, Finish)])"
    using reached_job [OF r2, of "Tick 1070"] by (simp add: alone_tick)
  have "fst (Claim (sv_nonces (sweepAll ?s 1070)) (B64u (rand16 (\<lambda>j. 0))) 1059 60)"
    by (simp add: sweepAll_def sample_knocked_eq put_grant_def spend_def counted_def sample_server_def Let_def Claim_def NewNonceStore_def
        snd_Sweep_ns mget_mpurge i64_def)
  then have "fst (alone ?p (sweepAll ?s 1070)) = Some (NoContent [(''Cache-Control'', ''no-store'')])"
    using alone_accept [OF _ advance_respond(2) [OF m], of "sweepAll ?s 1070"] by (simp add: sample_knocked_fields sample_body_def)
  then obtain s' where "alone ?p (sweepAll ?s 1070) = (Some (NoContent [(''Cache-Control'', ''no-store'')]), s')"
    by (metis prod.collapse)
  then have "reached job_prog dispatches sample_server (s', [(knock_job, ?R), (late_knock_job, ?R), (Tick 1070, Finish)])"
    using reached_run [OF r3, of 1 late_knock_job ?p] by simp
  moreover have "knocks_with sample_nonce knock_job" "knocks_with sample_nonce late_knock_job"
    by (auto simp: knocks_with_def knock_job_def late_knock_job_def sends_nonce_def sample_body_def B64uDecode_B64u)
  ultimately show ?thesis using sample_started by (auto simp: reached_def)
qed

section \<open>Enrollment codes\<close>

definition enrolls_with :: "string \<Rightarrow> job \<Rightarrow> bool" where
  "enrolls_with code j \<longleftrightarrow> (\<exists>env r body. j = Handle REnroll env r \<and> env_enroll env 4096 (rq_Body r) = Some body \<and> eb_Code body = code)"

text \<open>The job draws this code as a new one.\<close>

fun draws :: "string \<Rightarrow> job \<Rightarrow> bool" where
  "draws code (Handle rt env r) \<longleftrightarrow> rt = RAdmin \<and> (\<exists>rnd. RandomBytes 12 (env_draw env 0) = Inr rnd \<and> B64u rnd = code)"
| "draws code (Tick now) \<longleftrightarrow> False"
| "draws code (Sighup listenOv c) \<longleftrightarrow> False"

abbreviation code_gone :: "string \<Rightarrow> Server \<Rightarrow> bool" where
  "code_gone code s \<equiv> mget (es_codes (sv_codes s)) code = None"

lemma code_gone_effect:
  assumes "effect Cs key j s s'" and "\<not> draws code j" and "code_gone code s"
  shows "code_gone code s'"
  using assms
proof (induction rule: effect.induct)
  case (codes env rnd r s ec)
  then show ?case by (simp add: Put_es_def)
next
  case (sweeps_codes now s)
  then show ?case by (simp add: snd_Sweep_es mget_mpurge)
next
  case (reloads listenOv c s)
  then show ?case by (auto simp: sighup_eq Reload_def split: sum.splits if_splits)
qed (simp_all add: es_codes_Consume)

lemma enroll_takes:
  assumes "enrolls_with code j"
    and "\<And>s now ec. fst (Consume (sv_codes s) code now) = Some ec \<Longrightarrow> T s (s\<lparr>sv_codes := snd (Consume (sv_codes s) code now)\<rparr>)"
  shows "takes no_content I T (job_prog j)"
proof -
  obtain env r body where j: "j = Handle REnroll env r" and b: "env_enroll env 4096 (rq_Body r) = Some body" "eb_Code body = code"
    using assms by (auto simp: enrolls_with_def)
  show ?thesis
    by (auto simp: j route_prog_def enroll_prog_def b deny_takes case_prod_beta split: option.splits
        intro!: allow_takes dest: assms(2))
qed

lemma Consume_takes:
  "fst (Consume (sv_codes s) code now) = Some ec \<Longrightarrow>
     \<not> code_gone code s \<and> code_gone code (s\<lparr>sv_codes := snd (Consume (sv_codes s) code now)\<rparr>)"
  by (auto simp: Consume_def Let_def split: option.splits if_splits)

lemma started_no_code: "started s \<Longrightarrow> code_gone code s"
  by (erule startedE) (auto simp: NewServer_def Handler_def NewEnrollStore_def split: sum.splits)

lemma admin_brings: "brings_once I (code_gone code) (admin_prog env r)"
proof -
  have "brings_once I (code_gone code) (adminGrant_prog env r)" "brings_once I (code_gone code) (adminRevoke_prog env r)"
    "brings_once I (code_gone code) (adminRevokeToken_prog env r)" "brings_once I (code_gone code) (adminEnrollCode_prog env r)"
    by (auto simp: adminGrant_prog_def adminRevoke_prog_def adminRevokeToken_prog_def adminEnrollCode_prog_def put_prog_def Let_def
        case_prod_beta split: sum.splits)
  then show ?thesis by (simp add: admin_prog_def adminGrants_prog_def)
qed

interpretation code: authorizer_metered UNIV key "\<lambda>j. True" "\<lambda>s. True" "enrolls_with code" "draws code" "code_gone code" for key code
proof unfold_locales
  show "takes no_content (\<lambda>s. in_force UNIV key s \<and> True) (\<lambda>s s'. \<not> code_gone code s \<and> code_gone code s') (job_prog j)"
    if "enrolls_with code j" for j
    using that Consume_takes by (rule enroll_takes)
  show "brings_once (\<lambda>s. in_force UNIV key s \<and> True) (code_gone code) (job_prog j)" if "draws code j" for j
    using that by (cases j) (simp_all add: route_prog_def admin_brings)
qed (auto intro: code_gone_effect)

text \<open>C7: an enrollment code releases the secret once under every interleaving. However the goroutines are interleaved, at most as many requests with
  a code are answered 204 as requests to the admin API drew that code: one code, one secret.\<close>

theorem concurrent_code_released_once:
  assumes "started s0" and "execution s0 tr"
  shows "length (filter (\<lambda>(j, p). enrolls_with code j \<and> replied no_content p) (snd (last tr))) \<le>
    length (filter (\<lambda>(j, p). draws code j) (snd (last tr)))"
proof -
  have "code.good (sv_nonceKey s0) s0"
    using server_inv_started [OF assms(1)] by (simp add: code.good_def server_inv_def in_force_def)
  moreover have "code_gone code s0" using assms(1) by (rule started_no_code)
  ultimately show ?thesis
    using code.taken_at_most [OF assms(2), of "sv_nonceKey s0" code]
    by (simp add: code.succeeded_def [abs_def] case_prod_beta' comp_def)
qed

text \<open>A deployment with an administrator, who makes one code; two clients present it.\<close>

definition admin_config :: Config where
  "admin_config = sample_final\<lparr>cf_AdminToken := admin_secret\<rparr>"

definition admin_server :: Server where
  "admin_server = sample_server\<lparr>sv_cfg := admin_config\<rparr>"

text \<open>The admin token plays no role in identifying requests.\<close>

lemma identify_admin_token:
  "isTrusted (c\<lparr>cf_AdminToken := t\<rparr>) = isTrusted c" "Service (c\<lparr>cf_AdminToken := t\<rparr>) = Service c"
  "ClientIP (c\<lparr>cf_AdminToken := t\<rparr>) = ClientIP c" "resolveTarget u (c\<lparr>cf_AdminToken := t\<rparr>) = resolveTarget u c"
proof -
  show 1: "isTrusted (c\<lparr>cf_AdminToken := t\<rparr>) = isTrusted c" by (simp add: isTrusted_def fun_eq_iff)
  show "Service (c\<lparr>cf_AdminToken := t\<rparr>) = Service c" by (simp add: Service_def fun_eq_iff)
  have "rightmostUntrusted (c\<lparr>cf_AdminToken := t\<rparr>) l = rightmostUntrusted c l" for l
    by (induction l) (simp_all add: 1 Let_def split: option.splits)
  note 2 = this
  have 3: "cf_IPv6Prefix (c\<lparr>cf_AdminToken := t\<rparr>) = cf_IPv6Prefix c" "cf_RealIPHeader (c\<lparr>cf_AdminToken := t\<rparr>) = cf_RealIPHeader c" by simp_all
  show "ClientIP (c\<lparr>cf_AdminToken := t\<rparr>) = ClientIP c" unfolding ClientIP_def 1 2 3 ..
  show "resolveTarget u (c\<lparr>cf_AdminToken := t\<rparr>) = resolveTarget u c" unfolding resolveTarget_def 1 ..
qed

lemma resolve_admin_token:
  assumes "env_url env' = env_url env" and "sv_cfg s' = (sv_cfg s)\<lparr>cf_AdminToken := t\<rparr>"
  shows "resolve env' s' r = resolve env s r"
  unfolding resolve_def assms identify_admin_token Let_def ..

lemma admin_server_started: "started admin_server"
proof -
  have "admin_token_ok admin_secret" by code_simp
  then have f: "finalize (sample_config\<lparr>cf_AdminToken := admin_secret\<rparr>) = Inr admin_config"
    using sample_finalize
    by (auto simp: finalize_Inr_iff admin_config_def sample_final_def sample_config_def fill_defaults_def DefaultConfig_def)
  have m: "map (\<lambda>i. 0) [0..<32] = (replicate 32 0 :: bytes)" by (simp add: map_replicate_const)
  have "Config_Registry admin_config = Inr sample_reg"
    using sample_registry by (simp add: Config_Registry_def admin_config_def)
  then have "NewServer (with_listen [] admin_config) (Some (\<lambda>i. 0)) = Inr (admin_server\<lparr>sv_mux := None\<rparr>)"
    by (simp add: with_listen_def NewServer_def RandomBytes_def m admin_server_def sample_server_def)
  then have "started (Handler (admin_server\<lparr>sv_mux := None\<rparr>))" using f by (intro started.start)
  then show ?thesis
    by (simp add: Handler_def admin_server_def sample_server_def buildMuxLocked_def admin_config_def)
qed

definition sample_code :: string where
  "sample_code = B64u (map (\<lambda>i. 0) [0..<12])"

definition code_job :: job where
  "code_job = Handle RAdmin ((sample_mux_env (sample_env 1000 None))\<lparr>env_enrollCode := \<lambda>n b. Some
     \<lparr>cb_Kid = ''laptop'', cb_Origins = None, cb_Server = [], cb_TTL = 300\<rparr>\<rparr>) (sample_admin ''/admin/enroll-code'')"

definition enroll_job :: job where
  "enroll_job = Handle REnroll (sample_mux_env ((sample_env 1010 None)\<lparr>env_enroll := \<lambda>n b. Some \<lparr>eb_Code = sample_code\<rparr>\<rparr>))
     (sample_knock ''POST'' ''/.well-known/jit-access/enroll'')"

definition coded_server :: Server where
  "coded_server = admin_server\<lparr>sv_codes := Put_es NewEnrollStore sample_code \<lparr>ec_Kid = ''laptop'', ec_Origins = [], ec_Exp = 1300\<rparr>\<rparr>"

lemma code_job_alone: "snd (alone (job_prog code_job) admin_server) = coded_server"
proof -
  have "admin_auth admin_server (sample_admin ''/admin/enroll-code'')"
    by (rule sample_admin_auth) (simp_all add: admin_server_def admin_config_def)
  moreover have "Lookup (Some sample_reg) ''laptop'' = Some (token_of laptop)" using sample_permits [of 0] by (simp add: permits_def)
  ultimately show ?thesis
    by (simp add: code_job_def serve_route_def handleAdmin_auth adminEnrollCode_def decodeJSON_def RandomBytes_def
        admin_server_def coded_server_def sample_code_def admin_config_def Let_def i64_def)
qed

lemma enroll_job_alone: "replied no_content (ended (fst (alone (job_prog enroll_job) coded_server)) :: server_prog)"
proof -
  let ?e = "(sample_env 1010 None)\<lparr>env_enroll := \<lambda>n b. Some \<lparr>eb_Code = sample_code\<rparr>\<rparr>" and ?r = "sample_knock ''POST'' ''/.well-known/jit-access/enroll''"
  have "cleanURIPath ''/.well-known/jit-access/enroll'' = ''/.well-known/jit-access/enroll''" by code_simp
  then have "resolve (sample_env 1010 None) sample_server ?r = Some (sample_ctx ''/.well-known/jit-access/enroll'')"
    using knock_resolve [of sample_server 1010 None "''POST''"] by simp
  then have "resolve ?e coded_server ?r = Some (sample_ctx ''/.well-known/jit-access/enroll'')"
    using resolve_admin_token [of ?e "sample_env 1010 None" coded_server admin_secret sample_server ?r]
    by (simp add: coded_server_def admin_server_def admin_config_def)
  moreover have "rate_ok ?e coded_server (sample_ctx ''/.well-known/jit-access/enroll'')"
    using knock_rate(1) [of 1010 None] by (simp add: rate_ok_def coded_server_def admin_server_def admin_config_def)
  moreover have "Lookup (Some sample_reg) ''laptop'' = Some (token_of laptop)" using sample_permits [of 0] by (simp add: permits_def)
  moreover have "sample_code \<noteq> []" by (simp add: sample_code_def) code_simp
  ultimately show ?thesis
    by (simp add: enroll_job_def serve_route_def handleEnroll_eq coded_server_def admin_server_def Peek_def Put_es_def)
qed

lemma handleEnroll_mux: "sv_mux (snd (handleEnroll env s r)) = sv_mux s"
  by (simp add: handleEnroll_eq knockFail_eq counted_def consumed_def enrolled_def split: option.splits)

lemma code_jobs_dispatched: "all_start job_prog dispatches [code_job, enroll_job, enroll_job] admin_server"
proof -
  have "dispatches s code_job" "dispatches s enroll_job" if "sv_mux s = Some (buildMuxLocked sample_final)" for s
    using that by (simp_all add: code_job_def enroll_job_def sample_routed)
  moreover have "sv_mux admin_server = Some (buildMuxLocked sample_final)" "sv_mux coded_server = Some (buildMuxLocked sample_final)"
    by (simp_all add: admin_server_def coded_server_def)
  moreover from this have "sv_mux (snd (alone (job_prog enroll_job) coded_server)) = Some (buildMuxLocked sample_final)"
    by (simp add: enroll_job_def serve_route_def handleEnroll_mux)
  ultimately show ?thesis by (simp add: code_job_alone)
qed

theorem concurrent_code_released_once_witness:
  "\<exists>tr p p'. execution admin_server tr \<and> map fst (snd (last tr)) = [code_job, enroll_job, enroll_job] \<and>
     length (filter (\<lambda>(j, p). draws sample_code j) (snd (last tr))) = 1 \<and>
     length (filter (\<lambda>(j, p). enrolls_with sample_code j \<and> replied no_content p) (snd (last tr))) = 1"
proof -
  obtain tr where tr: "execution admin_server tr" "last tr = in_turn job_prog [code_job, enroll_job, enroll_job] (admin_server, [])"
    using begin_in_turn [of job_prog dispatches "[code_job, enroll_job, enroll_job]" admin_server] code_jobs_dispatched by blast
  obtain p p' where l: "snd (last tr) = [(code_job, p), (enroll_job, ended (fst (alone (job_prog enroll_job) coded_server))), (enroll_job, p')]"
    using tr(2) by (simp add: code_job_alone)
  have "enrolls_with sample_code enroll_job" "draws sample_code code_job" "\<not> draws sample_code enroll_job"
    by (simp_all add: enrolls_with_def enroll_job_def code_job_def RandomBytes_def sample_code_def)
  then have "length (filter (\<lambda>(j, p). draws sample_code j) (snd (last tr))) = 1"
    and "1 \<le> length (filter (\<lambda>(j, p). enrolls_with sample_code j \<and> replied no_content p) (snd (last tr)))"
    using enroll_job_alone by (simp_all add: l)
  moreover from this have "length (filter (\<lambda>(j, p). enrolls_with sample_code j \<and> replied no_content p) (snd (last tr))) \<le> 1"
    using concurrent_code_released_once [OF admin_server_started tr(1), of sample_code] by simp
  ultimately show ?thesis using tr(1) l by (intro exI [of _ tr]) simp
qed

section \<open>Forward-auth\<close>

lemma authz_accepts:
  assumes "after (authz_prog env r) ss = Reply resp" and "rs_Status resp = 204"
  shows "\<exists>s1 s2 s3 c. from_proxy s1 r \<and> resolve env s2 r = Some c \<and>
    (isProtocolURI (cf_URIPrefix (sv_cfg s3)) (rc_uri c) \<and> (\<exists>ss'. ss = s1 # s2 # s3 # ss') \<or>
     rc_known c \<and> (\<exists>s4 s5 ss' g. ss = s1 # s2 # s3 # s4 # s5 # ss' \<and>
        IsAllowed (sv_grants s5) (rc_service c) (rc_ip c) (Some (sv_reg s4)) (env_now env 0) (grant_cookie r) = Some g \<and>
        (binding (rc_svc c) = BindingIPCookie \<longrightarrow> g_Binding g = BindingIPCookie)))"
proof -
  have refused: "after (authzDeny_prog c) ss' \<noteq> Reply resp" for c ss'
    using assms(2)
    by (auto simp: authzDeny_prog_def Let_def after_get after_Reply StatusOnly_def interstitial_response_def split: option.splits)
  obtain peer where peer: "peerAddr r = Some peer"
    using assms by (cases "peerAddr r") (auto simp: authz_prog_def after_Reply text_error_def)
  obtain s1 ss1 where trusted: "isTrusted (sv_cfg s1) peer" and ss: "ss = s1 # ss1"
    and p1: "after (get (\<lambda>s. resolve env s r) (\<lambda>c. case c of None \<Rightarrow> authzDeny_prog None | Some c \<Rightarrow> target_prog env r c)) ss1 = Reply resp"
    using assms by (auto simp: authz_prog_def peer after_get [of "\<lambda>s. isTrusted (sv_cfg s) peer"] after_Reply text_error_def split: if_splits)
  obtain s2 ss2 c where ss1: "ss1 = s2 # ss2" and c: "resolve env s2 r = Some c" and p2: "after (target_prog env r c) ss2 = Reply resp"
    using p1 refused by (auto simp: after_get split: option.splits)
  obtain s3 ss3 where ss2: "ss2 = s3 # ss3"
    and p3: "after (if isProtocolURI (cf_URIPrefix (sv_cfg s3)) (rc_uri c) then Reply (NoContent [])
      else if \<not> rc_known c then authzDeny_prog (Some c) else check_prog env r c) ss3 = Reply resp"
    using p2 by (auto simp: target_prog_def after_get)
  have "rc_known c \<and> (\<exists>s4 s5 ss' g. ss3 = s4 # s5 # ss' \<and>
        IsAllowed (sv_grants s5) (rc_service c) (rc_ip c) (Some (sv_reg s4)) (env_now env 0) (grant_cookie r) = Some g \<and>
        (binding (rc_svc c) = BindingIPCookie \<longrightarrow> g_Binding g = BindingIPCookie))"
    if "\<not> isProtocolURI (cf_URIPrefix (sv_cfg s3)) (rc_uri c)"
    using p3 that refused
    by (auto simp: check_prog_def refused_prog_def inc_def after_get after_update after_modify split: option.splits if_splits)
  moreover have "from_proxy s1 r" using peer trusted by (simp add: from_proxy_def)
  ultimately show ?thesis using ss ss1 ss2 c by blast
qed

text \<open>The configurations of an execution: the one it starts with, and those its reloads bring.\<close>

definition configs_of :: "Server \<Rightarrow> job set \<Rightarrow> Config set" where
  "configs_of s0 S = insert (sv_cfg s0) {with_listen listenOv nc |listenOv c nc. Sighup listenOv c \<in> S \<and> finalize c = Inr nc}"

text \<open>The request a grant comes from: a knock that verified, or an authenticated call of the admin API.\<close>

fun born :: "Config set \<Rightarrow> bytes \<Rightarrow> job \<Rightarrow> Grant \<Rightarrow> bool" where
  "born Cs key (Handle rt env r) g \<longleftrightarrow>
     rt = RRespond \<and> (\<exists>c cfg body nonce rnd t cookie. knock_under Cs key (Env.truncate env) r c cfg body nonce rnd t \<and>
        mint_under (Env.truncate env) cfg c (rb_Kid body) t = Inr (g, cookie)) \<or>
     rt = RAdmin \<and> admin_under Cs key env r g"
| "born Cs key (Tick now) g \<longleftrightarrow> False"
| "born Cs key (Sighup listenOv c) g \<longleftrightarrow> False"

definition all_born :: "Config set \<Rightarrow> bytes \<Rightarrow> job set \<Rightarrow> Server \<Rightarrow> bool" where
  "all_born Cs key S s \<longleftrightarrow> grant_inv (sv_grants s) \<and> (\<forall>k g. abs_grants (sv_grants s) k = Some g \<longrightarrow> (\<exists>j \<in> S. born Cs key j g))"

lemma all_born_drop:
  assumes "all_born Cs key S s" and "grant_inv gs" and "\<And>k g. abs_grants gs k = Some g \<Longrightarrow> abs_grants (sv_grants s) k = Some g"
  shows "all_born Cs key S (s\<lparr>sv_grants := gs\<rparr>)"
  using assms(1,2) by (auto simp: all_born_def dest!: assms(3))

lemma all_born_Put:
  assumes "all_born Cs key S s" and "j \<in> S" and "born Cs key j g"
  shows "all_born Cs key S (s\<lparr>sv_grants := Put (sv_grants s) (Some g) ohs\<rparr>)"
  using assms by (auto simp: all_born_def grant_inv_Put abs_Put split: if_splits)

lemma all_born_effect:
  assumes "effect Cs key j s s'" and "j \<in> S" and "all_born Cs key S s"
  shows "all_born Cs key S s'"
  using assms
proof (induction rule: effect.induct)
  case (grants env r c cfg body nonce rnd t g cookie s)
  then have "born Cs key (Handle RRespond env r) g" unfolding born.simps by blast
  then show ?case using grants.prems all_born_Put by blast
next
  case (admin_grants env r g s)
  then show ?case using all_born_Put by fastforce
next
  case (revokes env r s svc ip)
  then have gi: "grant_inv (sv_grants s)" by (simp add: all_born_def)
  show ?case using revokes.prems(2) grant_inv_Revoke [OF gi] abs_sub_revoke(1) [OF gi] by (rule all_born_drop)
next
  case (revokes_token env r s kid)
  then have gi: "grant_inv (sv_grants s)" by (simp add: all_born_def)
  show ?case using revokes_token.prems(2) grant_inv_RevokeToken [OF gi] abs_sub_revoke(2) [OF gi] by (rule all_born_drop)
next
  case (sweeps_grants now s)
  then have gi: "grant_inv (sv_grants s)" by (simp add: all_born_def)
  show ?case using sweeps_grants.prems(2) grant_inv_Sweep [OF gi] abs_sub_revoke(3) [OF gi] by (rule all_born_drop)
next
  case (reloads listenOv c s)
  then show ?case by (auto simp: all_born_def sighup_eq Reload_def split: sum.splits if_splits)
qed (simp_all add: all_born_def)

interpretation origin: authorizer_rely "configs_of s0 S" key "\<lambda>j. j \<in> S" "all_born (configs_of s0 S) key S" for s0 S key
  by unfold_locales (auto simp: configs_of_def intro: all_born_effect)

lemma grants_born:
  assumes "started s0" and "execution s0 tr" and "sys \<in> set tr" and "abs_grants (sv_grants (fst sys)) k = Some g"
  shows "\<exists>j \<in> jobs_of (last tr). born (configs_of s0 (jobs_of (last tr))) (sv_nonceKey s0) j g"
proof -
  let ?S = "jobs_of (last tr)"
  obtain tr' where tr': "execution s0 tr'" "last tr' = sys" "jobs_of sys \<subseteq> ?S" using execution_prefix [OF assms(2,3)] by blast
  have "origin.good s0 ?S (sv_nonceKey s0) s0"
    using server_inv_started [OF assms(1)] started_empty [OF assms(1)]
    unfolding origin.good_def by (simp add: all_born_def server_inv_def in_force_def configs_of_def)
  then have "origin.kept s0 ?S (sv_nonceKey s0) sys"
    using origin.execution_kept [OF tr'(1), of s0 ?S] tr'(2,3) by auto
  then show ?thesis using assms(4) by (simp add: origin.kept_def origin.good_def all_born_def)
qed

text \<open>A service that asks for the cookie is not opened by a grant to an address alone.\<close>

definition binding_respected :: "reqCtx \<Rightarrow> Grant \<Rightarrow> bool" where
  "binding_respected c g \<longleftrightarrow> (binding (rc_svc c) = BindingIPCookie \<longrightarrow> g_Binding g = BindingIPCookie)"

text \<open>C5: the backend is reached only with a grant, under every interleaving. Where forward-auth answers 204, the goroutine found a trusted
  caller, then resolved the request, and the path is one of the knock endpoints of the configuration it then read, or: the service is
  configured, and it then read a registry and after that found in the table a grant that is good for this service, address and
  cookie under that registry; and a request of this execution made that grant, with a knock that verified or as an
  authenticated administrator, under configurations of this execution. All these moments lie after any moment \<open>n\<close> at which the request had not
  arrived: a reload or a revocation that was complete before is in effect.\<close>

theorem concurrent_authz_sound:
  assumes "started s0" and "execution s0 tr" and "n < length tr" and "length (snd (tr ! n)) \<le> i"
    and "i < length (snd (last tr))" and "snd (last tr) ! i = (Handle RAuthz env r, Reply resp)" and "rs_Status resp = 204"
  shows "\<exists>k1 k2 k3 c. n < k1 \<and> k1 < k2 \<and> k2 < k3 \<and> k3 < length tr \<and>
    from_proxy (fst (tr ! k1)) r \<and> resolve (Env.truncate env) (fst (tr ! k2)) r = Some c \<and>
    (isProtocolURI (cf_URIPrefix (sv_cfg (fst (tr ! k3)))) (rc_uri c) \<or>
     rc_known c \<and> (\<exists>k4 k5 g. k3 < k4 \<and> k4 < k5 \<and> k5 < length tr \<and>
       (\<exists>k. abs_grants (sv_grants (fst (tr ! k5))) k = Some g) \<and>
       grant_ok (Some (sv_reg (fst (tr ! k4)))) (env_now env 0) (rc_service c) (rc_ip c) (grant_cookie r) g \<and>
       binding_respected c g \<and>
       (\<exists>j \<in> jobs_of (last tr). born (configs_of s0 (jobs_of (last tr))) (sv_nonceKey s0) j g)))"
proof -
  obtain ks where ks: "sorted_wrt (<) ks" "\<forall>k \<in> set ks. n < k \<and> Suc k < length tr"
    and a: "after (authz_prog (Env.truncate env) r) (map (\<lambda>k. fst (tr ! k)) ks) = Reply resp"
    using goroutine_history [OF assms(2-6)] by (auto simp: route_prog_def)
  let ?at = "\<lambda>k. fst (tr ! k)"
  obtain s1 s2 s3 c where c: "from_proxy s1 r" "resolve (Env.truncate env) s2 r = Some c"
    and "isProtocolURI (cf_URIPrefix (sv_cfg s3)) (rc_uri c) \<and> (\<exists>ss. map ?at ks = s1 # s2 # s3 # ss) \<or>
     rc_known c \<and> (\<exists>s4 s5 ss g. map ?at ks = s1 # s2 # s3 # s4 # s5 # ss \<and>
        IsAllowed (sv_grants s5) (rc_service c) (rc_ip c) (Some (sv_reg s4)) (env_now env 0) (grant_cookie r) = Some g \<and>
        (binding (rc_svc c) = BindingIPCookie \<longrightarrow> g_Binding g = BindingIPCookie))"
    using authz_accepts [OF a assms(7)] unfolding truncate_simps by (elim exE conjE) (rule that)
  then show ?thesis
  proof (elim disjE exE conjE)
    fix ss
    assume p: "isProtocolURI (cf_URIPrefix (sv_cfg s3)) (rc_uri c)" "map ?at ks = s1 # s2 # s3 # ss"
    then obtain k1 k2 k3 ks' where "ks = k1 # k2 # k3 # ks'" "?at k1 = s1" "?at k2 = s2" "?at k3 = s3" by (auto simp: map_eq_Cons_conv)
    moreover from this have "n < k1" "k1 < k2" "k2 < k3" "k3 < length tr" using ks by auto
    ultimately show ?thesis using p(1) c
      by (intro exI [of _ k1] exI [of _ k2] exI [of _ k3] exI [of _ c] conjI disjI1) simp_all
  next
    fix s4 s5 ss g
    assume p: "rc_known c" "map ?at ks = s1 # s2 # s3 # s4 # s5 # ss"
      "IsAllowed (sv_grants s5) (rc_service c) (rc_ip c) (Some (sv_reg s4)) (env_now env 0) (grant_cookie r) = Some g"
      "binding (rc_svc c) = BindingIPCookie \<longrightarrow> g_Binding g = BindingIPCookie"
    then obtain k1 k2 k3 k4 k5 ks' where k: "ks = k1 # k2 # k3 # k4 # k5 # ks'" "?at k1 = s1" "?at k2 = s2" "?at k3 = s3" "?at k4 = s4"
      "?at k5 = s5" by (auto simp: map_eq_Cons_conv)
    have g: "grant_ok (Some (sv_reg s4)) (env_now env 0) (rc_service c) (rc_ip c) (grant_cookie r) g" "\<exists>k. abs_grants (sv_grants s5) k = Some g"
      using IsAllowed_stored [OF p(3)] by auto
    have "tr ! k5 \<in> set tr" using k(1) ks(2) by simp
    then have "\<exists>j \<in> jobs_of (last tr). born (configs_of s0 (jobs_of (last tr))) (sv_nonceKey s0) j g"
      using grants_born [OF assms(1,2), of "tr ! k5"] g(2) k(6) by blast
    moreover have "n < k1" "k1 < k2" "k2 < k3" "k3 < k4" "k4 < k5" "k5 < length tr" using ks k(1) by auto
    ultimately show ?thesis using p(1,4) c g
      by (intro exI [of _ k1] exI [of _ k2] exI [of _ k3] exI [of _ c] conjI disjI2 exI [of _ k4] exI [of _ k5] exI [of _ g])
        (simp_all add: k(2-6) binding_respected_def)
  qed
qed

theorem concurrent_authz_sound_witness:
  "\<exists>tr n. execution sample_server tr \<and> n < length tr \<and>
    snd (last tr) ! 1 = (Handle RAuthz (sample_mux_env (sample_env 2000 None)) (sample_knock ''GET'' ''/authz''),
      Reply (NoContent [(''X-Jit-Kid'', ''laptop'')])) \<and>
    (\<exists>k1 k2 k3 c. n < k1 \<and> k1 < k2 \<and> k2 < k3 \<and> k3 < length tr \<and> from_proxy (fst (tr ! k1)) (sample_knock ''GET'' ''/authz'') \<and>
      resolve (sample_env 2000 None) (fst (tr ! k2)) (sample_knock ''GET'' ''/authz'') = Some c \<and>
      (isProtocolURI (cf_URIPrefix (sv_cfg (fst (tr ! k3)))) (rc_uri c) \<or>
       rc_known c \<and> (\<exists>k4 k5 g. k3 < k4 \<and> k4 < k5 \<and> k5 < length tr \<and> (\<exists>k. abs_grants (sv_grants (fst (tr ! k5))) k = Some g) \<and>
         grant_ok (Some (sv_reg (fst (tr ! k4)))) 2000 (rc_service c) (rc_ip c) [] g \<and>
         binding_respected c g \<and>
         (\<exists>j \<in> jobs_of (last tr). born (configs_of sample_server (jobs_of (last tr))) (sv_nonceKey sample_server) j g))))"
proof -
  let ?j = "Handle RAuthz (sample_mux_env (sample_env 2000 None)) (sample_knock ''GET'' ''/authz'')"
  obtain tr1 where tr1: "execution sample_server tr1" "last tr1 = in_turn job_prog [knock_job] (sample_server, [])"
    using begin_in_turn [of job_prog dispatches "[knock_job]" sample_server] knock_dispatched by auto
  then have l: "last tr1 = (sample_knocked, [(knock_job, Reply (NoContent [(''Cache-Control'', ''no-store'')]))])"
    by (simp add: knock_job_alone)
  obtain tr2 where tr2: "execution sample_server (tr1 @ tr2)" "last (tr1 @ tr2) = in_turn job_prog [?j] (last tr1)"
    using in_turn_runs [OF tr1(1), of "[?j]"] sample_knocked_mux by (auto simp: l sample_routed)
  have j: "snd (last (tr1 @ tr2)) = [(knock_job, Reply (NoContent [(''Cache-Control'', ''no-store'')])),
      (?j, Reply (NoContent [(''X-Jit-Kid'', ''laptop'')]))]"
    unfolding tr2(2) l using sample_admitted_authz by (simp add: serve_route_def)
  have "0 < length tr1" "(tr1 @ tr2) ! (length tr1 - 1) = last tr1"
    using execution_nonempty [OF tr1(1)] by (simp_all add: nth_append last_conv_nth)
  then have n: "length tr1 - 1 < length (tr1 @ tr2)" "length (snd ((tr1 @ tr2) ! (length tr1 - 1))) \<le> 1"
    using l by (linarith | simp)+
  have p: "1 < length (snd (last (tr1 @ tr2)))" "snd (last (tr1 @ tr2)) ! 1 = (?j, Reply (NoContent [(''X-Jit-Kid'', ''laptop'')]))"
    "rs_Status (NoContent [(''X-Jit-Kid'', ''laptop'')]) = 204" unfolding j by simp_all
  show ?thesis
    by (intro exI [of _ "tr1 @ tr2"] exI [of _ "length tr1 - 1"] conjI tr2(1) n(1) p(2)
        concurrent_authz_sound [OF sample_started tr2(1) n p, unfolded truncate_mux_env mux_env_fields sample_env_fields sample_cookie])
qed

end
