(* ===== verification/Startup.thy ===== *)
theory Startup
  imports ConcurrentProps
begin

text \<open>
  The program \<^verbatim>\<open>jitaccess-authorizer\<close> as a process: \<^verbatim>\<open>LoadConfig\<close> and the start of \<^verbatim>\<open>main\<close> with its flags, and the life of the process
  from there, with its two listeners, its signals and its shutdown. The file system and the JSON decoder are arguments.
\<close>

section \<open>Loading the configuration\<close>

datatype ('io, 'js) load_error = ReadFailed 'io | BadJSON 'js | Invalid config_error

text \<open>The decoder fills in the fields the text has and keeps the defaults of the others.\<close>

definition LoadConfig ::
  "(string \<Rightarrow> 'io + string) \<Rightarrow> (Config \<Rightarrow> string \<Rightarrow> 'js + Config) \<Rightarrow> string \<Rightarrow> ('io, 'js) load_error + Config" where
  "LoadConfig read_file decode path =
     (case read_file path of
        Inl err \<Rightarrow> Inl (ReadFailed err)
      | Inr raw \<Rightarrow>
          (case decode DefaultConfig raw of
             Inl err \<Rightarrow> Inl (BadJSON err)
           | Inr c \<Rightarrow>
               (case finalize c of
                  Inl err \<Rightarrow> Inl (Invalid err)
                | Inr c \<Rightarrow> Inr c)))"

section \<open>Starting\<close>

record Flags =
  fl_config :: string
  fl_check :: bool
  fl_version :: bool
  fl_listen :: string

text \<open>Where the requests of a handler come from.\<close>

datatype origin = FromMain | FromAdmin | Internal

text \<open>\<^verbatim>\<open>Serving\<close>: both listeners are open. \<^verbatim>\<open>Draining\<close>: the main listener is closed and its requests are awaited. \<^verbatim>\<open>AdminDraining\<close>: the
  same for the admin listener. \<^verbatim>\<open>Exited\<close>: the process has ended with this status.\<close>

datatype phase = Serving | Draining | AdminDraining | Exited nat

record Process =
  pr_sys :: System
  pr_from :: "origin list"
  pr_admin :: bool
  pr_listen :: string
  pr_phase :: phase
  pr_cut :: bool

datatype ('io, 'js) launch =
    ShowVersion
  | ConfigFatal "('io, 'js) load_error"
  | CheckOK nat nat string
  | StartupFatal server_error
  | Running Process

definition main ::
  "(string \<Rightarrow> 'io + string) \<Rightarrow> (Config \<Rightarrow> string \<Rightarrow> 'js + Config) \<Rightarrow> draw \<Rightarrow> Flags \<Rightarrow> ('io, 'js) launch" where
  "main read_file decode draw flags =
     (if fl_version flags then ShowVersion
      else
        (case LoadConfig read_file decode (fl_config flags) of
           Inl err \<Rightarrow> ConfigFatal err
         | Inr cfg \<Rightarrow>
             let cfg = (if fl_listen flags \<noteq> [] then cfg\<lparr>cf_Listen := fl_listen flags\<rparr> else cfg)
             in if fl_check flags then CheckOK (length (cf_Tokens cfg)) (mlen (cf_Services cfg)) (cf_Listen cfg)
                else
                  (case NewServer cfg draw of
                     Inl err \<Rightarrow> StartupFatal err
                   | Inr srv \<Rightarrow>
                       let srv = Handler srv
                       in Running \<lparr>pr_sys = (srv, []), pr_from = [], pr_admin = (AdminHandler srv \<noteq> None),
                                   pr_listen = fl_listen flags, pr_phase = Serving, pr_cut = False\<rparr>)))"

section \<open>Running\<close>

fun has_replied :: "server_prog \<Rightarrow> bool" where
  "has_replied (Reply resp) \<longleftrightarrow> True"
| "has_replied Finish \<longleftrightarrow> False"
| "has_replied (Act a) \<longleftrightarrow> False"

definition drained :: "origin \<Rightarrow> Process \<Rightarrow> bool" where
  "drained w p \<longleftrightarrow> list_all2 (\<lambda>w' (j, q). w' = w \<longrightarrow> has_replied q) (pr_from p) (snd (pr_sys p))"

text \<open>After the main listener has been shut down: the admin listener, where there is one, or the end.\<close>

definition next_phase :: "Process \<Rightarrow> phase" where
  "next_phase p = (if pr_admin p then AdminDraining else Exited 0)"

definition spawn :: "origin \<Rightarrow> job \<Rightarrow> Process \<Rightarrow> Process" where
  "spawn w j p = p\<lparr>pr_sys := (fst (pr_sys p), snd (pr_sys p) @ [(j, job_prog j)]), pr_from := pr_from p @ [w]\<rparr>"

text \<open>A \<^verbatim>\<open>SIGHUP\<close>: the file is loaded again, \<^const>\<open>None\<close> where it cannot be read or decoded.\<close>

definition decoded :: "(string \<Rightarrow> 'io + string) \<Rightarrow> (Config \<Rightarrow> string \<Rightarrow> 'js + Config) \<Rightarrow> string \<Rightarrow> Config option" where
  "decoded read_file decode path =
     (case read_file path of
        Inl err \<Rightarrow> None
      | Inr raw \<Rightarrow> (case decode DefaultConfig raw of Inl err \<Rightarrow> None | Inr c \<Rightarrow> Some c))"

definition reload :: "Config option \<Rightarrow> Process \<Rightarrow> Process" where
  "reload found p =
     (case found of
        None \<Rightarrow> p
      | Some c \<Rightarrow>
          p\<lparr>pr_sys := (sighup (pr_listen p) (finalize c) (fst (pr_sys p)), snd (pr_sys p) @ [(Sighup (pr_listen p) c, Finish)]),
            pr_from := pr_from p @ [Internal]\<rparr>)"

lemma reload_LoadConfig:
  "fst (pr_sys (reload (decoded read_file decode path) p)) = sighup (pr_listen p) (LoadConfig read_file decode path) (fst (pr_sys p))"
  by (simp add: reload_def decoded_def LoadConfig_def sighup_def split: sum.splits)

text \<open>A request may still start while its listener drains, on a connection that was accepted before. The signal goroutine handles one signal after the other, and none once it shuts down. The sweeper may still take one more tick then. The deadline of
  both shutdowns is the same five seconds; when it passes, what is still running is cut off. A listener that fails ends the process at once.\<close>

inductive pstep :: "Process \<Rightarrow> Process \<Rightarrow> bool" where
  accept: "pr_phase p \<in> {Serving, Draining} \<Longrightarrow> \<not> muxWouldRedirect (rq_Path r) \<Longrightarrow> sv_mux (fst (pr_sys p)) = Some mux \<Longrightarrow>
    routed (mux_route mux) r = Some rt \<Longrightarrow> pstep p (spawn FromMain (Handle rt env r) p)"
| accept_admin: "pr_phase p \<in> {Serving, Draining, AdminDraining} \<Longrightarrow> pr_admin p \<Longrightarrow> routed admin_route r = Some rt \<Longrightarrow>
    pstep p (spawn FromAdmin (Handle rt env r) p)"
| tick: "pr_phase p \<in> {Serving, Draining, AdminDraining} \<Longrightarrow> pstep p (spawn Internal (Tick now) p)"
| act: "pr_phase p \<in> {Serving, Draining, AdminDraining} \<Longrightarrow> i < length (snd (pr_sys p)) \<Longrightarrow> snd (pr_sys p) ! i = (j, Act a) \<Longrightarrow>
    a (fst (pr_sys p)) = (q, s') \<Longrightarrow> pstep p (p\<lparr>pr_sys := (s', (snd (pr_sys p))[i := (j, q)])\<rparr>)"
| hup: "pr_phase p = Serving \<Longrightarrow> pstep p (reload found p)"
| shutdown: "pr_phase p = Serving \<Longrightarrow> pstep p (p\<lparr>pr_phase := Draining\<rparr>)"
| main_done: "pr_phase p = Draining \<Longrightarrow> drained FromMain p \<Longrightarrow> pstep p (p\<lparr>pr_phase := next_phase p\<rparr>)"
| main_late: "pr_phase p = Draining \<Longrightarrow> pstep p (p\<lparr>pr_phase := next_phase p, pr_cut := True\<rparr>)"
| admin_done: "pr_phase p = AdminDraining \<Longrightarrow> drained FromAdmin p \<Longrightarrow> pstep p (p\<lparr>pr_phase := Exited 0\<rparr>)"
| admin_late: "pr_phase p = AdminDraining \<Longrightarrow> pstep p (p\<lparr>pr_phase := Exited 0, pr_cut := True\<rparr>)"
| listen_fails: "pr_phase p = Serving \<or> pr_phase p = Draining \<and> pr_admin p \<Longrightarrow> pstep p (p\<lparr>pr_phase := Exited 1\<rparr>)"

section \<open>The start\<close>

lemma LoadConfig_Inr: "LoadConfig read_file decode path = Inr cfg \<Longrightarrow> \<exists>c. finalize c = Inr cfg"
  by (auto simp: LoadConfig_def split: sum.splits)

lemma main_Running:
  "main read_file decode draw flags = Running p \<longleftrightarrow>
     \<not> fl_version flags \<and> \<not> fl_check flags \<and>
     (\<exists>cfg srv. LoadConfig read_file decode (fl_config flags) = Inr cfg \<and> NewServer (with_listen (fl_listen flags) cfg) draw = Inr srv \<and>
        p = \<lparr>pr_sys = (Handler srv, []), pr_from = [], pr_admin = (AdminHandler (Handler srv) \<noteq> None), pr_listen = fl_listen flags,
             pr_phase = Serving, pr_cut = False\<rparr>)"
  by (auto simp: main_def with_listen_def Let_def split: sum.splits)

lemma main_started: "main read_file decode draw flags = Running p \<Longrightarrow> started (fst (pr_sys p))"
  using LoadConfig_Inr by (fastforce simp: main_Running intro: started.start)

lemma NewServer_starts:
  assumes "finalize c = Inr cfg"
  shows "\<exists>srv. NewServer (with_listen listenOv cfg) (Some f) = Inr srv \<and> sv_cfg srv = with_listen listenOv cfg"
proof -
  have "config_ok (with_listen listenOv cfg)" using finalize_config_ok [OF assms] by simp
  then obtain reg where "Config_Registry (with_listen listenOv cfg) = Inr reg" using Config_Registry_ok by blast
  then show ?thesis by (simp add: NewServer_def RandomBytes_def)
qed

text \<open>the check of a configuration tells whether the program starts. With \<^verbatim>\<open>-check\<close> it reports a good configuration exactly where, without the flag, it
  starts to serve, on the listen address the check prints, as long as the random generator works; and it fails on a bad configuration with the same
  error.\<close>

theorem check_predicts_start:
  assumes "\<not> fl_version flags" and "\<not> fl_check flags"
  shows "((\<exists>tokens services. main read_file decode (Some f) (flags\<lparr>fl_check := True\<rparr>) = CheckOK tokens services listen) \<longleftrightarrow>
      (\<exists>p. main read_file decode (Some f) flags = Running p \<and> started (fst (pr_sys p)) \<and> cf_Listen (sv_cfg (fst (pr_sys p))) = listen)) \<and>
    (main read_file decode (Some f) (flags\<lparr>fl_check := True\<rparr>) = ConfigFatal err \<longleftrightarrow>
      main read_file decode (Some f) flags = ConfigFatal err)"
proof
  show "main read_file decode (Some f) (flags\<lparr>fl_check := True\<rparr>) = ConfigFatal err \<longleftrightarrow>
      main read_file decode (Some f) flags = ConfigFatal err"
    using assms by (auto simp: main_def Let_def split: sum.splits)
  show "(\<exists>tokens services. main read_file decode (Some f) (flags\<lparr>fl_check := True\<rparr>) = CheckOK tokens services listen) \<longleftrightarrow>
      (\<exists>p. main read_file decode (Some f) flags = Running p \<and> started (fst (pr_sys p)) \<and> cf_Listen (sv_cfg (fst (pr_sys p))) = listen)"
  proof (cases "LoadConfig read_file decode (fl_config flags)")
    case (Inl err)
    then show ?thesis using assms by (simp add: main_def)
  next
    case (Inr cfg)
    then obtain c where "finalize c = Inr cfg" using LoadConfig_Inr by blast
    then obtain srv where srv: "NewServer (with_listen (fl_listen flags) cfg) (Some f) = Inr srv" "sv_cfg srv = with_listen (fl_listen flags) cfg"
      using NewServer_starts by blast
    then obtain p where p: "main read_file decode (Some f) flags = Running p" "fst (pr_sys p) = Handler srv"
      using assms Inr by (auto simp: main_Running)
    have "\<exists>t n. main read_file decode (Some f) (flags\<lparr>fl_check := True\<rparr>) = CheckOK t n (cf_Listen (with_listen (fl_listen flags) cfg))"
      using assms Inr by (simp add: main_def with_listen_def)
    then show ?thesis using p srv(2) main_started [OF p(1)] by (auto simp: Handler_def)
  qed
qed

text \<open>A file with the sample configuration.\<close>

definition sample_flags :: Flags where
  "sample_flags = \<lparr>fl_config = ''config.json'', fl_check = False, fl_version = False, fl_listen = []\<rparr>"

definition sample_read :: "string \<Rightarrow> string + string" where
  "sample_read path = (if path = ''config.json'' then Inr ''{}'' else Inl path)"

definition sample_decode :: "Config \<Rightarrow> string \<Rightarrow> string + Config" where
  "sample_decode c raw = Inr sample_config"

lemma sample_load: "LoadConfig sample_read sample_decode ''config.json'' = Inr sample_final"
  by (simp add: LoadConfig_def sample_read_def sample_decode_def sample_finalize)

theorem check_predicts_start_witness:
  "(\<exists>p. main sample_read sample_decode (Some (\<lambda>i. 0)) sample_flags = Running p \<and> cf_Listen (sv_cfg (fst (pr_sys p))) = cf_Listen sample_final) \<and>
   main sample_read sample_decode (Some (\<lambda>i. 0)) (sample_flags\<lparr>fl_config := ''missing''\<rparr>) = ConfigFatal (ReadFailed ''missing'')"
proof
  have "main sample_read sample_decode (Some (\<lambda>i. 0)) (sample_flags\<lparr>fl_check := True\<rparr>) =
      CheckOK (length (cf_Tokens sample_final)) (mlen (cf_Services sample_final)) (cf_Listen sample_final)"
    using sample_load by (simp add: main_def sample_flags_def)
  then show "\<exists>p. main sample_read sample_decode (Some (\<lambda>i. 0)) sample_flags = Running p \<and>
      cf_Listen (sv_cfg (fst (pr_sys p))) = cf_Listen sample_final"
    using check_predicts_start [of sample_flags sample_read sample_decode "\<lambda>i. 0" "cf_Listen sample_final" undefined]
    by (auto simp: sample_flags_def)
  show "main sample_read sample_decode (Some (\<lambda>i. 0)) (sample_flags\<lparr>fl_config := ''missing''\<rparr>) = ConfigFatal (ReadFailed ''missing'')"
    by (simp add: main_def sample_flags_def LoadConfig_def sample_read_def)
qed

section \<open>The process runs its goroutines\<close>

inductive_cases pstepE: "pstep p p'"

lemma execution_start: "execution s0 tr \<Longrightarrow> last tr = (s, ts) \<Longrightarrow> dispatches s j \<Longrightarrow> execution s0 (tr @ [(s, ts @ [(j, job_prog j)])])"
  by (intro grun.then_step) (auto intro: gstep.starts)

lemma execution_reload:
  assumes "execution s0 tr" and "last tr = pr_sys p"
  shows "\<exists>tr'. execution s0 tr' \<and> last tr' = pr_sys (reload found p)"
proof (cases found)
  case None
  then show ?thesis using assms by (auto simp: reload_def)
next
  case (Some c)
  then show ?thesis
    using job_runs [OF assms(1), of "fst (pr_sys p)" "snd (pr_sys p)" "Sighup (pr_listen p) c"] assms(2)
    by (auto simp: alone_hup reload_def)
qed

text \<open>The address of the admin listener never changes: a reload that would change it is refused.\<close>

lemma admin_listen_effect: "effect Cs key j s s' \<Longrightarrow> cf_AdminListen (sv_cfg s') = cf_AdminListen (sv_cfg s)"
  by (induction rule: effect.induct) (auto simp: sighup_eq Reload_def split: sum.splits if_splits)

interpretation listens: authorizer_rely UNIV key "\<lambda>j. True" "\<lambda>s. cf_AdminListen (sv_cfg s) = l" for key l
  by unfold_locales (auto simp: admin_listen_effect)

lemma execution_admin_listen:
  assumes "started s0" and "execution s0 tr"
  shows "cf_AdminListen (sv_cfg (fst (last tr))) = cf_AdminListen (sv_cfg s0)"
  using listens.execution_kept [OF assms(2), of "sv_nonceKey s0" "cf_AdminListen (sv_cfg s0)"] server_inv_started [OF assms(1)]
  by (simp add: listens.kept_def listens.good_def server_inv_def in_force_def)

lemma pstep_execution:
  assumes "pstep p p'" and "started s0" and "execution s0 tr" and "last tr = pr_sys p" and "pr_admin p = (cf_AdminListen (sv_cfg s0) \<noteq> [])"
  shows "(\<exists>tr'. execution s0 tr' \<and> last tr' = pr_sys p') \<and> pr_admin p' = pr_admin p"
proof -
  obtain s ts where sys: "pr_sys p = (s, ts)" by fastforce
  have start: "(\<exists>tr'. execution s0 tr' \<and> last tr' = pr_sys (spawn w j p)) \<and> pr_admin (spawn w j p) = pr_admin p" if "dispatches s j" for w j
    using execution_start [OF assms(3) _ that, of ts] assms(4) sys by (auto simp: spawn_def)
  have listen: "pr_admin p \<longleftrightarrow> cf_AdminListen (sv_cfg s) \<noteq> []"
    using execution_admin_listen [OF assms(2,3)] assms(4,5) sys by simp
  show ?thesis
    using assms(1)
  proof cases
    case (act i j a q s')
    then have "cstep (last tr) (s', ts[i := (j, q)])" using assms(4) sys by (auto intro: gstep.acts)
    then show ?thesis using act assms(3) sys by (auto intro!: exI [of _ "tr @ [(s', ts[i := (j, q)])]"] grun.then_step)
  next
    case (hup found)
    then show ?thesis using execution_reload [OF assms(3,4)] by (auto simp: reload_def split: option.splits)
  next
    case (accept r mux rt env)
    then have "dispatches s (Handle rt env r)" using sys by simp
    then show ?thesis unfolding accept(1) by (rule start)
  next
    case (accept_admin r rt env)
    then have "dispatches s (Handle rt env r)" using listen by simp
    then show ?thesis unfolding accept_admin(1) by (rule start)
  next
    case (tick now)
    show ?thesis unfolding tick(1) by (rule start) simp
  qed (use assms(3,4) in auto)
qed

text \<open>C8: what runs in the process is an execution. The program that \<^verbatim>\<open>main\<close> starts begins with a started server, and whatever requests, ticks, reloads and
  signals come, the shared state and the goroutines are at every moment the end of an execution from there, also while it shuts down; so the
  server is well formed at every moment.\<close>

theorem process_runs_executions:
  assumes "main read_file decode draw flags = Running p0" and "pstep\<^sup>*\<^sup>* p0 p"
  shows "\<exists>tr. started (fst (pr_sys p0)) \<and> execution (fst (pr_sys p0)) tr \<and> last tr = pr_sys p \<and> server_inv (fst (pr_sys p))"
proof -
  let ?s0 = "fst (pr_sys p0)"
  have s0: "started ?s0" using main_started [OF assms(1)] .
  have "(\<exists>tr. execution ?s0 tr \<and> last tr = pr_sys p) \<and> pr_admin p = (cf_AdminListen (sv_cfg ?s0) \<noteq> [])"
    using assms(2)
  proof (induction rule: rtranclp_induct)
    case base
    then show ?case using assms(1) grun.begin_with by (fastforce simp: main_Running AdminHandler_def)
  next
    case (step p p')
    then show ?case using pstep_execution [OF step.hyps(2) s0] by blast
  qed
  then obtain tr where tr: "execution ?s0 tr" "last tr = pr_sys p" by blast
  then have "pr_sys p \<in> set tr" using execution_nonempty last_in_set by metis
  then show ?thesis using execution_inv [OF s0 tr(1)] s0 tr by blast
qed

section \<open>Shutting down\<close>

definition orderly :: "Process \<Rightarrow> bool" where
  "orderly p \<longleftrightarrow>
     length (pr_from p) = length (snd (pr_sys p)) \<and>
     (pr_admin p \<or> drained FromAdmin p) \<and>
     (pr_phase p = AdminDraining \<and> \<not> pr_cut p \<longrightarrow> drained FromMain p) \<and>
     (pr_phase p = Exited 0 \<and> \<not> pr_cut p \<longrightarrow> drained FromMain p \<and> drained FromAdmin p)"

lemma drained_spawn: "drained w p \<Longrightarrow> w' \<noteq> w \<Longrightarrow> drained w (spawn w' j p)"
  by (auto simp: drained_def spawn_def intro!: list_all2_appendI)

lemma drained_act:
  assumes "drained w p" and "i < length (snd (pr_sys p))" and "snd (pr_sys p) ! i = (j, Act a)"
  shows "drained w (p\<lparr>pr_sys := (s', (snd (pr_sys p))[i := (j, q)])\<rparr>)"
proof -
  have "pr_from p ! i \<noteq> w" using assms list_all2_nthD2 [of _ "pr_from p" "snd (pr_sys p)" i] by (fastforce simp: drained_def)
  then have "list_all2 (\<lambda>w' (j, q). w' = w \<longrightarrow> has_replied q) ((pr_from p)[i := pr_from p ! i]) ((snd (pr_sys p))[i := (j, q)])"
    using assms(1) unfolding drained_def by (intro list_all2_update_cong) auto
  then show ?thesis by (simp add: drained_def)
qed

lemma drained_reload: "drained w p \<Longrightarrow> w \<noteq> Internal \<Longrightarrow> drained w (reload found p)"
  by (auto simp: drained_def reload_def split: option.splits intro!: list_all2_appendI)

lemma reload_fields:
  "pr_admin (reload found p) = pr_admin p" "pr_phase (reload found p) = pr_phase p" "pr_cut (reload found p) = pr_cut p"
  "length (pr_from (reload found p)) + length (snd (pr_sys p)) = length (snd (pr_sys (reload found p))) + length (pr_from p)"
  by (auto simp: reload_def split: option.splits)

lemma spawn_fields:
  "pr_admin (spawn w j p) = pr_admin p" "pr_phase (spawn w j p) = pr_phase p" "pr_cut (spawn w j p) = pr_cut p"
  "length (pr_from (spawn w j p)) = Suc (length (pr_from p))" "length (snd (pr_sys (spawn w j p))) = Suc (length (snd (pr_sys p)))"
  by (simp_all add: spawn_def)

lemma drained_phase [simp]: "drained w (p\<lparr>pr_phase := x\<rparr>) = drained w p" "drained w (p\<lparr>pr_phase := x, pr_cut := c\<rparr>) = drained w p"
  by (simp_all add: drained_def)

lemma orderly_pstep:
  assumes "pstep p p'" and "orderly p"
  shows "orderly p'"
  using assms
proof (induction rule: pstep.induct)
  case (act p i j a q s')
  then show ?case using drained_act [of _ p i j a s' q] by (auto simp: orderly_def)
next
  case (hup p found)
  then show ?case using drained_reload reload_fields [of found p] by (auto simp: orderly_def)
qed (auto simp: orderly_def drained_spawn spawn_fields next_phase_def split: if_splits)

text \<open>C11: a shutdown in time loses no answer. When the process that \<^verbatim>\<open>main\<close> started has ended with status 0 and the deadline of five seconds did not cut
  anything off, every request that either listener had accepted has its answer: the process does not end while the requests drain.\<close>

theorem graceful_exit_answers_all:
  assumes "main read_file decode draw flags = Running p0" and "pstep\<^sup>*\<^sup>* p0 p" and "pr_phase p = Exited 0" and "\<not> pr_cut p"
    and "i < length (snd (pr_sys p))" and "pr_from p ! i \<noteq> Internal"
  shows "\<exists>resp. snd (snd (pr_sys p) ! i) = Reply resp"
proof -
  have "orderly p0" using assms(1) by (auto simp: main_Running orderly_def drained_def)
  with assms(2) have "orderly p" by (induction rule: rtranclp_induct) (auto intro: orderly_pstep)
  then have d: "drained FromMain p" "drained FromAdmin p" using assms(3,4) by (simp_all add: orderly_def)
  have "pr_from p ! i = FromMain \<or> pr_from p ! i = FromAdmin" using assms(6) by (cases "pr_from p ! i") auto
  then have "has_replied (snd (snd (pr_sys p) ! i))"
    using d assms(5) list_all2_nthD2 [of _ "pr_from p" "snd (pr_sys p)" i] by (fastforce simp: drained_def)
  then show ?thesis by (cases "snd (snd (pr_sys p) ! i)") auto
qed

text \<open>A knock that arrives just before the signal.\<close>

lemma goroutine_finishes:
  assumes "pr_phase p \<in> {Serving, Draining, AdminDraining}" and "i < length (snd (pr_sys p))" and "snd (pr_sys p) ! i = (j, q)"
  shows "pstep\<^sup>*\<^sup>* p (p\<lparr>pr_sys := (snd (alone q (fst (pr_sys p))), (snd (pr_sys p))[i := (j, ended (fst (alone q (fst (pr_sys p)))))])\<rparr>)"
  using assms
proof (induction q arbitrary: p)
  case (Act a)
  obtain q s' where a: "a (fst (pr_sys p)) = (q, s')" by fastforce
  let ?p = "p\<lparr>pr_sys := (s', (snd (pr_sys p))[i := (j, q)])\<rparr>"
  have "a (fst (pr_sys p)) \<in> range a" by simp
  moreover have "q \<in> Basic_BNFs.fsts (a (fst (pr_sys p)))" using a by simp
  ultimately have "pstep\<^sup>*\<^sup>* ?p (?p\<lparr>pr_sys := (snd (alone q (fst (pr_sys ?p))),
      (snd (pr_sys ?p))[i := (j, ended (fst (alone q (fst (pr_sys ?p)))))])\<rparr>)"
    using Act.prems by (intro Act.IH) auto
  moreover have "pstep p ?p" using pstep.act [OF Act.prems a] .
  ultimately show ?case using a by (auto intro: converse_rtranclp_into_rtranclp)
qed (auto simp: list_update_same_conv [THEN iffD2])

lemma sample_main:
  "main sample_read sample_decode (Some (\<lambda>i. 0)) sample_flags =
     Running \<lparr>pr_sys = (sample_server, []), pr_from = [], pr_admin = False, pr_listen = [], pr_phase = Serving, pr_cut = False\<rparr>"
proof -
  have "map (\<lambda>i. 0) [0..<32] = (replicate 32 0 :: bytes)" by (simp add: map_replicate_const)
  then have "NewServer sample_final (Some (\<lambda>i. 0)) = Inr (sample_server\<lparr>sv_mux := None\<rparr>)"
    by (simp add: NewServer_def sample_registry RandomBytes_def sample_server_def)
  then show ?thesis
    using sample_load by (simp add: main_def sample_flags_def Handler_def AdminHandler_def sample_server_def)
qed

definition sample_process :: Process where
  "sample_process = \<lparr>pr_sys = (sample_server, []), pr_from = [], pr_admin = False, pr_listen = [], pr_phase = Serving, pr_cut = False\<rparr>"

definition stopped_process :: Process where
  "stopped_process = \<lparr>pr_sys = (sample_knocked, [(knock_job, Reply (NoContent [(''Cache-Control'', ''no-store'')]))]), pr_from = [FromMain],
     pr_admin = False, pr_listen = [], pr_phase = Exited 0, pr_cut = False\<rparr>"

lemma sample_stops: "pstep\<^sup>*\<^sup>* sample_process stopped_process"
proof -
  let ?p1 = "spawn FromMain knock_job sample_process" and ?p2 = "(spawn FromMain knock_job sample_process)\<lparr>pr_phase := Draining\<rparr>"
    and ?p3 = "stopped_process\<lparr>pr_phase := Draining\<rparr>"
  have "pstep sample_process ?p1"
    unfolding knock_job_def
    by (rule pstep.accept [where mux = "buildMuxLocked sample_final"]) (simp_all add: sample_process_def sample_routes routed_def)
  moreover have "pstep ?p1 ?p2" by (rule pstep.shutdown) (simp add: spawn_def sample_process_def)
  moreover have "pstep\<^sup>*\<^sup>* ?p2 ?p3"
    using goroutine_finishes [of ?p2 0 knock_job "job_prog knock_job"]
    by (simp add: spawn_def sample_process_def stopped_process_def knock_job_alone)
  moreover have "pstep ?p3 (?p3\<lparr>pr_phase := next_phase ?p3\<rparr>)"
    by (rule pstep.main_done) (simp_all add: drained_def stopped_process_def)
  moreover have "?p3\<lparr>pr_phase := next_phase ?p3\<rparr> = stopped_process" by (simp add: next_phase_def stopped_process_def)
  ultimately show ?thesis by (metis converse_rtranclp_into_rtranclp rtranclp.rtrancl_into_rtrancl)
qed

theorem process_runs_executions_witness:
  "\<exists>tr. execution sample_server tr \<and> last tr = pr_sys stopped_process \<and> server_inv sample_knocked"
  using process_runs_executions [OF sample_main sample_stops [unfolded sample_process_def]]
  by (auto simp: stopped_process_def)

theorem graceful_exit_answers_all_witness:
  "pr_phase stopped_process = Exited 0 \<and> (\<exists>resp. snd (snd (pr_sys stopped_process) ! 0) = Reply resp)"
  using graceful_exit_answers_all [OF sample_main sample_stops [unfolded sample_process_def], of 0]
  by (simp add: stopped_process_def)

end
