(* ===== verification/Probe.thy ===== *)
theory Probe
  imports Canon
begin

text \<open>
  The program \<^verbatim>\<open>canonprobe\<close>: the canonical forms of a list of names and addresses, for comparison with other implementations. The
  arguments of the command, the file system, the JSON decoder and the encoder are arguments; the result is what is printed, or the exit status.
\<close>

record ipCase =
  ic_Addr :: string
  ic_V6 :: int
  ic_V4 :: int

record cases =
  cs_ServerNames :: "string list"
  cs_IPs :: "ipCase list"

text \<open>A rejected address is \<^const>\<open>None\<close>.\<close>

record results =
  re_ServerNames :: "string list"
  re_IPs :: "string option list"

definition probe_ip :: "ipCase \<Rightarrow> string option" where
  "probe_ip c = (case CanonIP (ic_Addr c) (ic_V6 c) (ic_V4 c) of Inl err \<Rightarrow> None | Inr got \<Rightarrow> Some got)"

definition probe :: "cases \<Rightarrow> results" where
  "probe in_cases = \<lparr>re_ServerNames = map CanonServerName (cs_ServerNames in_cases), re_IPs = map probe_ip (cs_IPs in_cases)\<rparr>"

definition probe_main ::
  "(string \<Rightarrow> 'io + string) \<Rightarrow> (string \<Rightarrow> 'js + cases) \<Rightarrow> (results \<Rightarrow> 'w + string) \<Rightarrow> string list \<Rightarrow> nat + string" where
  "probe_main read_file unmarshal encode args =
     (case args of
        [prog, path] \<Rightarrow>
          (case read_file path of
             Inl err \<Rightarrow> Inl 1
           | Inr raw \<Rightarrow>
               (case unmarshal raw of
                  Inl err \<Rightarrow> Inl 1
                | Inr in_cases \<Rightarrow> (case encode (probe in_cases) of Inl err \<Rightarrow> Inl 1 | Inr out \<Rightarrow> Inr out)))
      | _ \<Rightarrow> Inl 2)"

text \<open>What the probe accepts is its own canonical form: probing an answer gives the same answer.\<close>

lemma probe_stable:
  assumes "i < length (cs_IPs cs)" and "re_IPs (probe cs) ! i = Some s"
  shows "probe_ip ((cs_IPs cs ! i)\<lparr>ic_Addr := s\<rparr>) = Some s"
  using assms CanonIP_idem by (auto simp: probe_def probe_ip_def split: sum.splits)

lemma probe_names_stable: "map CanonServerName (re_ServerNames (probe cs)) = re_ServerNames (probe cs)"
  by (simp add: probe_def CanonServerName_idem)

end
