(* ===== verification/Routing.thy ===== *)
theory Routing
  imports Admin
begin

text \<open>
  Where the routing table of \<open>buildMuxLocked\<close> sends a request: the four knock endpoints under a clean
  prefix, and none of them under the prefix \<^verbatim>\<open>/\<close>, which validation accepts.
\<close>

section \<open>Segments\<close>

lemma mux_segments_sep: "mux_segments (p @ CHR ''/'' # q) = mux_segments p @ mux_segments q"
  by (simp add: mux_segments_def Split_sep)

lemma mux_segments_name:
  assumes "CHR ''/'' \<notin> set w" and "CHR ''%'' \<notin> set w"
  shows "mux_segments (p @ CHR ''/'' # w) = mux_segments p @ [w]"
  using assms by (simp add: mux_segments_sep) (simp add: mux_segments_def Split_no_sep_id PathUnescape_plain)

lemma endpoint_segments:
  "mux_segments (p @ ''/challenge'') = mux_segments p @ [''challenge'']"
  "mux_segments (p @ ''/respond'') = mux_segments p @ [''respond'']"
  "mux_segments (p @ ''/enroll'') = mux_segments p @ [''enroll'']"
  "mux_segments (p @ ''/register'') = mux_segments p @ [''register'']"
  using mux_segments_name [of "''challenge''" p] mux_segments_name [of "''respond''" p]
    mux_segments_name [of "''enroll''" p] mux_segments_name [of "''register''" p] by simp_all

lemma endpoint_routes:
  "mux_route mux (mux_prefix mux @ ''/challenge'') = RChallenge"
  "mux_route mux (mux_prefix mux @ ''/respond'') = RRespond"
  "mux_route mux (mux_prefix mux @ ''/enroll'') = REnroll"
  "mux_route mux (mux_prefix mux @ ''/register'') = RRegister"
  by (simp_all add: mux_route_def endpoint_segments)

section \<open>Clean paths\<close>

lemma Join_snoc: "ws \<noteq> [] \<Longrightarrow> Join (ws @ [w]) sep = Join ws sep @ sep @ w"
  by (induction ws sep rule: Join.induct) auto

lemma clean_path_endpoint:
  assumes "clean_path p" and "p \<noteq> ''/''" and "clean_name w"
  shows "clean_path (p @ CHR ''/'' # w)"
proof -
  from assms(1) obtain segs where segs: "list_all clean_name segs" "p = ''/'' @ Join segs ''/''"
    by (auto simp: clean_path_def)
  then have "segs \<noteq> []" using assms(2) by auto
  then have "p @ CHR ''/'' # w = ''/'' @ Join (segs @ [w]) ''/''" using segs(2) by (simp add: Join_snoc)
  then show ?thesis using segs(1) assms(3) unfolding clean_path_def by (intro exI [of _ "segs @ [w]"]) simp
qed

lemma mux_clean_id: "clean_path p \<Longrightarrow> mux_clean p = p"
  using clean_path_slash [of p] by (auto simp: mux_clean_def Clean_id Let_def clean_path_def HasPrefix_def)

lemma cleanURIPath_id:
  assumes "clean_path p" and "set p \<inter> set ''%?#'' = {}"
  shows "cleanURIPath p = p"
proof -
  have no: "CHR ''%'' \<notin> set p" "CHR ''?'' \<notin> set p" "CHR ''#'' \<notin> set p" using assms(2) by auto
  then have "IndexAny p ''?#'' = None" by (intro IndexAny_None) auto
  moreover have "\<not> ContainsAny p ''%?#''" using no by (auto simp: ContainsAny_def list_ex_iff)
  moreover have "HasPrefix p ''/''" using assms(1) by (auto simp: clean_path_def HasPrefix_def)
  ultimately show ?thesis using no(1) Clean_id [OF assms(1)] by (simp add: cleanURIPath_def PathUnescape_plain)
qed

definition at_path :: "string \<Rightarrow> Request \<Rightarrow> Request" where
  "at_path p r = r\<lparr>rq_Path := p, rq_EscapedPath := p\<rparr>"

lemma serve_endpoint:
  assumes "sv_mux s = Some mux" and "clean_path p" and "mux_route mux p = rt"
  shows "serve env s (at_path p r) = Some (serve_route env rt s (at_path p r))"
  using assms mux_clean_id [OF assms(2)] clean_not_redirected [OF assms(2)]
  by (simp add: serve_def mux_serve_def at_path_def)

section \<open>The root prefix\<close>

lemma PathUnescape_nonempty: "PathUnescape (c # s) \<noteq> Some []"
  by (cases "c = CHR ''%''"; cases s rule: list.exhaust [case_product list.exhaust [of "tl s"]])
    (auto split: option.splits)

lemma unescape_nonempty: "seg \<noteq> [] \<Longrightarrow> (case PathUnescape seg of Some s \<Rightarrow> s | None \<Rightarrow> seg) \<noteq> []"
proof -
  assume "seg \<noteq> []"
  then obtain c s where "seg = c # s" by (cases seg) auto
  then show ?thesis using PathUnescape_nonempty [of c s] by (cases "PathUnescape seg") auto
qed

lemma mux_clean_second:
  assumes "2 < length (mux_segments (mux_clean p))"
  shows "mux_segments (mux_clean p) ! 1 \<noteq> []"
proof -
  define x where "x = (if HasPrefix p ''/'' then p else ''/'' @ p)"
  define q where "q = (if p = [] then ''/'' else Clean x)"
  have "HasPrefix x ''/''" by (simp add: x_def HasPrefix_def)
  then have "clean_path (Clean x)" using Clean_rooted by (cases x) (auto simp: HasPrefix_def)
  then have "clean_path q" by (simp add: q_def clean_path_root)
  moreover have m: "mux_clean p = q \<or> q \<noteq> ''/'' \<and> mux_clean p = q @ ''/''"
    by (simp add: mux_clean_def Let_def q_def flip: x_def)
  ultimately obtain segs where segs: "list_all clean_name segs" "q = ''/'' @ Join segs ''/''" by (auto simp: clean_path_def)
  have split: "Split q CHR ''/'' = [] # segs" if "segs \<noteq> []"
    using segs that Split_Join [of segs "CHR ''/''"] by (simp add: list_all_iff clean_name_def)
  have "segs \<noteq> []" using assms m segs(2) by (auto simp: mux_segments_def)
  then obtain w ws where w: "segs = w # ws" "w \<noteq> []" using segs(1) by (cases segs) (auto simp: clean_name_def)
  have "Split (mux_clean p) CHR ''/'' = [] # segs \<or> Split (mux_clean p) CHR ''/'' = [] # segs @ [[]]"
    using m split \<open>segs \<noteq> []\<close> Split_sep [of q "CHR ''/''" "[]"] by auto
  then show ?thesis using w unescape_nonempty [of w] by (auto simp: mux_segments_def)
qed

lemma root_prefix_unrouted:
  assumes "mux_prefix mux = ''/''"
  shows "mux_route mux (mux_clean p) \<notin> {RChallenge, RRespond, REnroll, RRegister}"
proof -
  have "mux_segments ''/'' = [[], []]" by (simp add: mux_segments_def)
  then have "mux_segments (mux_clean p) \<noteq> mux_segments ''/'' @ [w]" for w
    using mux_clean_second [of p] by (metis append_Cons append_Nil length_Cons length_append_singleton lessI list.size(3)
        nth_Cons_0 nth_Cons_Suc One_nat_def numeral_2_eq_2)
  then show ?thesis
    using assms endpoint_segments [of "''/''"] by (simp add: mux_route_def Let_def)
qed

lemma root_prefix_unmatched: "clean_path uri \<Longrightarrow> \<not> isProtocolURI ''/'' uri"
proof
  assume c: "clean_path uri" and "isProtocolURI ''/'' uri"
  then obtain w where u: "uri = CHR ''/'' # CHR ''/'' # w" "w \<noteq> []" by (auto simp: isProtocolURI_def)
  from c obtain segs where segs: "list_all clean_name segs" "uri = ''/'' @ Join segs ''/''" by (auto simp: clean_path_def)
  then have "Join segs ''/'' = CHR ''/'' # w" using u by simp
  then obtain v vs where "segs = v # vs" by (cases segs) auto
  with segs \<open>Join segs ''/'' = CHR ''/'' # w\<close> show False
    by (cases v; cases vs) (auto simp: clean_name_def)
qed

end
