(* ===== verification/Caddy.thy ===== *)
theory Caddy
  imports Inprocess
begin

text \<open>
  \<^verbatim>\<open>adapters/caddy/jitaccess.go\<close>: the gate as a Caddy handler. The handler instance (\<open>JITAccess\<close>) is its options with
  what \<open>Provision\<close> derives from them; the stores are process-wide (\<open>Shared\<close>). A request takes its clock readings and
  random reads from \<open>Env\<close> in the order of the source: the first reading is the one of \<open>maybeSweep\<close>. What the
  next handler does with a request that is passed on is outside. Durations are nanoseconds.
\<close>

section \<open>Options\<close>

definition defaultPrefix_caddy :: string where
  "defaultPrefix_caddy = ''/.well-known/jit-access''"

definition jitMarker_caddy :: string where
  "jitMarker_caddy = ''challenge; v=1''"

definition grantCookieName_caddy :: string where
  "grantCookieName_caddy = ''__Host-jit-grant''"

definition failInterstitial_caddy :: string where
  "failInterstitial_caddy = ''interstitial''"

definition failStealth_caddy :: string where
  "failStealth_caddy = ''stealth''"

record Token_caddy =
  ct_Kid :: string
  ct_Secret :: string
  ct_Label :: string
  ct_Expires :: int

record JITAccess_caddy =
  ca_Prefix :: string
  ca_Allow :: "string list"
  ca_Tokens :: "Token_caddy list"
  ca_GrantTTL :: int
  ca_NonceTTL :: int
  ca_EnrollTTL :: int
  ca_FailureMode :: string
  ca_Binding :: string
  ca_IPv6Prefix :: int
  ca_RateLimit :: int
  ca_TrustForwarded :: bool
  ca_TrustedProxies :: "string list"
  ca_reg :: Registry
  ca_trusted :: "Prefix list"

datatype caddy_error =
    CaddyRand rand_error | CaddyBadProxy string | CaddyForwardedUntrusted
  | CaddySecretNotB64u string | CaddySecretTooShort string
  | CaddyBadFailureMode string | CaddyBadBinding string | CaddyNoTokens | CaddyNoAllow

section \<open>Process-wide state\<close>

definition shared_caddy :: "draw \<Rightarrow> Shared \<Rightarrow> rand_error option \<times> Shared" where
  "shared_caddy d sh =
     (if sh_once sh then (sh_err sh, sh)
      else
        let sh = sh\<lparr>sh_once := True, sh_grants := NewGrantStore, sh_nonces := NewNonceStore, sh_codes := NewEnrollStore,
                   sh_rl := NewRateLimiter DefaultRateLimitEntries\<rparr>;
            sh = (case RandomBytes 32 d of
                    Inr key \<Rightarrow> sh\<lparr>sh_nonceKey := key, sh_err := None\<rparr>
                  | Inl err \<Rightarrow> sh\<lparr>sh_nonceKey := [], sh_err := Some err\<rparr>)
        in (sh_err sh, sh))"

definition sweepEvery_caddy :: int where
  "sweepEvery_caddy = 60"

definition maybeSweep_caddy :: "int \<Rightarrow> Shared \<Rightarrow> Shared" where
  "maybeSweep_caddy now sh =
     (if i64 (now - sh_lastSweep sh) < sweepEvery_caddy then sh
      else sweep_shared now (sh\<lparr>sh_lastSweep := now\<rparr>))"

definition MintEnrollCode_caddy :: "draw \<Rightarrow> string \<Rightarrow> string \<Rightarrow> string list \<Rightarrow> int \<Rightarrow> Shared \<Rightarrow> Shared" where
  "MintEnrollCode_caddy d code kid origins exp sh =
     (let sh = snd (shared_caddy d sh)
      in sh\<lparr>sh_codes := Put_es (sh_codes sh) code \<lparr>ec_Kid = kid, ec_Origins = origins, ec_Exp = exp\<rparr>\<rparr>)"

section \<open>Provisioning\<close>

definition proxy_step_caddy :: "string \<Rightarrow> Prefix list \<Rightarrow> caddy_error + Prefix list" where
  "proxy_step_caddy s out =
     (let s = TrimSpace s in
      if s = [] then Inr out
      else (case ParsePrefix s of
              Some p \<Rightarrow> Inr (out @ [p])
            | None \<Rightarrow> (case ParseAddr s of
                         None \<Rightarrow> Inl (CaddyBadProxy s)
                       | Some a \<Rightarrow> Inr (out @ [PrefixFrom a (BitLen a)]))))"

definition parsePrefixes_caddy :: "string list \<Rightarrow> caddy_error + Prefix list" where
  "parsePrefixes_caddy list = fold_sum proxy_step_caddy list []"

definition defaults_caddy :: "JITAccess_caddy \<Rightarrow> JITAccess_caddy" where
  "defaults_caddy j =
     (let j = (if ca_Prefix j = [] then j\<lparr>ca_Prefix := defaultPrefix_caddy\<rparr> else j);
          j = j\<lparr>ca_Prefix := ''/'' @ Trim (ca_Prefix j) ''/''\<rparr>;
          j = (if ca_GrantTTL j = 0 then j\<lparr>ca_GrantTTL := 3600 * 10 ^ 9\<rparr> else j);
          j = (if ca_NonceTTL j = 0 then j\<lparr>ca_NonceTTL := 60 * 10 ^ 9\<rparr> else j);
          j = (if ca_EnrollTTL j = 0 then j\<lparr>ca_EnrollTTL := 86400 * 10 ^ 9\<rparr> else j);
          j = (if ca_FailureMode j = [] then j\<lparr>ca_FailureMode := failInterstitial_caddy\<rparr> else j);
          j = (if ca_Binding j = [] then j\<lparr>ca_Binding := BindingIP\<rparr> else j);
          j = (if ca_IPv6Prefix j \<le> 0 \<or> ca_IPv6Prefix j > 128 then j\<lparr>ca_IPv6Prefix := 128\<rparr> else j)
      in if ca_RateLimit j \<le> 0 then j\<lparr>ca_RateLimit := 10\<rparr> else j)"

definition token_step_caddy :: "Token_caddy \<Rightarrow> (string, Token) gomap \<Rightarrow> caddy_error + (string, Token) gomap" where
  "token_step_caddy t tokens =
     (case B64uDecode (ct_Secret t) of
        Inl err \<Rightarrow> Inl (CaddySecretNotB64u (ct_Kid t))
      | Inr sec \<Rightarrow>
          if length sec < 16 then Inl (CaddySecretTooShort (ct_Kid t))
          else Inr (mput tokens (ct_Kid t)
                 \<lparr>tok_Secret = sec, tok_Alg = AlgHMACSHA256, tok_Label = ct_Label t, tok_Expires = ct_Expires t\<rparr>))"

definition Provision_caddy :: "draw \<Rightarrow> JITAccess_caddy \<Rightarrow> Shared \<Rightarrow> (caddy_error + JITAccess_caddy) \<times> Shared" where
  "Provision_caddy d j sh =
     (case shared_caddy d sh of
        (Some err, sh) \<Rightarrow> (Inl (CaddyRand err), sh)
      | (None, sh) \<Rightarrow>
          (let j = defaults_caddy j in
           bind_sum (parsePrefixes_caddy (ca_TrustedProxies j)) (\<lambda>trusted.
           let j = j\<lparr>ca_trusted := trusted\<rparr> in
           bind_sum (check_that (\<not> (ca_TrustForwarded j \<and> ca_trusted j = [])) CaddyForwardedUntrusted) (\<lambda>_.
           bind_sum (fold_sum token_step_caddy (ca_Tokens j) mempty) (\<lambda>tokens.
           let allow = fold (\<lambda>k m. mput m k True) (ca_Allow j) mempty
           in Inr (j\<lparr>ca_reg := NewRegistry (Some tokens) (Some (mput mempty ''*'' allow))\<rparr>)))), sh))"

definition Validate_caddy :: "JITAccess_caddy \<Rightarrow> caddy_error + unit" where
  "Validate_caddy j =
     (if ca_FailureMode j \<notin> {failInterstitial_caddy, failStealth_caddy} then Inl (CaddyBadFailureMode (ca_FailureMode j))
      else if ca_Binding j \<notin> {BindingIP, BindingIPCookie} then Inl (CaddyBadBinding (ca_Binding j))
      else if ca_Tokens j = [] then Inl CaddyNoTokens
      else if ca_Allow j = [] then Inl CaddyNoAllow
      else Inr ())"

section \<open>The client\<close>

definition isTrusted_caddy :: "JITAccess_caddy \<Rightarrow> Addr \<Rightarrow> bool" where
  "isTrusted_caddy j a = (let a = Unmap a in list_ex (\<lambda>p. Contains_addr p a) (ca_trusted j))"

definition parseHostAddr_caddy :: "string \<Rightarrow> Addr option" where
  "parseHostAddr_caddy s =
     (let s = TrimSpace s;
          s = (case SplitHostPort s of Some (h, _) \<Rightarrow> h | None \<Rightarrow> s)
      in map_option Unmap (ParseAddr (Trim s ''[]'')))"

datatype client_error_caddy = CaddyBadPeer | CaddyNoClient | CaddyCanon canon_error

text \<open>The walk over the chain, from the last entry to the first: the argument is reversed.\<close>

fun walk_caddy :: "JITAccess_caddy \<Rightarrow> string list \<Rightarrow> client_error_caddy + string" where
  "walk_caddy j [] = Inl CaddyNoClient"
| "walk_caddy j (entry # rest) =
     (case parseHostAddr_caddy entry of
        None \<Rightarrow> walk_caddy j rest
      | Some a \<Rightarrow>
          if isTrusted_caddy j a then walk_caddy j rest
          else map_sum CaddyCanon id (CanonIP (AddrString a) (ca_IPv6Prefix j) 32))"

definition clientIP_caddy :: "JITAccess_caddy \<Rightarrow> Request \<Rightarrow> client_error_caddy + string" where
  "clientIP_caddy j r =
     (case parseHostAddr_caddy (rq_RemoteAddr r) of
        None \<Rightarrow> Inl CaddyBadPeer
      | Some peer \<Rightarrow>
          if \<not> ca_TrustForwarded j \<or> \<not> isTrusted_caddy j peer
          then map_sum CaddyCanon id (CanonIP (AddrString peer) (ca_IPv6Prefix j) 32)
          else walk_caddy j (rev (concat (map (\<lambda>v. Split v CHR '','') (Header_Values r ''X-Forwarded-For'')))))"

definition allowedForService_caddy :: "JITAccess_caddy \<Rightarrow> string \<Rightarrow> bool" where
  "allowedForService_caddy j kid = AllowedForService (Some (ca_reg j)) kid ''*''"

section \<open>Handlers\<close>

definition deny_caddy :: "JITAccess_caddy \<Rightarrow> Response" where
  "deny_caddy j =
     (if ca_FailureMode j = failStealth_caddy then StatusOnly 404 [(''Cache-Control'', ''no-store'')]
      else \<lparr>rs_Status = 403,
            rs_Header = [(''Cache-Control'', ''no-store''), (''X-Jit-Access'', jitMarker_caddy),
                         (''Content-Type'', ''text/html; charset=utf-8'')],
            rs_Body = InterstitialHTML\<rparr>)"

definition handleChallenge_caddy :: "Env \<Rightarrow> JITAccess_caddy \<Rightarrow> string \<Rightarrow> string \<Rightarrow> Shared \<Rightarrow> Response \<times> Shared" where
  "handleChallenge_caddy env j service ip sh =
     (let (ok, rl) = Allow (sh_rl sh) (RateKey service ip) (ca_RateLimit j) (env_now env 1);
          sh = sh\<lparr>sh_rl := rl\<rparr>
      in if \<not> ok then (deny_caddy j, sh)
         else (case RandomBytes 16 (env_draw env 0) of
                 Inl err \<Rightarrow> (deny_caddy j, sh)
               | Inr rnd \<Rightarrow>
                   let ts = env_now env 2 in
                   (case IssueNonce (sh_nonceKey sh) (word_of_int ts) rnd service ip (ca_IPv6Prefix j) of
                      Inl err \<Rightarrow> (deny_caddy j, sh)
                    | Inr nonce \<Rightarrow>
                        (NoContent [(''X-Jit-Nonce'', B64u nonce), (''X-Jit-Ts'', FormatInt ts),
                                    (''Cache-Control'', ''no-store'')], sh))))"

definition dummySecret_caddy :: bytes where
  "dummySecret_caddy = replicate 32 0"

text \<open>\<open>handleRespond\<close> after the body is decoded, up to the claim of the nonce: the token of the proof.\<close>

definition verify_caddy :: "Env \<Rightarrow> JITAccess_caddy \<Rightarrow> string \<Rightarrow> string \<Rightarrow> respondBody \<Rightarrow> Shared \<Rightarrow> Token option \<times> Shared" where
  "verify_caddy env j service ip body sh =
     (case (B64uDecode (rb_Nonce body), B64uDecode (rb_Proof body)) of
        (Inr nonceRaw, Inr tag) \<Rightarrow>
          if length nonceRaw \<noteq> NonceLen \<or> length tag \<noteq> 32 then (None, sh)
          else
            let n = env_now env 2;
                (ok, rnd) = VerifyNonce (sh_nonceKey sh) nonceRaw service ip n (dur_seconds (ca_NonceTTL j)) (ca_IPv6Prefix j)
            in if \<not> ok then (None, sh)
               else
                 let token = Lookup (Some (ca_reg j)) (rb_Kid body);
                     secret = (case token of Some t \<Rightarrow> tok_Secret t | None \<Rightarrow> dummySecret_caddy);
                     proofOK = VerifyProof secret service (rb_Kid body) nonceRaw tag
                 in (case token of
                       None \<Rightarrow> (None, sh)
                     | Some t \<Rightarrow>
                         if IsExpired (Some t) n \<or> \<not> allowedForService_caddy j (rb_Kid body) \<or> \<not> proofOK then (None, sh)
                         else
                           let (ok, nonces) = Claim (sh_nonces sh) (B64u rnd) n (dur_seconds (ca_NonceTTL j));
                               sh = sh\<lparr>sh_nonces := nonces\<rparr>
                           in if \<not> ok then (None, sh) else (Some t, sh))
      | _ \<Rightarrow> (None, sh))"

definition mint_caddy ::
  "Env \<Rightarrow> JITAccess_caddy \<Rightarrow> string \<Rightarrow> string \<Rightarrow> string \<Rightarrow> Token \<Rightarrow> rand_error + (Grant \<times> (string \<times> string) list)" where
  "mint_caddy env j service ip kid token =
     (let n = env_now env 2;
          ttl = dur_seconds (ca_GrantTTL j);
          g = \<lparr>g_V = 1, g_Kid = kid, g_Service = service, g_IP = ip, g_Binding = ca_Binding j, g_CookieHash = [],
               g_Issued = n, g_Exp = i64 (n + ttl), g_Manual = False, g_SecretFP = Fingerprint (Some token)\<rparr>
      in if ca_Binding j = BindingIPCookie then
           (case RandomBytes 32 (env_draw env 0) of
              Inl err \<Rightarrow> Inl err
            | Inr idBytes \<Rightarrow>
                let cid = B64u idBytes
                in Inr (g\<lparr>g_CookieHash := CookieHash cid\<rparr>,
                        [(''Set-Cookie'', cookie_string grantCookieName_caddy cid ttl)]))
         else Inr (g, []))"

definition oldHash_caddy :: "Request \<Rightarrow> string" where
  "oldHash_caddy r =
     (case Request_Cookie r grantCookieName_caddy of
        Some v \<Rightarrow> if v \<noteq> [] then CookieHash v else []
      | None \<Rightarrow> [])"

definition handleRespond_caddy :: "Env \<Rightarrow> JITAccess_caddy \<Rightarrow> Request \<Rightarrow> string \<Rightarrow> string \<Rightarrow> Shared \<Rightarrow> Response \<times> Shared" where
  "handleRespond_caddy env j r service ip sh =
     (let (ok, rl) = Allow (sh_rl sh) (RateKey service ip) (ca_RateLimit j) (env_now env 1);
          sh = sh\<lparr>sh_rl := rl\<rparr>
      in if \<not> ok then (deny_caddy j, sh)
         else (case env_respond env 4096 (rq_Body r) of
                 None \<Rightarrow> (deny_caddy j, sh)
               | Some body \<Rightarrow>
                   (case verify_caddy env j service ip body sh of
                      (None, sh) \<Rightarrow> (deny_caddy j, sh)
                    | (Some token, sh) \<Rightarrow>
                        (case mint_caddy env j service ip (rb_Kid body) token of
                           Inl err \<Rightarrow> (deny_caddy j, sh)
                         | Inr (g, cookie) \<Rightarrow>
                             (NoContent (cookie @ [(''Cache-Control'', ''no-store'')]),
                              sh\<lparr>sh_grants := Put (sh_grants sh) (Some g) [oldHash_caddy r]\<rparr>)))))"

definition handleRegister_caddy :: "JITAccess_caddy \<Rightarrow> Response" where
  "handleRegister_caddy j =
     (if ca_FailureMode j = failStealth_caddy then deny_caddy j
      else \<lparr>rs_Status = 200,
            rs_Header = [(''Content-Type'', ''text/html; charset=utf-8''), (''Cache-Control'', ''no-store''),
                         (''Referrer-Policy'', ''no-referrer'')],
            rs_Body = RegisterHTML\<rparr>)"

definition handleEnroll_caddy :: "Env \<Rightarrow> JITAccess_caddy \<Rightarrow> Request \<Rightarrow> string \<Rightarrow> string \<Rightarrow> Shared \<Rightarrow> Response \<times> Shared" where
  "handleEnroll_caddy env j r service ip sh =
     (let (ok, rl) = Allow (sh_rl sh) (RateKey service ip) (ca_RateLimit j) (env_now env 1);
          sh = sh\<lparr>sh_rl := rl\<rparr>
      in if \<not> ok then (deny_caddy j, sh)
         else (case env_enroll env 4096 (rq_Body r) of
                 None \<Rightarrow> (deny_caddy j, sh)
               | Some body \<Rightarrow>
                   if eb_Code body = [] then (deny_caddy j, sh)
                   else if (case Peek (sh_codes sh) (eb_Code body) (env_now env 2) of
                              None \<Rightarrow> True
                            | Some peek \<Rightarrow> Lookup (Some (ca_reg j)) (ec_Kid peek) = None)
                   then (deny_caddy j, sh)
                   else
                     let (code, codes) = Consume (sh_codes sh) (eb_Code body) (env_now env 3);
                         sh = sh\<lparr>sh_codes := codes\<rparr>
                     in (case code of
                           None \<Rightarrow> (deny_caddy j, sh)
                         | Some code \<Rightarrow>
                             (case Lookup (Some (ca_reg j)) (ec_Kid code) of
                                None \<Rightarrow> (deny_caddy j, sh)
                              | Some token \<Rightarrow>
                                  (NoContent [(''X-Jit-Kid'', ec_Kid code), (''X-Jit-Secret'', B64u (tok_Secret token)),
                                              (''X-Jit-Origins'', Join (ec_Origins code) '',''),
                                              (''Cache-Control'', ''no-store'')], sh)))))"

definition ServeHTTP_caddy :: "Env \<Rightarrow> JITAccess_caddy \<Rightarrow> Request \<Rightarrow> Shared \<Rightarrow> outcome \<times> Shared" where
  "ServeHTTP_caddy env j r sh =
     (let answer = (\<lambda>(resp, sh). (Answer resp, sh));
          sh = maybeSweep_caddy (env_now env 0) sh;
          service = CanonServerName (rq_Host r);
          p = ca_Prefix j
      in case clientIP_caddy j r of
           Inl err \<Rightarrow> (Answer (deny_caddy j), sh)
         | Inr ip \<Rightarrow>
             if service = [] then (Answer (deny_caddy j), sh)
             else if rq_Path r = p \<or> HasPrefix (rq_Path r) (p @ ''/'') then
               (if rq_Path r = p @ ''/challenge'' \<and> rq_Method r = ''GET'' then answer (handleChallenge_caddy env j service ip sh)
                else if rq_Path r = p @ ''/respond'' \<and> rq_Method r = ''POST'' then answer (handleRespond_caddy env j r service ip sh)
                else if rq_Path r = p @ ''/enroll'' \<and> rq_Method r = ''POST'' then answer (handleEnroll_caddy env j r service ip sh)
                else if rq_Path r = p @ ''/register'' \<and> rq_Method r = ''GET'' then (Answer (handleRegister_caddy j), sh)
                else (Answer (deny_caddy j), sh))
             else
               let cookie = (case Request_Cookie r grantCookieName_caddy of Some v \<Rightarrow> v | None \<Rightarrow> []) in
               (case IsAllowed (sh_grants sh) service ip (Some (ca_reg j)) (env_now env 1) cookie of
                  Some g \<Rightarrow>
                    if ca_Binding j = BindingIPCookie \<and> g_Binding g \<noteq> BindingIPCookie then (Answer (deny_caddy j), sh)
                    else (Next, sh)
                | None \<Rightarrow> (Answer (deny_caddy j), sh)))"

end
