(* ===== verification/Caddyfile.thy ===== *)
theory Caddyfile
  imports Caddy NetipRoundtrip
begin

text \<open>
  \<open>UnmarshalCaddyfile\<close> of \<^verbatim>\<open>adapters/caddy/jitaccess.go\<close>: the options of a site from its \<^verbatim>\<open>jit_access\<close> block. The token stream is Caddy's
  \<^verbatim>\<open>caddyfile.Dispenser\<close>, which is not part of the repository: its methods and \<^verbatim>\<open>caddy.ParseDuration\<close> are an argument (\<open>Dispenser\<close>). That the parser
  returns rests on the documented fact that a call of \<^verbatim>\<open>Next\<close> or \<^verbatim>\<open>NextBlock\<close> that reports success has loaded a further token (\<open>dispenser_consumes\<close>); what it reads is stated for a
  dispenser that presents a given block (\<open>presents\<close>), call by call and only in the states the parser reaches. A loop over a stream that never
  ends does not return: the parser is a partial function.
\<close>

section \<open>Integers\<close>

text \<open>\<^verbatim>\<open>fmt.Sscanf(s, "%d", &n)\<close>: leading white space other than a newline, a sign, digits in the range of \<^verbatim>\<open>int\<close>; what follows is
  not looked at.\<close>

definition Sscanf_d :: "string \<Rightarrow> int option" where
  "Sscanf_d s =
     (let t = TrimSpaceLeft s in
      if CHR 0x0A \<in> set (take (length s - length t) s) then None
      else
        let neg = HasPrefix t ''-'';
            u = (if neg \<or> HasPrefix t ''+'' then drop 1 t else t);
            ds = takeWhile (\<lambda>c. dec_val c \<noteq> None) u
        in if ds = [] then None
           else (case digits_value 0 ds of
                   None \<Rightarrow> None
                 | Some n \<Rightarrow>
                     let v = (if neg then - int n else int n)
                     in if is_i64 v then Some v else None))"

section \<open>The parser\<close>

record 'd Dispenser =
  dp_Next :: "'d \<Rightarrow> bool \<times> 'd"
  dp_NextBlock :: "'d \<Rightarrow> bool \<times> 'd"
  dp_Val :: "'d \<Rightarrow> string"
  dp_NextArg :: "'d \<Rightarrow> bool \<times> 'd"
  dp_RemainingArgs :: "'d \<Rightarrow> string list \<times> 'd"
  dp_ParseDuration :: "string \<Rightarrow> int option"

datatype caddyfile_error =
    CaddyfileArgErr | CaddyfileBadDuration string | CaddyfileBadNumber string
  | CaddyfileNoProxies | CaddyfileTokenArgs | CaddyfileNoKids | CaddyfileUnknown string

text \<open>One round of the inner loop: the option at the cursor.\<close>

definition option_caddyfile :: "'d Dispenser \<Rightarrow> JITAccess_caddy \<Rightarrow> 'd \<Rightarrow> caddyfile_error + JITAccess_caddy \<times> 'd" where
  "option_caddyfile D j d =
     (let key = dp_Val D d;
          arg = (\<lambda>f. case dp_NextArg D d of
                       (False, d) \<Rightarrow> Inl CaddyfileArgErr
                     | (True, d) \<Rightarrow> bind_sum (f (dp_Val D d)) (\<lambda>j. Inr (j, d)))
      in if key = ''prefix'' then arg (\<lambda>v. Inr (j\<lparr>ca_Prefix := v\<rparr>))
         else if key = ''failure_mode'' then arg (\<lambda>v. Inr (j\<lparr>ca_FailureMode := v\<rparr>))
         else if key = ''binding'' then arg (\<lambda>v. Inr (j\<lparr>ca_Binding := v\<rparr>))
         else if key \<in> {''grant_ttl'', ''nonce_ttl'', ''enroll_ttl''} then
           arg (\<lambda>v. case dp_ParseDuration D v of
                      None \<Rightarrow> Inl (CaddyfileBadDuration key)
                    | Some dur \<Rightarrow>
                        if key = ''grant_ttl'' then Inr (j\<lparr>ca_GrantTTL := dur\<rparr>)
                        else if key = ''nonce_ttl'' then Inr (j\<lparr>ca_NonceTTL := dur\<rparr>)
                        else Inr (j\<lparr>ca_EnrollTTL := dur\<rparr>))
         else if key \<in> {''ipv6_prefix'', ''rate_limit''} then
           arg (\<lambda>v. case Sscanf_d v of
                      None \<Rightarrow> Inl (CaddyfileBadNumber key)
                    | Some n \<Rightarrow>
                        if key = ''ipv6_prefix'' then Inr (j\<lparr>ca_IPv6Prefix := n\<rparr>) else Inr (j\<lparr>ca_RateLimit := n\<rparr>))
         else if key = ''trust_forwarded'' then Inr (j\<lparr>ca_TrustForwarded := True\<rparr>, d)
         else if key = ''trusted_proxies'' then
           (case dp_RemainingArgs D d of
              (args, d) \<Rightarrow> if args = [] then Inl CaddyfileNoProxies else Inr (j\<lparr>ca_TrustedProxies := ca_TrustedProxies j @ args\<rparr>, d))
         else if key = ''token'' then
           (case dp_RemainingArgs D d of
              (args, d) \<Rightarrow>
                (case args of
                   kid # secret # label \<Rightarrow>
                     Inr (j\<lparr>ca_Tokens := ca_Tokens j @
                       [\<lparr>ct_Kid = kid, ct_Secret = secret, ct_Label = (if label \<noteq> [] then Join label '' '' else []), ct_Expires = 0\<rparr>]\<rparr>, d)
                 | _ \<Rightarrow> Inl CaddyfileTokenArgs))
         else if key = ''allow'' then
           (case dp_RemainingArgs D d of
              (args, d) \<Rightarrow> if args = [] then Inl CaddyfileNoKids else Inr (j\<lparr>ca_Allow := ca_Allow j @ args\<rparr>, d))
         else Inl (CaddyfileUnknown key))"

partial_function (option) block_caddyfile ::
  "'d Dispenser \<Rightarrow> JITAccess_caddy \<Rightarrow> 'd \<Rightarrow> (caddyfile_error + JITAccess_caddy \<times> 'd) option" where
  "block_caddyfile D j d =
     (let (more, d) = dp_NextBlock D d in
      if \<not> more then Some (Inr (j, d))
      else
        (case option_caddyfile D j d of
           Inl err \<Rightarrow> Some (Inl err)
         | Inr (j, d) \<Rightarrow> block_caddyfile D j d))"

partial_function (option) UnmarshalCaddyfile ::
  "'d Dispenser \<Rightarrow> JITAccess_caddy \<Rightarrow> 'd \<Rightarrow> (caddyfile_error + JITAccess_caddy) option" where
  "UnmarshalCaddyfile D j d =
     (let (more, d) = dp_Next D d in
      if \<not> more then Some (Inr j)
      else
          Option.bind (block_caddyfile D j d) (\<lambda>res.
            case res of
              Inl err \<Rightarrow> Some (Inl err)
            | Inr (j, d) \<Rightarrow> UnmarshalCaddyfile D j d))"

text \<open>\<^verbatim>\<open>parseCaddyfile\<close> starts from the zero value of \<^verbatim>\<open>JITAccess\<close>; the registry is a nil pointer until \<open>Provision\<close>.\<close>

definition zero_JITAccess :: JITAccess_caddy where
  "zero_JITAccess = \<lparr>ca_Prefix = [], ca_Allow = [], ca_Tokens = [], ca_GrantTTL = 0, ca_NonceTTL = 0, ca_EnrollTTL = 0,
     ca_FailureMode = [], ca_Binding = [], ca_IPv6Prefix = 0, ca_RateLimit = 0, ca_TrustForwarded = False,
     ca_TrustedProxies = [], ca_reg = NewRegistry None None, ca_trusted = []\<rparr>"

definition parseCaddyfile :: "'d Dispenser \<Rightarrow> 'd \<Rightarrow> (caddyfile_error + JITAccess_caddy) option" where
  "parseCaddyfile D d = UnmarshalCaddyfile D zero_JITAccess d"

section \<open>What a dispenser does\<close>

text \<open>Whatever the input, a call of \<^verbatim>\<open>Next\<close> or \<^verbatim>\<open>NextBlock\<close> that reports success has loaded a token, and no call brings tokens back: \<open>left d\<close> is the number
  of tokens a dispenser in the state \<open>d\<close> has not loaded yet.\<close>

definition dispenser_consumes :: "'d Dispenser \<Rightarrow> ('d \<Rightarrow> nat) \<Rightarrow> bool" where
  "dispenser_consumes D left \<longleftrightarrow>
     (\<forall>f \<in> {dp_Next D, dp_NextBlock D}. \<forall>d. case f d of (ok, d') \<Rightarrow> if ok then left d' < left d else left d' \<le> left d) \<and>
     (\<forall>d. left (snd (dp_NextArg D d)) \<le> left d \<and> left (snd (dp_RemainingArgs D d)) \<le> left d)"

lemma dispenser_consumesD:
  assumes "dispenser_consumes D left"
  shows "dp_Next D d = (True, d') \<Longrightarrow> left d' < left d"
    and "dp_NextBlock D d = (True, d') \<Longrightarrow> left d' < left d" and "dp_NextBlock D d = (b, d') \<Longrightarrow> left d' \<le> left d"
    and "dp_NextArg D d = (b, d') \<Longrightarrow> left d' \<le> left d" and "dp_RemainingArgs D d = (args, d') \<Longrightarrow> left d' \<le> left d"
proof -
  have s: "case f d of (ok, d') \<Rightarrow> if ok then left d' < left d else left d' \<le> left d" if "f \<in> {dp_Next D, dp_NextBlock D}" for f d
    using bspec [OF conjunct1 [OF assms [unfolded dispenser_consumes_def]] that] by (rule spec)
  show "dp_Next D d = (True, d') \<Longrightarrow> left d' < left d" using s [of "dp_Next D" d] by simp
  show "dp_NextBlock D d = (True, d') \<Longrightarrow> left d' < left d" and "dp_NextBlock D d = (b, d') \<Longrightarrow> left d' \<le> left d"
    using s [of "dp_NextBlock D" d] by (auto split: if_splits)
  show "dp_NextArg D d = (b, d') \<Longrightarrow> left d' \<le> left d" and "dp_RemainingArgs D d = (args, d') \<Longrightarrow> left d' \<le> left d"
    using assms unfolding dispenser_consumes_def by (metis snd_conv)+
qed

text \<open>The cursor is on a word of a line. The words \<open>args\<close> follow on that line and can be loaded one by one or all at once; after the last of them the
  dispenser is in a state with \<open>rest\<close>. Nothing is said of calls the parser does not make there.\<close>

primrec on_line :: "'d Dispenser \<Rightarrow> ('d \<Rightarrow> bool) \<Rightarrow> 'd \<Rightarrow> string list \<Rightarrow> bool" where
  "on_line D rest d [] \<longleftrightarrow> \<not> fst (dp_NextArg D d) \<and> rest d \<and> (case dp_RemainingArgs D d of (args, d') \<Rightarrow> args = [] \<and> rest d')"
| "on_line D rest d (a # as) \<longleftrightarrow>
     (case dp_NextArg D d of (ok, d') \<Rightarrow> ok \<and> dp_Val D d' = a \<and> on_line D rest d' as) \<and>
     (case dp_RemainingArgs D d of (args, d') \<Rightarrow> args = a # as \<and> rest d')"

text \<open>The lines of the block that are still to come; after the last one the block ends, and with it the input.\<close>

primrec in_block :: "'d Dispenser \<Rightarrow> (string \<times> string list) list \<Rightarrow> 'd \<Rightarrow> bool" where
  "in_block D [] d \<longleftrightarrow> (case dp_NextBlock D d of (ok, d') \<Rightarrow> \<not> ok \<and> \<not> fst (dp_Next D d'))"
| "in_block D (l # ls) d \<longleftrightarrow>
     (case dp_NextBlock D d of (ok, d') \<Rightarrow> ok \<and> dp_Val D d' = fst l \<and> on_line D (in_block D ls) d' (snd l))"

text \<open>Words after the directive on its own line: no block opens there, and the next token is the next word.\<close>

primrec after_words :: "'d Dispenser \<Rightarrow> string list \<Rightarrow> (string \<times> string list) list \<Rightarrow> 'd \<Rightarrow> bool" where
  "after_words D [] ls d \<longleftrightarrow> in_block D ls d"
| "after_words D (w # ws) ls d \<longleftrightarrow>
     (case dp_NextBlock D d of (ok, d') \<Rightarrow> \<not> ok \<and> (case dp_Next D d' of (ok', d'') \<Rightarrow> ok' \<and> dp_Val D d'' = w \<and> after_words D ws ls d''))"

text \<open>The input is the directive, the words \<open>ws\<close> on its line, and a block of the lines \<open>ls\<close>.\<close>

definition presents :: "'d Dispenser \<Rightarrow> 'd \<Rightarrow> string list \<Rightarrow> (string \<times> string list) list \<Rightarrow> bool" where
  "presents D d ws ls \<longleftrightarrow> (case dp_Next D d of (ok, d') \<Rightarrow> ok \<and> after_words D ws ls d')"

section \<open>Integers round trip\<close>

lemma digits_value_snoc:
  "digits_value acc (s @ [c]) =
     (case digits_value acc s of None \<Rightarrow> None | Some m \<Rightarrow> map_option (\<lambda>d. m * 10 + d) (dec_val c))"
  by (induction s arbitrary: acc) (auto split: option.splits)

lemma dec_val_digit: "n < 10 \<Longrightarrow> dec_val (hex_digit n) = Some n"
proof -
  assume "n < 10"
  then have "n \<in> set [0..<10]" by simp
  moreover have "\<forall>n \<in> set [0..<10]. dec_val (hex_digit n) = Some n" by code_simp
  ultimately show ?thesis by blast
qed

lemma digits_value_show: "digits_value 0 (show_base 10 n) = Some n"
proof (induction n rule: less_induct)
  case (less n)
  show ?case
  proof (cases "n < 10")
    case True
    then show ?thesis by (subst show_base.simps) (simp add: dec_val_digit)
  next
    case False
    then have "show_base 10 n = show_base 10 (n div 10) @ [hex_digit (n mod 10)]" by (subst show_base.simps) simp
    then show ?thesis using less.IH [of "n div 10"] False by (simp add: digits_value_snoc dec_val_digit)
  qed
qed

lemma show_base_digits: "c \<in> set (show_base 10 n) \<Longrightarrow> dec_val c \<noteq> None"
proof (induction n rule: less_induct)
  case (less n)
  then show ?case using less.IH [of "n div 10"] dec_val_digit [of n] dec_val_digit [of "n mod 10"]
    by (cases "n < 10") (auto simp: show_base.simps [of 10 n])
qed

lemma TrimSpaceLeft_id:
  assumes "s \<noteq> []" and "dec_val (hd s) \<noteq> None \<or> hd s = CHR ''-''"
  shows "TrimSpaceLeft s = s"
proof -
  have "\<not> HasPrefix s w" if "w \<in> set utf8_spaces" for w
  proof
    assume "HasPrefix s w"
    then have h: "hd w = hd s" using assms(1) utf8_spaces_nonempty [OF that]
      by (cases s; cases w) (auto simp: HasPrefix_def)
    have "\<forall>w \<in> set utf8_spaces. dec_val (hd w) = None \<and> hd w \<noteq> CHR ''-''" by code_simp
    then show False using that h assms(2) by auto
  qed
  then have "find (\<lambda>w. HasPrefix s w) utf8_spaces = None" by (simp add: find_None_iff)
  then show ?thesis by (subst TrimSpaceLeft.simps) simp
qed

lemma Sscanf_d_FormatInt: "is_i64 n \<Longrightarrow> Sscanf_d (FormatInt n) = Some n"
proof -
  assume n: "is_i64 n"
  have tw: "takeWhile (\<lambda>c. \<exists>d. dec_val c = Some d) (show_base 10 m) = show_base 10 m" for m
    using show_base_digits by (auto simp: takeWhile_eq_all_conv)
  have hd: "dec_val (hd (show_base 10 m)) \<noteq> None" for m using show_base_digits hd_in_set by (metis show_base_nonempty)
  have sgn: "\<not> HasPrefix (show_base 10 m) ''-'' \<and> \<not> HasPrefix (show_base 10 m) ''+''" for m
  proof -
    have "dec_val CHR ''-'' = None" "dec_val CHR ''+'' = None" by code_simp+
    then show ?thesis using hd [of m] by (cases "show_base 10 m") (auto simp: HasPrefix_def)
  qed
  show ?thesis
  proof (cases "n < 0")
    case True
    have "TrimSpaceLeft (CHR ''-'' # show_base 10 (nat (- n))) = CHR ''-'' # show_base 10 (nat (- n))"
      by (rule TrimSpaceLeft_id) simp_all
    then show ?thesis using True n
      by (simp add: Sscanf_d_def FormatInt_def HasPrefix_def tw digits_value_show Let_def)
  next
    case False
    have "TrimSpaceLeft (show_base 10 (nat n)) = show_base 10 (nat n)" by (rule TrimSpaceLeft_id) (use hd in simp_all)
    then show ?thesis using False n sgn by (simp add: Sscanf_d_def FormatInt_def tw digits_value_show Let_def)
  qed
qed

section \<open>The parser returns\<close>

lemma option_caddyfile_le:
  assumes "dispenser_consumes D left" and "option_caddyfile D j d = Inr (j', d')"
  shows "left d' \<le> left d"
proof -
  obtain b d1 where na: "dp_NextArg D d = (b, d1)" by fastforce
  obtain args d2 where ra: "dp_RemainingArgs D d = (args, d2)" by fastforce
  have "d' = d \<or> d' = d1 \<or> d' = d2"
    using assms(2) na ra
    by (auto simp: option_caddyfile_def Let_def bind_sum_Inr_iff split: if_splits bool.splits list.splits)
  then show ?thesis using dispenser_consumesD(4,5) [OF assms(1)] na ra by blast
qed

lemma block_caddyfile_returns:
  assumes "dispenser_consumes D left"
  shows "\<exists>res. block_caddyfile D j d = Some res \<and> (\<forall>j' d'. res = Inr (j', d') \<longrightarrow> left d' \<le> left d)"
proof (induction "left d" arbitrary: j d rule: less_induct)
  case less
  note consumes = dispenser_consumesD [OF assms]
  obtain more d1 where nb: "dp_NextBlock D d = (more, d1)" by fastforce
  show ?case
  proof (cases more)
    case False
    then show ?thesis using nb consumes(3) [OF nb] by (subst block_caddyfile.simps) simp
  next
    case True
    then have lt: "left d1 < left d" using nb consumes(2) by simp
    show ?thesis
    proof (cases "option_caddyfile D j d1")
      case (Inl err)
      then show ?thesis using nb True by (subst block_caddyfile.simps) simp
    next
      case (Inr jd)
      obtain j2 d2 where jd: "jd = (j2, d2)" by (cases jd)
      have lt2: "left d2 < left d" using option_caddyfile_le [OF assms] Inr jd lt by fastforce
      have eq: "block_caddyfile D j d = block_caddyfile D j2 d2" using nb True Inr jd by (subst block_caddyfile.simps) simp
      obtain res where "block_caddyfile D j2 d2 = Some res" "\<forall>j' d'. res = Inr (j', d') \<longrightarrow> left d' \<le> left d2"
        using less.hyps [OF lt2] by blast
      then show ?thesis using eq lt2 by (intro exI [of _ res]) fastforce
    qed
  qed
qed

lemma UnmarshalCaddyfile_returns:
  assumes "dispenser_consumes D left"
  shows "\<exists>res. UnmarshalCaddyfile D j d = Some res"
proof (induction "left d" arbitrary: j d rule: less_induct)
  case less
  obtain more d1 where n: "dp_Next D d = (more, d1)" by fastforce
  obtain res where r: "block_caddyfile D j d1 = Some res" and le: "\<And>j' d'. res = Inr (j', d') \<Longrightarrow> left d' \<le> left d1"
    using block_caddyfile_returns [OF assms] by blast
  have "\<exists>res'. UnmarshalCaddyfile D j' d' = Some res'" if "more" "res = Inr (j', d')" for j' d'
    using less.hyps le [OF that(2)] dispenser_consumesD(1) [OF assms] n that(1) by fastforce
  then show ?case using n r by (subst UnmarshalCaddyfile.simps) (auto split: sum.splits)
qed

section \<open>Options and their lines\<close>

datatype site_option =
    OptPrefix string | OptFailureMode string | OptBinding string
  | OptGrantTTL string | OptNonceTTL string | OptEnrollTTL string
  | OptIPv6Prefix int | OptRateLimit int | OptTrustForwarded
  | OptTrustedProxies "string list" | OptToken string string "string list" | OptAllow "string list"

fun option_line :: "site_option \<Rightarrow> string \<times> string list" where
  "option_line (OptPrefix v) = (''prefix'', [v])"
| "option_line (OptFailureMode v) = (''failure_mode'', [v])"
| "option_line (OptBinding v) = (''binding'', [v])"
| "option_line (OptGrantTTL v) = (''grant_ttl'', [v])"
| "option_line (OptNonceTTL v) = (''nonce_ttl'', [v])"
| "option_line (OptEnrollTTL v) = (''enroll_ttl'', [v])"
| "option_line (OptIPv6Prefix n) = (''ipv6_prefix'', [FormatInt n])"
| "option_line (OptRateLimit n) = (''rate_limit'', [FormatInt n])"
| "option_line OptTrustForwarded = (''trust_forwarded'', [])"
| "option_line (OptTrustedProxies ps) = (''trusted_proxies'', ps)"
| "option_line (OptToken kid secret label) = (''token'', kid # secret # label)"
| "option_line (OptAllow kids) = (''allow'', kids)"

fun option_valid :: "(string \<Rightarrow> int option) \<Rightarrow> site_option \<Rightarrow> bool" where
  "option_valid pd (OptGrantTTL v) \<longleftrightarrow> pd v \<noteq> None"
| "option_valid pd (OptNonceTTL v) \<longleftrightarrow> pd v \<noteq> None"
| "option_valid pd (OptEnrollTTL v) \<longleftrightarrow> pd v \<noteq> None"
| "option_valid pd (OptIPv6Prefix n) \<longleftrightarrow> is_i64 n"
| "option_valid pd (OptRateLimit n) \<longleftrightarrow> is_i64 n"
| "option_valid pd (OptTrustedProxies ps) \<longleftrightarrow> ps \<noteq> []"
| "option_valid pd (OptAllow kids) \<longleftrightarrow> kids \<noteq> []"
| "option_valid pd _ \<longleftrightarrow> True"

fun set_option :: "(string \<Rightarrow> int option) \<Rightarrow> site_option \<Rightarrow> JITAccess_caddy \<Rightarrow> JITAccess_caddy" where
  "set_option pd (OptPrefix v) j = j\<lparr>ca_Prefix := v\<rparr>"
| "set_option pd (OptFailureMode v) j = j\<lparr>ca_FailureMode := v\<rparr>"
| "set_option pd (OptBinding v) j = j\<lparr>ca_Binding := v\<rparr>"
| "set_option pd (OptGrantTTL v) j = j\<lparr>ca_GrantTTL := the (pd v)\<rparr>"
| "set_option pd (OptNonceTTL v) j = j\<lparr>ca_NonceTTL := the (pd v)\<rparr>"
| "set_option pd (OptEnrollTTL v) j = j\<lparr>ca_EnrollTTL := the (pd v)\<rparr>"
| "set_option pd (OptIPv6Prefix n) j = j\<lparr>ca_IPv6Prefix := n\<rparr>"
| "set_option pd (OptRateLimit n) j = j\<lparr>ca_RateLimit := n\<rparr>"
| "set_option pd OptTrustForwarded j = j\<lparr>ca_TrustForwarded := True\<rparr>"
| "set_option pd (OptTrustedProxies ps) j = j\<lparr>ca_TrustedProxies := ca_TrustedProxies j @ ps\<rparr>"
| "set_option pd (OptToken kid secret label) j =
     j\<lparr>ca_Tokens := ca_Tokens j @ [\<lparr>ct_Kid = kid, ct_Secret = secret, ct_Label = Join label '' '', ct_Expires = 0\<rparr>]\<rparr>"
| "set_option pd (OptAllow kids) j = j\<lparr>ca_Allow := ca_Allow j @ kids\<rparr>"

text \<open>An option the cursor is on is read with its arguments, to the end of its line.\<close>

lemma option_caddyfile_reads:
  assumes "dp_Val D d = fst (option_line opt)" and "on_line D rest d (snd (option_line opt))" and "option_valid (dp_ParseDuration D) opt"
  shows "\<exists>d'. option_caddyfile D j d = Inr (set_option (dp_ParseDuration D) opt j, d') \<and> rest d'"
proof -
  obtain b d1 where na: "dp_NextArg D d = (b, d1)" by fastforce
  obtain args d2 where ra: "dp_RemainingArgs D d = (args, d2)" by fastforce
  have all: "args = snd (option_line opt) \<and> rest d2" using assms(2) ra by (cases "snd (option_line opt)") auto
  have one: "b \<and> dp_Val D d1 = a \<and> rest d1" if "snd (option_line opt) = [a]" for a using assms(2) na that by auto
  show ?thesis
    using assms na ra all one by (cases opt) (auto simp: option_caddyfile_def Let_def Sscanf_d_FormatInt)
qed

lemma block_caddyfile_reads:
  "in_block D (map option_line opts @ ls) d \<Longrightarrow> list_all (option_valid (dp_ParseDuration D)) opts \<Longrightarrow>
    \<exists>d'. block_caddyfile D j d = block_caddyfile D (fold (set_option (dp_ParseDuration D)) opts j) d' \<and> in_block D ls d'"
proof (induction opts arbitrary: j d)
  case (Cons opt opts)
  obtain d1 where nb: "dp_NextBlock D d = (True, d1)" and v: "dp_Val D d1 = fst (option_line opt)"
    and l: "on_line D (in_block D (map option_line opts @ ls)) d1 (snd (option_line opt))"
    using Cons.prems(1) by (auto split: prod.splits)
  obtain d2 where r: "option_caddyfile D j d1 = Inr (set_option (dp_ParseDuration D) opt j, d2)" and d2: "in_block D (map option_line opts @ ls) d2"
    using option_caddyfile_reads [OF v l] Cons.prems(2) by auto
  have "block_caddyfile D j d = block_caddyfile D (set_option (dp_ParseDuration D) opt j) d2"
    using nb r by (subst block_caddyfile.simps) simp
  then show ?case using Cons.IH [OF d2] Cons.prems(2) by simp
qed auto

lemma block_caddyfile_end:
  assumes "in_block D [] d"
  shows "\<exists>d'. block_caddyfile D j d = Some (Inr (j, d')) \<and> UnmarshalCaddyfile D j d' = Some (Inr j)"
proof -
  obtain d1 d2 where "dp_NextBlock D d = (False, d1)" and "dp_Next D d1 = (False, d2)"
    using assms by (auto split: prod.splits) (metis prod.collapse)
  then show ?thesis
    using block_caddyfile.simps [of D j d] UnmarshalCaddyfile.simps [of D j d1] by (intro exI [of _ d1]) simp
qed

text \<open>The words that start an option.\<close>

definition option_names :: "string set" where
  "option_names = {''prefix'', ''failure_mode'', ''binding'', ''grant_ttl'', ''nonce_ttl'', ''enroll_ttl'', ''ipv6_prefix'', ''rate_limit'',
     ''trust_forwarded'', ''trusted_proxies'', ''token'', ''allow''}"

lemma block_caddyfile_unknown:
  assumes "in_block D ((w, ws) # ls) d" and "w \<notin> option_names"
  shows "block_caddyfile D j d = Some (Inl (CaddyfileUnknown w))"
proof -
  obtain d1 where nb: "dp_NextBlock D d = (True, d1)" and v: "dp_Val D d1 = w" using assms(1) by (auto split: prod.splits)
  then have "option_caddyfile D j d1 = Inl (CaddyfileUnknown w)" using assms(2) by (simp add: option_caddyfile_def option_names_def)
  then show ?thesis using nb by (subst block_caddyfile.simps) simp
qed

text \<open>The rest of the parser, once the directive is loaded.\<close>

definition parse_rest :: "'d Dispenser \<Rightarrow> JITAccess_caddy \<Rightarrow> 'd \<Rightarrow> (caddyfile_error + JITAccess_caddy) option" where
  "parse_rest D j d = Option.bind (block_caddyfile D j d) (\<lambda>res.
     case res of Inl err \<Rightarrow> Some (Inl err) | Inr (j, d) \<Rightarrow> UnmarshalCaddyfile D j d)"

lemma UnmarshalCaddyfile_Next: "dp_Next D d = (True, d') \<Longrightarrow> UnmarshalCaddyfile D j d = parse_rest D j d'"
  by (subst UnmarshalCaddyfile.simps) (simp add: parse_rest_def)

text \<open>Words on the line of the directive are skipped.\<close>

lemma parse_rest_words: "after_words D ws ls d \<Longrightarrow> \<exists>d'. parse_rest D j d = parse_rest D j d' \<and> in_block D ls d'"
proof (induction ws arbitrary: d)
  case (Cons w ws)
  obtain d1 d2 where "dp_NextBlock D d = (False, d1)" and n: "dp_Next D d1 = (True, d2)" and d2: "after_words D ws ls d2"
    using Cons.prems by (auto split: prod.splits)
  then have "parse_rest D j d = parse_rest D j d2"
    using block_caddyfile.simps [of D j d] UnmarshalCaddyfile_Next [OF n] by (simp add: parse_rest_def)
  then show ?case using Cons.IH [OF d2] by simp
qed auto

section \<open>Properties\<close>

text \<open>A dispenser over tokens in memory, each with the number of its line, that keeps to the documentation: an argument is a token on the line of the
  cursor other than an opening brace; a block opens with a brace at the end of the line and ends with one at the start of a line, where the cursor
  stays; before the first token, the next one counts as being on the same line.\<close>

record Stream =
  st_tokens :: "(nat \<times> string) list"
  st_line :: "nat option"
  st_val :: string
  st_nesting :: nat

definition stream_Next :: "Stream \<Rightarrow> bool \<times> Stream" where
  "stream_Next s = (case st_tokens s of [] \<Rightarrow> (False, s) | (l, w) # ts \<Rightarrow> (True, s\<lparr>st_tokens := ts, st_line := Some l, st_val := w\<rparr>))"

definition same_line :: "Stream \<Rightarrow> bool" where
  "same_line s = (case st_tokens s of [] \<Rightarrow> False | (l, w) # ts \<Rightarrow> st_line s = None \<or> st_line s = Some l)"

definition stream_NextArg :: "Stream \<Rightarrow> bool \<times> Stream" where
  "stream_NextArg s = (if same_line s \<and> snd (hd (st_tokens s)) \<noteq> ''{'' then stream_Next s else (False, s))"

definition stream_NextBlock :: "Stream \<Rightarrow> bool \<times> Stream" where
  "stream_NextBlock s =
     (if 0 < st_nesting s then
        (case stream_Next s of
           (False, s) \<Rightarrow> (False, s)
         | (True, s) \<Rightarrow>
             let n = (if same_line s then st_nesting s
                      else if st_val s = ''}'' then st_nesting s - 1 else if st_val s = ''{'' then st_nesting s + 1 else st_nesting s)
             in (0 < n, s\<lparr>st_nesting := n\<rparr>))
      else if \<not> same_line s \<or> snd (hd (st_tokens s)) \<noteq> ''{'' then (False, s)
      else
        let s = snd (stream_Next (snd (stream_Next s)))
        in if st_val s = ''}'' then (False, s) else (True, s\<lparr>st_nesting := 1\<rparr>))"

definition stream_words :: "Stream \<Rightarrow> (nat \<times> string) list" where
  "stream_words s = takeWhile (\<lambda>(l, w). (st_line s = None \<or> st_line s = Some l) \<and> w \<noteq> ''{'') (st_tokens s)"

definition stream_RemainingArgs :: "Stream \<Rightarrow> string list \<times> Stream" where
  "stream_RemainingArgs s =
     (let args = stream_words s
      in (map snd args,
          if args = [] then s
          else s\<lparr>st_tokens := drop (length args) (st_tokens s), st_line := Some (fst (last args)), st_val := snd (last args)\<rparr>))"

definition stream_dispenser :: "Stream Dispenser" where
  "stream_dispenser =
     \<lparr>dp_Next = stream_Next, dp_NextBlock = stream_NextBlock, dp_Val = st_val, dp_NextArg = stream_NextArg,
      dp_RemainingArgs = stream_RemainingArgs,
      dp_ParseDuration = (\<lambda>s. if s = ''60s'' then Some 60000000000 else None)\<rparr>"

definition stream_of :: "(nat \<times> string) list \<Rightarrow> Stream" where
  "stream_of ts = \<lparr>st_tokens = ts, st_line = None, st_val = [], st_nesting = 0\<rparr>"

lemma stream_consumes: "dispenser_consumes stream_dispenser (\<lambda>s. length (st_tokens s))"
  unfolding dispenser_consumes_def stream_dispenser_def
  by (auto simp: stream_Next_def stream_NextArg_def stream_NextBlock_def stream_RemainingArgs_def same_line_def Let_def split: list.splits)

text \<open>C28: the parser of a \<^verbatim>\<open>jit_access\<close> directive always returns. Whatever the tokens are, from whatever state the dispenser is in, it ends with options
  or with an error, for every dispenser whose successful calls of \<^verbatim>\<open>Next\<close> and \<^verbatim>\<open>NextBlock\<close> load a token and that never goes back.\<close>

theorem caddyfile_terminates:
  assumes "dispenser_consumes D left"
  shows "\<exists>res. parseCaddyfile D d = Some res"
  using UnmarshalCaddyfile_returns [OF assms] by (simp add: parseCaddyfile_def)

theorem caddyfile_terminates_witness:
  "\<exists>res. parseCaddyfile stream_dispenser (stream_of [(1, ''jit_access''), (1, ''x''), (1, ''{''), (2, ''prefix''), (3, ''{''), (4, ''}''), (5, ''}'')]) = Some res"
  by (rule caddyfile_terminates [OF stream_consumes])

text \<open>C27: what a block says is what the site gets. Where the dispenser presents the directive with a block that lists options, one per line, the parser returns
  exactly these options, in order, the lists accumulating and the last of any other option winning; a line that starts with a word the code does not
  know is an error that names it; and words on the line of the directive itself are skipped.\<close>

theorem caddyfile_roundtrip:
  assumes "presents D d ws (map option_line opts @ ls)" and "list_all (option_valid (dp_ParseDuration D)) opts"
  shows "(ls = [] \<longrightarrow> parseCaddyfile D d = Some (Inr (fold (set_option (dp_ParseDuration D)) opts zero_JITAccess))) \<and>
    (\<forall>w as ls'. ls = (w, as) # ls' \<and> w \<notin> option_names \<longrightarrow> parseCaddyfile D d = Some (Inl (CaddyfileUnknown w)))"
proof -
  let ?j = "fold (set_option (dp_ParseDuration D)) opts zero_JITAccess"
  obtain d1 where n: "dp_Next D d = (True, d1)" and d1: "after_words D ws (map option_line opts @ ls) d1"
    using assms(1) by (auto simp: presents_def split: prod.splits)
  obtain d2 where p: "parseCaddyfile D d = parse_rest D zero_JITAccess d2" and d2: "in_block D (map option_line opts @ ls) d2"
    using parse_rest_words [OF d1] UnmarshalCaddyfile_Next [OF n] by (metis parseCaddyfile_def)
  obtain d3 where r: "block_caddyfile D zero_JITAccess d2 = block_caddyfile D ?j d3" and d3: "in_block D ls d3"
    using block_caddyfile_reads [OF d2 assms(2)] by blast
  have "parseCaddyfile D d = Some (Inr ?j)" if "ls = []"
    using block_caddyfile_end [of D d3 ?j] d3 that p r by (auto simp: parse_rest_def)
  moreover have "parseCaddyfile D d = Some (Inl (CaddyfileUnknown w))" if "ls = (w, as) # ls'" "w \<notin> option_names" for w as ls'
    using block_caddyfile_unknown [of D w as ls' d3 ?j] d3 that p r by (simp add: parse_rest_def)
  ultimately show ?thesis by blast
qed

text \<open>A block of four lines, with an unknown option at the end of another one.\<close>

definition sample_tokens :: "(nat \<times> string) list" where
  "sample_tokens = [(1, ''jit_access''), (1, ''{''), (2, ''nonce_ttl''), (2, ''60s''), (3, ''rate_limit''), (3, ''20''),
     (4, ''token''), (4, ''laptop''), (4, ''c2VjcmV0''), (4, ''my''), (4, ''laptop''), (5, ''allow''), (5, ''*'')]"

lemma sample_presented:
  "presents stream_dispenser (stream_of (sample_tokens @ [(6, ''}'')])) []
     [(''nonce_ttl'', [''60s'']), (''rate_limit'', [''20'']), (''token'', [''laptop'', ''c2VjcmV0'', ''my'', ''laptop'']), (''allow'', [''*''])]"
  "presents stream_dispenser (stream_of (sample_tokens @ [(6, ''typo''), (7, ''}'')])) []
     [(''nonce_ttl'', [''60s'']), (''rate_limit'', [''20'']), (''token'', [''laptop'', ''c2VjcmV0'', ''my'', ''laptop'']), (''allow'', [''*'']), (''typo'', [])]"
  by code_simp+

theorem caddyfile_roundtrip_witness:
  "parseCaddyfile stream_dispenser (stream_of (sample_tokens @ [(6, ''}'')])) =
     Some (Inr (zero_JITAccess\<lparr>ca_NonceTTL := 60000000000, ca_RateLimit := 20,
       ca_Tokens := [\<lparr>ct_Kid = ''laptop'', ct_Secret = ''c2VjcmV0'', ct_Label = ''my laptop'', ct_Expires = 0\<rparr>], ca_Allow := [''*'']\<rparr>)) \<and>
   parseCaddyfile stream_dispenser (stream_of (sample_tokens @ [(6, ''typo''), (7, ''}'')])) = Some (Inl (CaddyfileUnknown ''typo''))"
proof -
  let ?o = "[OptNonceTTL ''60s'', OptRateLimit 20, OptToken ''laptop'' ''c2VjcmV0'' [''my'', ''laptop''], OptAllow [''*'']]"
  have f: "FormatInt 20 = ''20''" by code_simp
  have pd: "dp_ParseDuration stream_dispenser ''60s'' = Some 60000000000" by (simp add: stream_dispenser_def)
  have v: "list_all (option_valid (dp_ParseDuration stream_dispenser)) ?o" by (simp add: pd is_i64_def)
  show ?thesis
    using caddyfile_roundtrip [OF _ v, where ws = "[]" and ls = "[]"] caddyfile_roundtrip [OF _ v, where ws = "[]" and ls = "[(''typo'', [])]"]
      sample_presented by (simp add: f pd zero_JITAccess_def option_names_def)
qed

end
