(* ===== verification/ConcurrentGate.thy ===== *)
theory ConcurrentGate
  imports Programs Gate
begin

text \<open>
  What the programs of a middleware promise, and what follows under every interleaving. \<open>gate_effect\<close> lists what a goroutine can do to the shared state in one
  atomic action, with all that is known at that moment; locale \<open>gate_programs\<close> is the contract: no action does anything else, a request is passed on only for
  a grant found in the table, a knock is accepted only after its nonce was claimed, a secret is released only after a code was consumed. The locale
  gives the invariants and the bounds of \<open>Programs\<close> once for both engines.
\<close>

section \<open>Jobs\<close>

text \<open>A request at whatever handler the router then has, or an enrollment code minted out of band.\<close>

datatype 'h gate_job = Serve Env 'h Request | MintCode draw string string "string list" int

type_synonym gate_prog = "(Shared, outcome) prog"
type_synonym 'h server = "Env \<Rightarrow> 'h \<Rightarrow> Request \<Rightarrow> gate_prog"
type_synonym code_minter = "draw \<Rightarrow> string \<Rightarrow> string \<Rightarrow> string list \<Rightarrow> int \<Rightarrow> gate_prog"

primrec gate_code :: "'h server \<Rightarrow> code_minter \<Rightarrow> 'h gate_job \<Rightarrow> gate_prog" where
  "gate_code srv mnt (Serve env h r) = srv env h r"
| "gate_code srv mnt (MintCode d c kid origins exp) = mnt d c kid origins exp"

abbreviation gate_execution :: "'h server \<Rightarrow> code_minter \<Rightarrow> Shared \<Rightarrow> (Shared, outcome, 'h gate_job) system list \<Rightarrow> bool" where
  "gate_execution srv mnt \<equiv> grun (gate_code srv mnt) (\<lambda>sh j. True)"

abbreviation accepted :: "outcome \<Rightarrow> bool" where
  "accepted out \<equiv> \<exists>resp. out = Answer resp \<and> rs_Status resp = 204"

section \<open>What a job can do\<close>

text \<open>The initialization is over, with this nonce key.\<close>

definition keyed :: "bytes \<Rightarrow> Shared \<Rightarrow> bool" where
  "keyed key sh \<longleftrightarrow> sh_once sh \<and> sh_err sh = None \<and> sh_nonceKey sh = key"

text \<open>A request to the respond endpoint whose knock checks out under the key, but for the nonce being unused.\<close>

definition gate_knock :: "bytes \<Rightarrow> Env \<Rightarrow> Policy \<Rightarrow> string \<Rightarrow> Request \<Rightarrow> respondBody \<Rightarrow> bytes \<Rightarrow> bytes \<Rightarrow> Token \<Rightarrow> bool" where
  "gate_knock key env p ip r body nonce rnd t \<longleftrightarrow>
     rq_Path r = gp_Prefix p @ ''/respond'' \<and> rq_Method r = ''POST'' \<and> CanonServerName (rq_Host r) \<noteq> [] \<and>
     env_respond env 4096 (rq_Body r) = Some body \<and> B64uDecode (rb_Nonce body) = Inr nonce \<and>
     VerifyNonce key nonce (CanonServerName (rq_Host r)) ip (env_now env 2) (gp_NonceTTL p) (gp_IPv6Prefix p) = (True, rnd) \<and>
     Lookup (Some (gp_reg p)) (rb_Kid body) = Some t \<and> \<not> IsExpired (Some t) (env_now env 2) \<and>
     AllowedForService (Some (gp_reg p)) (rb_Kid body) ''*'' \<and>
     (\<exists>tag. B64uDecode (rb_Proof body) = Inr tag \<and> VerifyProof (tok_Secret t) (CanonServerName (rq_Host r)) (rb_Kid body) nonce tag)"

text \<open>The argument before the job tells whether the stores may be swept.\<close>

inductive gate_effect :: "('h \<Rightarrow> Request \<Rightarrow> string option) \<Rightarrow> ('h \<Rightarrow> Policy) \<Rightarrow> bytes \<Rightarrow> bool \<Rightarrow> 'h gate_job \<Rightarrow> Shared \<Rightarrow> Shared \<Rightarrow> bool"
  for client policy key where
  reads: "gate_effect client policy key swept j sh sh"
| stamps: "gate_effect client policy key swept (Serve env h r) sh (sh\<lparr>sh_lastSweep := env_now env 0\<rparr>)"
| sweeps_grants: "gate_effect client policy key True (Serve env h r) sh (sh\<lparr>sh_grants := snd (Sweep (sh_grants sh) (env_now env 0))\<rparr>)"
| sweeps_nonces: "gate_effect client policy key True (Serve env h r) sh (sh\<lparr>sh_nonces := snd (Sweep_ns (sh_nonces sh) (env_now env 0))\<rparr>)"
| sweeps_codes: "gate_effect client policy key True (Serve env h r) sh (sh\<lparr>sh_codes := snd (Sweep_es (sh_codes sh) (env_now env 0))\<rparr>)"
| sweeps_rl: "gate_effect client policy key True (Serve env h r) sh (sh\<lparr>sh_rl := snd (Sweep_rl (sh_rl sh) (env_now env 0))\<rparr>)"
| throttles: "gate_effect client policy key swept (Serve env h r) sh (sh\<lparr>sh_rl := snd (Allow (sh_rl sh) k n now)\<rparr>)"
| claims: "client h r = Some ip \<Longrightarrow> gate_knock key env (policy h) ip r body nonce rnd t \<Longrightarrow>
    gate_effect client policy key swept (Serve env h r) sh (gate_spent env (policy h) rnd sh)"
| files: "client h r = Some ip \<Longrightarrow> gate_knock key env (policy h) ip r body nonce rnd t \<Longrightarrow>
    gate_grant env (policy h) (CanonServerName (rq_Host r)) ip (rb_Kid body) t g \<Longrightarrow>
    gate_effect client policy key swept (Serve env h r) sh (sh\<lparr>sh_grants := Put (sh_grants sh) (Some g) [oldCookieHash r]\<rparr>)"
| consumes: "gate_effect client policy key swept (Serve env h r) sh (gate_consumed env c sh)"
| codes: "gate_effect client policy key swept (MintCode d c kid origins exp) sh (sh\<lparr>sh_codes := Put_es (sh_codes sh) c ec\<rparr>)"

lemma keyed_effect: "gate_effect client policy key swept j sh sh' \<Longrightarrow> keyed key sh \<Longrightarrow> keyed key sh'"
  by (induction rule: gate_effect.induct) (simp_all add: keyed_def)

section \<open>The contract\<close>

abbreviation code_absent :: "string \<Rightarrow> Shared \<Rightarrow> bool" where
  "code_absent c sh \<equiv> mget (es_codes (sh_codes sh)) c = None"

locale gate_programs =
  fixes serve :: "'h server" and mint :: code_minter and client :: "'h \<Rightarrow> Request \<Rightarrow> string option" and policy :: "'h \<Rightarrow> Policy"
  assumes serve_effects: "guarantees (keyed key) (gate_effect client policy key True (Serve env h r)) (serve env h r)"
    and late_effects: "until \<le> env_now env 0 \<Longrightarrow> guarantees (keyed key) (gate_effect client policy key False (Serve env h r))
      (within (\<lambda>sh. sh_lastSweep sh < until) (serve env h r))"
    and mint_effects: "guarantees (keyed key) (gate_effect client policy key swept (MintCode d c kid origins exp)) (mint d c kid origins exp)"
    and mint_once: "brings_once (keyed key) (code_absent c) (mint d c kid origins exp)"
    and serve_passes: "after (serve env h r) ss = Reply Next \<Longrightarrow>
      \<exists>sh ip g. sh \<in> set ss \<and> client h r = Some ip \<and>
        IsAllowed (sh_grants sh) (CanonServerName (rq_Host r)) ip (Some (gp_reg (policy h))) (env_now env 1) (grant_cookie r) = Some g \<and>
        (gp_Binding (policy h) = BindingIPCookie \<longrightarrow> g_Binding g = BindingIPCookie)"
    and respond_claims: "rq_Path r = gp_Prefix (policy h) @ ''/respond'' \<Longrightarrow>
      takes accepted (keyed key)
        (\<lambda>sh sh'. \<exists>ip body nonce rnd t. gate_knock key env (policy h) ip r body nonce rnd t \<and>
           fst (Claim (sh_nonces sh) (B64u rnd) (env_now env 2) (gp_NonceTTL (policy h))) \<and> sh' = gate_spent env (policy h) rnd sh)
        (serve env h r)"
    and enroll_consumes: "rq_Path r = gp_Prefix (policy h) @ ''/enroll'' \<Longrightarrow>
      takes accepted (keyed key)
        (\<lambda>sh sh'. \<exists>body ec. env_enroll env 4096 (rq_Body r) = Some body \<and>
           fst (Consume (sh_codes sh) (eb_Code body) (env_now env 3)) = Some ec \<and> sh' = gate_consumed env (eb_Code body) sh)
        (serve env h r)"
begin

lemma job_effects: "guarantees (keyed key) (gate_effect client policy key True j) (gate_code serve mint j)"
  by (cases j) (simp_all add: serve_effects mint_effects)

end

section \<open>The invariant\<close>

text \<open>All that \<open>shared_inv\<close> asks for beyond the initialization.\<close>

definition tables_ok :: "Shared \<Rightarrow> bool" where
  "tables_ok sh \<longleftrightarrow> grant_inv (sh_grants sh) \<and> rl_inv (sh_rl sh)"

lemma shared_inv_keyed: "shared_inv sh \<longleftrightarrow> length (sh_nonceKey sh) = 32 \<and> keyed (sh_nonceKey sh) sh \<and> tables_ok sh"
  by (auto simp: shared_inv_def keyed_def tables_ok_def)

lemma tables_ok_effect: "gate_effect client policy key swept j sh sh' \<Longrightarrow> tables_ok sh \<Longrightarrow> tables_ok sh'"
  by (induction rule: gate_effect.induct)
    (simp_all add: tables_ok_def grant_inv_Sweep rl_inv_Sweep rl_inv_Allow grant_inv_Put)

sublocale gate_programs \<subseteq> inv: rely "gate_code serve mint" "\<lambda>sh j. True" "keyed key" "gate_effect client policy key True" "\<lambda>j. True" tables_ok for key
  by unfold_locales (use job_effects keyed_effect tables_ok_effect in blast)+

context gate_programs
begin

lemma shared_inv_kept:
  assumes "gate_execution serve mint sh0 tr" and "shared_inv sh0" and "sys \<in> set tr"
  shows "shared_inv (fst sys)" and "sh_nonceKey (fst sys) = sh_nonceKey sh0"
proof -
  obtain tr' where tr': "gate_execution serve mint sh0 tr'" "last tr' = sys" using execution_prefix [OF assms(1,3)] by blast
  have "inv.good (sh_nonceKey sh0) sh0" using assms(2) by (simp add: inv.good_def shared_inv_keyed)
  then have "inv.kept (sh_nonceKey sh0) sys" using inv.execution_kept [OF tr'(1)] tr'(2) by simp
  then show "shared_inv (fst sys)" and "sh_nonceKey (fst sys) = sh_nonceKey sh0"
    using assms(2) by (auto simp: inv.kept_def inv.good_def shared_inv_keyed keyed_def)
qed

end

section \<open>Where grants come from\<close>

text \<open>The request a grant comes from: a knock that checked out under the key and the options of the handler it went to.\<close>

fun knocked_for :: "('h \<Rightarrow> Request \<Rightarrow> string option) \<Rightarrow> ('h \<Rightarrow> Policy) \<Rightarrow> bytes \<Rightarrow> Grant \<Rightarrow> 'h gate_job \<Rightarrow> bool" where
  "knocked_for client policy key g (Serve env h r) \<longleftrightarrow>
     (\<exists>ip body nonce rnd t. client h r = Some ip \<and> gate_knock key env (policy h) ip r body nonce rnd t \<and>
        gate_grant env (policy h) (CanonServerName (rq_Host r)) ip (rb_Kid body) t g)"
| "knocked_for client policy key g (MintCode d c kid origins exp) \<longleftrightarrow> False"

lemma knocked_for_by:
  "(\<exists>j \<in> S. knocked_for client policy key g j) \<longleftrightarrow>
     (\<exists>env h r ip body nonce rnd t. Serve env h r \<in> S \<and> client h r = Some ip \<and> gate_knock key env (policy h) ip r body nonce rnd t \<and>
        gate_grant env (policy h) (CanonServerName (rq_Host r)) ip (rb_Kid body) t g)" (is "?L \<longleftrightarrow> ?R")
proof
  assume ?L
  then obtain j where j: "j \<in> S" "knocked_for client policy key g j" by blast
  then show ?R by (cases j) (simp_all, blast)
next
  assume ?R
  then show ?L by (meson knocked_for.simps(1))
qed

definition all_knocked :: "('h \<Rightarrow> Request \<Rightarrow> string option) \<Rightarrow> ('h \<Rightarrow> Policy) \<Rightarrow> bytes \<Rightarrow> 'h gate_job set \<Rightarrow> Shared \<Rightarrow> bool" where
  "all_knocked client policy key S sh \<longleftrightarrow> grant_inv (sh_grants sh) \<and>
     (\<forall>k g. abs_grants (sh_grants sh) k = Some g \<longrightarrow> (\<exists>j \<in> S. knocked_for client policy key g j))"

lemma all_knocked_effect:
  assumes "gate_effect client policy key swept j sh sh'" and "j \<in> S" and "all_knocked client policy key S sh"
  shows "all_knocked client policy key S sh'"
  using assms
proof (induction rule: gate_effect.induct)
  case (sweeps_grants env h r sh)
  then have gi: "grant_inv (sh_grants sh)" by (simp add: all_knocked_def)
  show ?case using sweeps_grants abs_sub_revoke(3) [OF gi] grant_inv_Sweep [OF gi] unfolding all_knocked_def by simp blast
next
  case (files h r ip env body nonce rnd t g sh)
  then have "\<exists>j \<in> S. knocked_for client policy key g j" by (intro bexI [of _ "Serve env h r"]) auto
  then show ?case using files.prems(2) by (simp add: all_knocked_def grant_inv_Put abs_Put)
qed (simp_all add: all_knocked_def)

sublocale gate_programs \<subseteq> origin: rely "gate_code serve mint" "\<lambda>sh j. True" "keyed key" "gate_effect client policy key True" "\<lambda>j. j \<in> S"
  "all_knocked client policy key S" for key S
  by unfold_locales (use job_effects keyed_effect all_knocked_effect in blast)+

context gate_programs
begin

lemma grants_knocked:
  assumes "gate_execution serve mint sh0 tr" and "shared_inv sh0" and "\<And>k. abs_grants (sh_grants sh0) k = None"
    and "sys \<in> set tr" and "abs_grants (sh_grants (fst sys)) k = Some g"
  shows "\<exists>j \<in> jobs_of sys. knocked_for client policy (sh_nonceKey sh0) g j"
proof -
  obtain tr' where tr': "gate_execution serve mint sh0 tr'" "last tr' = sys" using execution_prefix [OF assms(1,4)] by blast
  have "origin.good (sh_nonceKey sh0) (jobs_of sys) sh0"
    using assms(2,3) unfolding origin.good_def by (simp add: all_knocked_def shared_inv_keyed tables_ok_def)
  then have "origin.kept (sh_nonceKey sh0) (jobs_of sys) sys" using origin.execution_kept [OF tr'(1)] tr'(2) by simp
  then show ?thesis using assms(5) by (simp add: origin.kept_def origin.good_def all_knocked_def)
qed

text \<open>A request that had not arrived at the moment \<open>n\<close> is passed on for a grant that was in the table at a later moment, for which a job that had
  started by then had knocked.\<close>

lemma passes_sound:
  assumes "gate_execution serve mint sh0 tr" and "shared_inv sh0" and "\<And>k. abs_grants (sh_grants sh0) k = None"
    and "n < length tr" and "length (snd (tr ! n)) \<le> i" and "i < length (snd (last tr))"
    and "snd (last tr) ! i = (Serve env h r, Reply Next)"
  shows "\<exists>m ip g. n < m \<and> m < length tr \<and> client h r = Some ip \<and> (\<exists>k. abs_grants (sh_grants (fst (tr ! m))) k = Some g) \<and>
    grant_ok (Some (gp_reg (policy h))) (env_now env 1) (CanonServerName (rq_Host r)) ip (grant_cookie r) g \<and>
    (gp_Binding (policy h) = BindingIPCookie \<longrightarrow> g_Binding g = BindingIPCookie) \<and>
    (\<exists>j \<in> jobs_of (tr ! m). knocked_for client policy (sh_nonceKey sh0) g j)"
proof -
  obtain ks where ks: "\<forall>k \<in> set ks. n < k \<and> Suc k < length tr" and a: "after (serve env h r) (map (\<lambda>k. fst (tr ! k)) ks) = Reply Next"
    using goroutine_history [OF assms(1,4-7)] by auto
  obtain m ip g where m: "m \<in> set ks" and ip: "client h r = Some ip"
    and b: "gp_Binding (policy h) = BindingIPCookie \<longrightarrow> g_Binding g = BindingIPCookie"
    and g: "IsAllowed (sh_grants (fst (tr ! m))) (CanonServerName (rq_Host r)) ip (Some (gp_reg (policy h))) (env_now env 1) (grant_cookie r) = Some g"
    using serve_passes [OF a] by (elim exE conjE) (auto intro: that)
  have "tr ! m \<in> set tr" using m ks Suc_lessD nth_mem by blast
  then have "\<exists>j \<in> jobs_of (tr ! m). knocked_for client policy (sh_nonceKey sh0) g j"
    using grants_knocked [OF assms(1-3)] IsAllowed_stored [OF g] by blast
  then show ?thesis using m ks ip b IsAllowed_stored [OF g] by (intro exI [of _ m] exI [of _ ip] exI [of _ g]) auto
qed

end

section \<open>Nonces\<close>

text \<open>The clock readings of a request do not overflow with the nonce lifetime of its handler.\<close>

fun clock_fits :: "('h \<Rightarrow> Policy) \<Rightarrow> 'h gate_job \<Rightarrow> bool" where
  "clock_fits policy (Serve env h r) \<longleftrightarrow> is_i64 (env_now env 2) \<and> env_now env 2 + gp_NonceTTL (policy h) < 2 ^ 63"
| "clock_fits policy (MintCode d c kid origins exp) \<longleftrightarrow> True"

text \<open>A knock with this nonce at a handler with the nonce lifetime \<open>ttl\<close>.\<close>

fun gate_knocks_with :: "('h \<Rightarrow> Policy) \<Rightarrow> int \<Rightarrow> bytes \<Rightarrow> 'h gate_job \<Rightarrow> bool" where
  "gate_knocks_with policy ttl nonce (Serve env h r) \<longleftrightarrow>
     rq_Path r = gp_Prefix (policy h) @ ''/respond'' \<and> sends_nonce env r nonce \<and> gp_NonceTTL (policy h) = ttl"
| "gate_knocks_with policy ttl nonce (MintCode d c kid origins exp) \<longleftrightarrow> False"

abbreviation nonce_spent :: "int \<Rightarrow> bytes \<Rightarrow> Shared \<Rightarrow> bool" where
  "nonce_spent ttl nonce sh \<equiv> spent_until (sh_nonces sh) (B64u (random_part nonce)) (issued_at nonce + ttl)"

text \<open>No sweep with this time or a later one has begun.\<close>

abbreviation swept_before :: "int \<Rightarrow> Shared \<Rightarrow> bool" where
  "swept_before until sh \<equiv> sh_lastSweep sh < until"

fun comes_before :: "int \<Rightarrow> 'h gate_job \<Rightarrow> bool" where
  "comes_before until (Serve env h r) \<longleftrightarrow> env_now env 0 < until"
| "comes_before until (MintCode d c kid origins exp) \<longleftrightarrow> True"

lemma spent_gate_effect:
  assumes "gate_effect client policy key (comes_before until j) j sh sh'" and "clock_fits policy j" and "spent_until (sh_nonces sh) nid until"
  shows "spent_until (sh_nonces sh') nid until"
  using assms
proof (induction "comes_before until j" j sh sh' rule: gate_effect.induct)
  case (claims h r ip env body nonce rnd t sh)
  then have "0 < gp_NonceTTL (policy h)" by (auto simp: gate_knock_def dest!: verified_positive [rotated])
  then show ?case using claims by (simp add: gate_spent_def spent_until_Claim_later)
qed (simp_all add: spent_until_Sweep)

lemma gate_knock_spends:
  assumes "gate_knock key env p ip r body nonce' rnd t" and "sends_nonce env r nonce" and "gp_NonceTTL p = ttl"
    and "is_i64 (env_now env 2)" and "env_now env 2 + ttl < 2 ^ 63" and ok: "fst (Claim (sh_nonces sh) (B64u rnd) (env_now env 2) ttl)"
  shows "\<not> nonce_spent ttl nonce sh \<and> nonce_spent ttl nonce (gate_spent env p rnd sh)"
proof -
  have "nonce' = nonce" using assms(1,2) by (auto simp: gate_knock_def sends_nonce_def)
  then have v: "VerifyNonce key nonce (CanonServerName (rq_Host r)) ip (env_now env 2) ttl (gp_IPv6Prefix p) = (True, rnd)"
    using assms(1,3) by (simp add: gate_knock_def)
  note w = VerifyNonce_window [OF v assms(4)]
  have "0 < ttl" using verified_positive [OF assms(4) v] by simp
  then have i: "i64 (env_now env 2 + ttl) = env_now env 2 + ttl" using assms(4,5) by (intro i64_id) (simp add: is_i64_def)
  show ?thesis
    using spent_until_refused [of "sh_nonces sh" "B64u rnd" "issued_at nonce + ttl" "env_now env 2" ttl] w ok
      spent_until_mono [OF Claim_spends [OF ok i], of "issued_at nonce + ttl"] assms(3) by (auto simp: gate_spent_def)
qed

text \<open>Executions in which no sweep begins at or after the time the nonce expires.\<close>

sublocale gate_programs \<subseteq> nonce: metered "\<lambda>j. within (swept_before (issued_at nonce + ttl)) (gate_code serve mint j)" "\<lambda>sh j. True" "keyed key"
  "\<lambda>j. gate_effect client policy key (comes_before (issued_at nonce + ttl) j) j" "clock_fits policy" "\<lambda>sh. True" accepted
  "gate_knocks_with policy ttl nonce" "\<lambda>j. False" "nonce_spent ttl nonce" for key ttl nonce
proof unfold_locales
  show "guarantees (keyed key) (gate_effect client policy key (comes_before (issued_at nonce + ttl) j) j)
      (within (swept_before (issued_at nonce + ttl)) (gate_code serve mint j))" for j
  proof (cases j)
    case (Serve env h r)
    show ?thesis
    proof (cases "env_now env 0 < issued_at nonce + ttl")
      case True
      then show ?thesis using Serve guarantees_within [OF serve_effects] by simp
    next
      case False
      then show ?thesis using Serve late_effects [of "issued_at nonce + ttl" env] by simp
    qed
  qed (simp add: guarantees_within mint_effects)
  show "takes accepted (\<lambda>sh. keyed key sh \<and> True) (\<lambda>sh sh'. \<not> nonce_spent ttl nonce sh \<and> nonce_spent ttl nonce sh')
      (within (swept_before (issued_at nonce + ttl)) (gate_code serve mint j))"
    if "gate_knocks_with policy ttl nonce j" "clock_fits policy j" for j
  proof (cases j)
    case (Serve env h r)
    then have "rq_Path r = gp_Prefix (policy h) @ ''/respond''" using that(1) by simp
    then have "takes accepted (\<lambda>sh. keyed key sh \<and> True) (\<lambda>sh sh'. \<not> nonce_spent ttl nonce sh \<and> nonce_spent ttl nonce sh') (serve env h r)"
    proof (rule takes_mono [OF respond_claims [of r h key env]], goal_cases)
      case (2 sh sh')
      then show ?case using that gate_knock_spends [of key env "policy h"] by (auto simp: Serve)
    qed simp
    then show ?thesis by (simp add: Serve takes_within)
  qed (use that in simp)
qed (use keyed_effect spent_gate_effect in \<open>blast | simp\<close>)+

text \<open>No sweep has such a time while no request with such a time has come in.\<close>

sublocale gate_programs \<subseteq> sweeps: rely "gate_code serve mint" "\<lambda>sh j. True" "keyed key" "gate_effect client policy key True"
  "comes_before until" "swept_before until" for key until
proof unfold_locales
  show "swept_before until sh'" if "comes_before until j" and "gate_effect client policy key True j sh sh'" and "swept_before until sh" for j sh sh'
    using that(2,1,3) by (induction rule: gate_effect.induct) (simp_all add: gate_spent_def gate_consumed_def)
qed (use job_effects keyed_effect in blast)+

section \<open>Enrollment codes\<close>

fun gate_enrolls_with :: "('h \<Rightarrow> Policy) \<Rightarrow> string \<Rightarrow> 'h gate_job \<Rightarrow> bool" where
  "gate_enrolls_with policy c (Serve env h r) \<longleftrightarrow>
     rq_Path r = gp_Prefix (policy h) @ ''/enroll'' \<and> (\<exists>body. env_enroll env 4096 (rq_Body r) = Some body \<and> eb_Code body = c)"
| "gate_enrolls_with policy c (MintCode d c' kid origins exp) \<longleftrightarrow> False"

fun mints_code :: "string \<Rightarrow> 'h gate_job \<Rightarrow> bool" where
  "mints_code c (Serve env h r) \<longleftrightarrow> False"
| "mints_code c (MintCode d c' kid origins exp) \<longleftrightarrow> c' = c"

lemma absent_gate_effect:
  "gate_effect client policy key swept j sh sh' \<Longrightarrow> \<not> mints_code c j \<Longrightarrow> code_absent c sh \<Longrightarrow> code_absent c sh'"
  by (induction rule: gate_effect.induct) (simp_all add: gate_consumed_def es_codes_Consume Put_es_def snd_Sweep_es mget_mpurge)

lemma Consume_removes: "fst (Consume e c now) = Some ec \<Longrightarrow> mget (es_codes e) c \<noteq> None \<and> mget (es_codes (snd (Consume e c now))) c = None"
  by (auto simp: Consume_def Let_def split: option.splits if_splits)

sublocale gate_programs \<subseteq> enrollment: metered "gate_code serve mint" "\<lambda>sh j. True" "keyed key" "gate_effect client policy key True"
  "\<lambda>j. True" "\<lambda>sh. True" accepted "gate_enrolls_with policy c" "mints_code c" "code_absent c" for key c
proof unfold_locales
  show "takes accepted (\<lambda>sh. keyed key sh \<and> True) (\<lambda>sh sh'. \<not> code_absent c sh \<and> code_absent c sh') (gate_code serve mint j)"
    if "gate_enrolls_with policy c j" for j
  proof (cases j)
    case (Serve env h r)
    then show ?thesis
      using that Consume_removes by (auto intro!: takes_mono [OF enroll_consumes [of r h key env]] simp: gate_consumed_def)
  qed (use that in simp)
  show "brings_once (\<lambda>sh. keyed key sh \<and> True) (code_absent c) (gate_code serve mint j)" if "mints_code c j" for j
    using that mint_once by (cases j) simp_all
qed (use job_effects keyed_effect absent_gate_effect in \<open>blast | simp\<close>)+

context gate_programs
begin

lemma nonce_works_once:
  assumes "gate_execution serve mint sh0 tr" and "shared_inv sh0"
    and "\<And>j. j \<in> jobs_of (last tr) \<Longrightarrow> clock_fits policy j"
    and "\<And>sys. sys \<in> set tr \<Longrightarrow> sh_lastSweep (fst sys) < issued_at nonce + ttl"
    and "i < length (snd (last tr))" and "snd (last tr) ! i = (j, p)" and "gate_knocks_with policy ttl nonce j" and "replied accepted p"
    and "i' < length (snd (last tr))" and "snd (last tr) ! i' = (j', p')" and "gate_knocks_with policy ttl nonce j'" and "replied accepted p'"
  shows "i' = i"
proof -
  let ?H = "swept_before (issued_at nonce + ttl)"
  have tr: "grun (\<lambda>j. within ?H (gate_code serve mint j)) (\<lambda>sh j. True) sh0 (map (within_system ?H) tr)"
    using assms(1,4) by (intro grun_within)
  have l: "last (map (within_system ?H) tr) = within_system ?H (last tr)" using execution_nonempty [OF assms(1)] by (simp add: last_map)
  have admissible: "clock_fits policy j" if "j \<in> jobs_of (last (map (within_system ?H) tr))" for j
    using that assms(3) by (simp only: l jobs_of_within)
  have "nonce.good (sh_nonceKey sh0) sh0" using assms(2) by (simp add: nonce.good_def shared_inv_keyed)
  then show ?thesis
    by (rule nonce.at_most_one [OF tr _ admissible])
      (use assms(5-) in \<open>auto simp: l nonce.succeeded_def within_system_def replied_def\<close>)
qed

lemma sweeps_before:
  assumes "gate_execution serve mint sh0 tr" and "shared_inv sh0" and "swept_before until sh0"
    and "\<And>j. j \<in> jobs_of (last tr) \<Longrightarrow> comes_before until j" and "sys \<in> set tr"
  shows "swept_before until (fst sys)"
proof -
  obtain tr' where tr': "gate_execution serve mint sh0 tr'" "last tr' = sys" using execution_prefix [OF assms(1,5)] by blast
  have "sweeps.good (sh_nonceKey sh0) until sh0" using assms(2,3) by (simp add: sweeps.good_def shared_inv_keyed)
  then have "sweeps.kept (sh_nonceKey sh0) until sys"
    using sweeps.execution_kept [OF tr'(1)] tr'(2) assms(4) execution_jobs [OF assms(1,5)] by auto
  then show ?thesis by (simp add: sweeps.kept_def sweeps.good_def)
qed

lemma code_released_once:
  assumes "gate_execution serve mint sh0 tr" and "shared_inv sh0"
  shows "length (filter (\<lambda>(j, p). gate_enrolls_with policy c j \<and> replied accepted p) (snd (last tr))) \<le>
    length (filter (\<lambda>(j, p). mints_code c j) (snd (last tr))) + of_bool (\<not> code_absent c sh0)"
proof -
  have "enrollment.good (sh_nonceKey sh0) sh0" using assms(2) by (simp add: enrollment.good_def shared_inv_keyed)
  then show ?thesis
    using enrollment.taken_at_most [OF assms(1), of "sh_nonceKey sh0" c]
    by (simp add: enrollment.succeeded_def [abs_def] case_prod_beta' comp_def)
qed

text \<open>Another type of handlers that is read as this one meets the contract too.\<close>

lemma rename: "gate_programs (\<lambda>env h. serve env (f h)) mint (client \<circ> f) (policy \<circ> f)"
proof (unfold comp_def, unfold_locales)
  fix key env h r
  have e: "gate_effect client policy key swept (Serve env (f h) r) sh sh' \<Longrightarrow>
      gate_effect (\<lambda>h. client (f h)) (\<lambda>h. policy (f h)) key swept (Serve env h r) sh sh'" for sh sh' swept
    by (erule gate_effect.cases) (auto intro: gate_effect.intros)
  show "guarantees (keyed key) (gate_effect (\<lambda>h. client (f h)) (\<lambda>h. policy (f h)) key True (Serve env h r)) (serve env (f h) r)"
    by (rule guarantees_mono [OF serve_effects [where h = "f h"]], assumption, erule e)
  show "guarantees (keyed key) (gate_effect (\<lambda>h. client (f h)) (\<lambda>h. policy (f h)) key False (Serve env h r))
      (within (swept_before until) (serve env (f h) r))" if "until \<le> env_now env 0" for until
    by (rule guarantees_mono [OF late_effects [OF that, where h = "f h"]], assumption, erule e)
next
  fix key d c kid origins exp swept
  have e: "gate_effect client policy key swept (MintCode d c kid origins exp) sh sh' \<Longrightarrow>
      gate_effect (\<lambda>h. client (f h)) (\<lambda>h. policy (f h)) key swept (MintCode d c kid origins exp) sh sh'" for sh sh'
    by (erule gate_effect.cases) (auto intro: gate_effect.intros)
  show "guarantees (keyed key) (gate_effect (\<lambda>h. client (f h)) (\<lambda>h. policy (f h)) key swept (MintCode d c kid origins exp)) (mint d c kid origins exp)"
    by (rule guarantees_mono [OF mint_effects], assumption, erule e)
qed (simp_all only: serve_passes respond_claims enroll_consumes mint_once)

end

end
