(* ===== verification/CaddyProps.thy ===== *)
theory CaddyProps
  imports Caddy Gate
begin

text \<open>
  The Caddy handler meets the contract \<open>gate\<close>: the outcomes of each endpoint, the interpretation of the locale, and
  what follows about provisioning, client addresses, denials and the exchange of a legitimate client.
\<close>

section \<open>What the options say\<close>

definition policy_caddy :: "JITAccess_caddy \<Rightarrow> Policy" where
  "policy_caddy j =
     \<lparr>gp_Prefix = ca_Prefix j, gp_Stealth = (ca_FailureMode j = failStealth_caddy), gp_Binding = ca_Binding j,
      gp_GrantTTL = dur_seconds (ca_GrantTTL j), gp_NonceTTL = dur_seconds (ca_NonceTTL j),
      gp_IPv6Prefix = ca_IPv6Prefix j, gp_RateLimit = ca_RateLimit j, gp_reg = ca_reg j\<rparr>"

definition client_caddy :: "JITAccess_caddy \<Rightarrow> Request \<Rightarrow> string option" where
  "client_caddy j r = (case clientIP_caddy j r of Inl err \<Rightarrow> None | Inr ip \<Rightarrow> Some ip)"

lemma policy_caddy_simps [simp]:
  "gp_Prefix (policy_caddy j) = ca_Prefix j" "gp_Binding (policy_caddy j) = ca_Binding j"
  "gp_GrantTTL (policy_caddy j) = dur_seconds (ca_GrantTTL j)" "gp_NonceTTL (policy_caddy j) = dur_seconds (ca_NonceTTL j)"
  "gp_IPv6Prefix (policy_caddy j) = ca_IPv6Prefix j" "gp_RateLimit (policy_caddy j) = ca_RateLimit j"
  "gp_reg (policy_caddy j) = ca_reg j" "gp_Stealth (policy_caddy j) \<longleftrightarrow> ca_FailureMode j = failStealth_caddy"
  by (simp_all add: policy_caddy_def)

lemma client_caddy_Some [simp]: "client_caddy j r = Some ip \<longleftrightarrow> clientIP_caddy j r = Inr ip"
  by (simp add: client_caddy_def split: sum.splits)

lemma deny_caddy_eq: "deny_caddy j = gate_deny (policy_caddy j)"
  by (simp add: deny_caddy_def gate_deny_def interstitial_response_def jitMarker_caddy_def JITMarker_def)

lemma grantCookieName_caddy [simp]: "grantCookieName_caddy = GrantCookieName"
  by (simp add: grantCookieName_caddy_def GrantCookieName_def)

lemma oldHash_caddy_eq [simp]: "oldHash_caddy r = oldCookieHash r"
  by (simp add: oldHash_caddy_def oldCookieHash_def split: option.splits)

section \<open>The sweep\<close>

interpretation caddy_sweep: gate_sweeper maybeSweep_caddy
  by unfold_locales (simp add: maybeSweep_caddy_def)

section \<open>The knock\<close>

lemma verify_caddy_Some_iff:
  "verify_caddy env j svc ip body sh = (Some t, sh') \<longleftrightarrow>
     (\<exists>nonce rnd. gate_verified env (policy_caddy j) svc ip body nonce rnd t sh \<and>
        sh' = gate_spent env (policy_caddy j) rnd sh)" (is "?L \<longleftrightarrow> ?R")
proof
  assume ?L
  then obtain nonce tag where dec: "B64uDecode (rb_Nonce body) = Inr nonce" "B64uDecode (rb_Proof body) = Inr tag"
    by (auto simp: verify_caddy_def split: sum.splits prod.splits)
  obtain ok rnd where v: "VerifyNonce (sh_nonceKey sh) nonce svc ip (env_now env 2) (dur_seconds (ca_NonceTTL j))
       (ca_IPv6Prefix j) = (ok, rnd)" by fastforce
  show ?R
    using \<open>?L\<close> dec v
    by (cases "Claim (sh_nonces sh) (B64u rnd) (env_now env 2) (dur_seconds (ca_NonceTTL j))"; cases "Lookup (Some (ca_reg j)) (rb_Kid body)")
      (auto simp: verify_caddy_def gate_verified_def gate_spent_def allowedForService_caddy_def Let_def split: if_splits)
next
  assume ?R
  then obtain nonce rnd where "gate_verified env (policy_caddy j) svc ip body nonce rnd t sh"
    and "sh' = gate_spent env (policy_caddy j) rnd sh" by blast
  then show ?L
    by (cases "Claim (sh_nonces sh) (B64u rnd) (env_now env 2) (dur_seconds (ca_NonceTTL j))")
      (auto simp: verify_caddy_def gate_verified_def gate_spent_def allowedForService_caddy_def Let_def
        VerifyNonce_length VerifyProof_length)
qed

lemma verify_caddy_None: "verify_caddy env j svc ip body sh = (None, sh') \<Longrightarrow> sh' = sh"
proof -
  assume *: "verify_caddy env j svc ip body sh = (None, sh')"
  show "sh' = sh"
  proof (cases "B64uDecode (rb_Nonce body)"; cases "B64uDecode (rb_Proof body)")
    fix nonce tag
    assume dec: "B64uDecode (rb_Nonce body) = Inr nonce" "B64uDecode (rb_Proof body) = Inr tag"
    obtain ok rnd where v: "VerifyNonce (sh_nonceKey sh) nonce svc ip (env_now env 2) (dur_seconds (ca_NonceTTL j))
       (ca_IPv6Prefix j) = (ok, rnd)" by fastforce
    note cl = Claim_refused [of "sh_nonces sh" "B64u rnd" "env_now env 2" "dur_seconds (ca_NonceTTL j)"]
    show ?thesis
      using * dec v cl
      by (cases "Claim (sh_nonces sh) (B64u rnd) (env_now env 2) (dur_seconds (ca_NonceTTL j))";
          cases "Lookup (Some (ca_reg j)) (rb_Kid body)")
        (auto simp: verify_caddy_def Let_def split: if_splits)
  qed (use * in \<open>simp_all add: verify_caddy_def\<close>)
qed

lemma mint_caddy_grant:
  "mint_caddy env j svc ip kid t = Inr (g, cookie) \<Longrightarrow> gate_grant env (policy_caddy j) svc ip kid t g"
  by (auto simp: mint_caddy_def gate_grant_def Let_def split: if_splits sum.splits)

lemma mint_caddy_cookie:
  "mint_caddy env j svc ip kid t = Inr (g, cookie) \<Longrightarrow>
     (if ca_Binding j = BindingIPCookie
      then \<exists>cid. cid \<noteq> [] \<and> g_CookieHash g = CookieHash cid \<and>
        cookie = [(''Set-Cookie'', cookie_string GrantCookieName cid (dur_seconds (ca_GrantTTL j)))]
      else cookie = [])"
  by (auto simp: mint_caddy_def Let_def split: if_splits sum.splits dest: B64u_RandomBytes)

lemma mint_caddy_total: "env_draw env 0 \<noteq> None \<Longrightarrow> \<exists>g cookie. mint_caddy env j svc ip kid t = Inr (g, cookie)"
  by (auto simp: mint_caddy_def Let_def RandomBytes_def)

lemma mint_caddy_Inl: "mint_caddy env j svc ip kid t = Inl e \<Longrightarrow> env_draw env 0 = None"
  by (auto simp: mint_caddy_def Let_def RandomBytes_def split: if_splits option.splits)

lemma handleRespond_caddy_eq:
  "handleRespond_caddy env j r svc ip sh =
     (let p = policy_caddy j; sh1 = gate_counted env p svc ip sh
      in if \<not> gate_rate_ok env p svc ip sh then (gate_deny p, sh1)
         else (case env_respond env 4096 (rq_Body r) of
                 None \<Rightarrow> (gate_deny p, sh1)
               | Some body \<Rightarrow>
                   (case verify_caddy env j svc ip body sh1 of
                      (None, sh2) \<Rightarrow> (gate_deny p, sh2)
                    | (Some t, sh2) \<Rightarrow>
                        (case mint_caddy env j svc ip (rb_Kid body) t of
                           Inl err \<Rightarrow> (gate_deny p, sh2)
                         | Inr (g, cookie) \<Rightarrow>
                             (NoContent (cookie @ [(''Cache-Control'', ''no-store'')]),
                              sh2\<lparr>sh_grants := Put (sh_grants sh2) (Some g) [oldCookieHash r]\<rparr>)))))"
  by (simp add: handleRespond_caddy_def gate_rate_ok_def gate_counted_def deny_caddy_eq Let_def case_prod_beta'
      split: option.splits sum.splits)

text \<open>The outcomes of a knock: minted, refused, or refused after the nonce was spent because the
  random source failed.\<close>

lemma handleRespond_caddy_cases:
  assumes "handleRespond_caddy env j r svc ip sh = (resp, sh')"
  obtains (minted) body nonce rnd t g cookie where "gate_rate_ok env (policy_caddy j) svc ip sh"
      and "env_respond env 4096 (rq_Body r) = Some body" and "gate_verified env (policy_caddy j) svc ip body nonce rnd t sh"
      and "mint_caddy env j svc ip (rb_Kid body) t = Inr (g, cookie)"
      and "resp = NoContent (cookie @ [(''Cache-Control'', ''no-store'')])"
      and "sh' = (gate_spent env (policy_caddy j) rnd (gate_counted env (policy_caddy j) svc ip sh))
             \<lparr>sh_grants := Put (sh_grants sh) (Some g) [oldCookieHash r]\<rparr>"
  | (denied) "resp = gate_deny (policy_caddy j)" and "sh' = gate_counted env (policy_caddy j) svc ip sh"
      and "\<not> (gate_rate_ok env (policy_caddy j) svc ip sh \<and> (\<exists>body nonce rnd t. env_respond env 4096 (rq_Body r) = Some body \<and>
         gate_verified env (policy_caddy j) svc ip body nonce rnd t sh))"
  | (no_rand) rnd where "resp = gate_deny (policy_caddy j)"
      and "sh' = gate_spent env (policy_caddy j) rnd (gate_counted env (policy_caddy j) svc ip sh)"
      and "env_draw env 0 = None"
proof -
  let ?p = "policy_caddy j" and ?sh1 = "gate_counted env (policy_caddy j) svc ip sh"
  show thesis
  proof (cases "\<exists>body t sh2. gate_rate_ok env ?p svc ip sh \<and> env_respond env 4096 (rq_Body r) = Some body \<and>
      verify_caddy env j svc ip body ?sh1 = (Some t, sh2)")
    case True
    then obtain body t sh2 where b: "gate_rate_ok env ?p svc ip sh" "env_respond env 4096 (rq_Body r) = Some body"
      and v: "verify_caddy env j svc ip body ?sh1 = (Some t, sh2)" by blast
    then obtain nonce rnd where k: "gate_verified env ?p svc ip body nonce rnd t sh" and sh2: "sh2 = gate_spent env ?p rnd ?sh1"
      by (auto simp: verify_caddy_Some_iff)
    show thesis
    proof (cases "mint_caddy env j svc ip (rb_Kid body) t")
      case (Inl e)
      then show thesis using assms b v sh2 mint_caddy_Inl by (intro no_rand [of rnd]) (auto simp: handleRespond_caddy_eq Let_def)
    next
      case (Inr gc)
      obtain g cookie where gc: "gc = (g, cookie)" by (cases gc)
      have "sh_grants sh2 = sh_grants sh" by (simp add: sh2 gate_spent_def gate_counted_def)
      then show thesis using assms b v k sh2 Inr gc by (intro minted) (auto simp: handleRespond_caddy_eq Let_def)
    qed
  next
    case False
    then have no: "\<not> (gate_rate_ok env ?p svc ip sh \<and> (\<exists>body nonce rnd t. env_respond env 4096 (rq_Body r) = Some body \<and>
         gate_verified env ?p svc ip body nonce rnd t sh))"
      by (auto simp: verify_caddy_Some_iff)
    have "resp = gate_deny ?p \<and> sh' = ?sh1"
    proof (cases "env_respond env 4096 (rq_Body r)")
      case (Some body)
      then show ?thesis using assms False
        by (cases "verify_caddy env j svc ip body ?sh1"; cases "fst (verify_caddy env j svc ip body ?sh1)")
          (auto simp: handleRespond_caddy_eq Let_def split: if_splits dest: verify_caddy_None)
    qed (use assms in \<open>auto simp: handleRespond_caddy_eq Let_def split: if_splits\<close>)
    then show thesis using no denied by blast
  qed
qed

lemma handleRespond_caddy_mints:
  assumes "gate_rate_ok env (policy_caddy j) svc ip sh" and "env_respond env 4096 (rq_Body r) = Some body"
    and "gate_verified env (policy_caddy j) svc ip body nonce rnd t sh"
    and "mint_caddy env j svc ip (rb_Kid body) t = Inr (g, cookie)"
  shows "handleRespond_caddy env j r svc ip sh =
    (NoContent (cookie @ [(''Cache-Control'', ''no-store'')]),
     (gate_spent env (policy_caddy j) rnd (gate_counted env (policy_caddy j) svc ip sh))
        \<lparr>sh_grants := Put (sh_grants sh) (Some g) [oldCookieHash r]\<rparr>)"
proof -
  let ?sh1 = "gate_counted env (policy_caddy j) svc ip sh"
  have "verify_caddy env j svc ip body ?sh1 = (Some t, gate_spent env (policy_caddy j) rnd ?sh1)"
    using assms(3) by (auto simp: verify_caddy_Some_iff)
  then show ?thesis using assms by (simp add: handleRespond_caddy_eq Let_def gate_spent_def gate_counted_def)
qed

section \<open>Challenge and enrollment\<close>

lemma handleChallenge_caddy_cases:
  assumes "handleChallenge_caddy env j svc ip sh = (resp, sh')"
  shows "sh' = gate_counted env (policy_caddy j) svc ip sh \<and>
    (resp = gate_deny (policy_caddy j) \<or>
     (\<exists>rnd nonce. IssueNonce (sh_nonceKey sh) (word_of_int (env_now env 2)) rnd svc ip (ca_IPv6Prefix j) = Inr nonce \<and>
        resp = NoContent [(''X-Jit-Nonce'', B64u nonce), (''X-Jit-Ts'', FormatInt (env_now env 2)), (''Cache-Control'', ''no-store'')]))"
  using assms
  by (cases "Allow (sh_rl sh) (RateKey svc ip) (ca_RateLimit j) (env_now env 1)")
    (auto simp: handleChallenge_caddy_def gate_counted_def deny_caddy_eq Let_def split: if_splits sum.splits)

lemma handleEnroll_caddy_eq:
  "handleEnroll_caddy env j r svc ip sh =
     (let p = policy_caddy j; sh1 = gate_counted env p svc ip sh
      in if \<not> gate_rate_ok env p svc ip sh then (gate_deny p, sh1)
         else (case env_enroll env 4096 (rq_Body r) of
                 None \<Rightarrow> (gate_deny p, sh1)
               | Some body \<Rightarrow>
                   if eb_Code body = [] then (gate_deny p, sh1)
                   else (case Peek (sh_codes sh) (eb_Code body) (env_now env 2) of
                           None \<Rightarrow> (gate_deny p, sh1)
                         | Some ec \<Rightarrow>
                             (case Lookup (Some (ca_reg j)) (ec_Kid ec) of
                                None \<Rightarrow> (gate_deny p, sh1)
                              | Some t \<Rightarrow>
                                  (case Peek (sh_codes sh) (eb_Code body) (env_now env 3) of
                                     None \<Rightarrow> (gate_deny p, gate_consumed env (eb_Code body) sh1)
                                   | Some _ \<Rightarrow> (gate_released ec t, gate_consumed env (eb_Code body) sh1))))))"
  unfolding handleEnroll_caddy_def gate_rate_ok_def gate_counted_def gate_consumed_def gate_released_def deny_caddy_eq
    Let_def case_prod_beta' fst_Consume
  by (simp split: option.splits) (auto dest: Peek_same)

lemma handleEnroll_caddy_cases:
  assumes "handleEnroll_caddy env j r svc ip sh = (resp, sh')"
  obtains (enrolled) code ec t where "gate_enrolls env (policy_caddy j) svc ip r sh code ec t" and "resp = gate_released ec t"
      and "sh' = gate_consumed env code (gate_counted env (policy_caddy j) svc ip sh)"
  | (denied) "resp = gate_deny (policy_caddy j)" and "sh' = gate_counted env (policy_caddy j) svc ip sh"
  | (expired) code where "resp = gate_deny (policy_caddy j)"
      and "sh' = gate_consumed env code (gate_counted env (policy_caddy j) svc ip sh)"
      and "Peek (sh_codes sh) code (env_now env 3) = None"
  using assms
  by (auto simp: handleEnroll_caddy_eq Let_def gate_enrolls_def split: if_splits option.splits dest: Peek_same)

section \<open>The whole handler\<close>

lemma ServeHTTP_caddy_cases:
  assumes "ServeHTTP_caddy env j r sh = (out, sh')"
  obtains (pass) ip g where "out = Next" and "sh' = maybeSweep_caddy (env_now env 0) sh" and "clientIP_caddy j r = Inr ip"
      and "IsAllowed (sh_grants sh') (CanonServerName (rq_Host r)) ip (Some (ca_reg j)) (env_now env 1) (grant_cookie r) = Some g"
      and "ca_Binding j = BindingIPCookie \<longrightarrow> g_Binding g = BindingIPCookie"
  | (respond) ip resp where "out = Answer resp" and "clientIP_caddy j r = Inr ip" and "CanonServerName (rq_Host r) \<noteq> []"
      and "rq_Path r = ca_Prefix j @ ''/respond''" and "rq_Method r = ''POST''"
      and "handleRespond_caddy env j r (CanonServerName (rq_Host r)) ip (maybeSweep_caddy (env_now env 0) sh) = (resp, sh')"
  | (enroll) ip resp where "out = Answer resp" and "clientIP_caddy j r = Inr ip" and "CanonServerName (rq_Host r) \<noteq> []"
      and "rq_Path r = ca_Prefix j @ ''/enroll''" and "rq_Method r = ''POST''"
      and "handleEnroll_caddy env j r (CanonServerName (rq_Host r)) ip (maybeSweep_caddy (env_now env 0) sh) = (resp, sh')"
  | (challenge) ip resp where "out = Answer resp" and "clientIP_caddy j r = Inr ip" and "CanonServerName (rq_Host r) \<noteq> []"
      and "rq_Path r = ca_Prefix j @ ''/challenge''" and "rq_Method r = ''GET''"
      and "handleChallenge_caddy env j (CanonServerName (rq_Host r)) ip (maybeSweep_caddy (env_now env 0) sh) = (resp, sh')"
  | (register) "out = Answer (handleRegister_caddy j)" and "sh' = maybeSweep_caddy (env_now env 0) sh"
      and "rq_Path r = ca_Prefix j @ ''/register''" and "rq_Method r = ''GET''"
  | (denied) "out = Answer (gate_deny (policy_caddy j))" and "sh' = maybeSweep_caddy (env_now env 0) sh"
proof -
  let ?s = "maybeSweep_caddy (env_now env 0) sh" and ?v = "CanonServerName (rq_Host r)"
  have ck: "(case Request_Cookie r GrantCookieName of None \<Rightarrow> [] | Some v \<Rightarrow> v) = grant_cookie r"
    by (simp add: grant_cookie_def)
  show thesis
  proof (cases "clientIP_caddy j r")
    case (Inl err)
    then show thesis using assms denied by (simp add: ServeHTTP_caddy_def deny_caddy_eq Let_def)
  next
    case ip: (Inr ip)
    consider (nosvc) "?v = []"
      | (knock) "?v \<noteq> []" "rq_Path r = ca_Prefix j \<or> HasPrefix (rq_Path r) (ca_Prefix j @ ''/'')"
      | (page) "?v \<noteq> []" "\<not> (rq_Path r = ca_Prefix j \<or> HasPrefix (rq_Path r) (ca_Prefix j @ ''/''))" by blast
    then show thesis
    proof cases
      case nosvc
      then show thesis using assms ip denied by (simp add: ServeHTTP_caddy_def deny_caddy_eq Let_def)
    next
      case knock
      then show thesis using assms ip
        by (auto simp: ServeHTTP_caddy_def deny_caddy_eq Let_def split: if_splits prod.splits
            intro: challenge respond enroll register denied)
    next
      case page
      then show thesis using assms ip
        by (auto simp: ServeHTTP_caddy_def deny_caddy_eq Let_def ck split: if_splits option.splits
            intro: pass denied)
    qed
  qed
qed

section \<open>The contract\<close>

lemma ServeHTTP_caddy_passes:
  assumes "ServeHTTP_caddy env j r sh = (Next, sh')"
  shows "sh' = maybeSweep_caddy (env_now env 0) sh \<and>
    (\<exists>ip g. client_caddy j r = Some ip \<and>
       IsAllowed (sh_grants sh') (CanonServerName (rq_Host r)) ip (Some (gp_reg (policy_caddy j))) (env_now env 1) (grant_cookie r) = Some g \<and>
       (gp_Binding (policy_caddy j) = BindingIPCookie \<longrightarrow> g_Binding g = BindingIPCookie))"
  using assms by (cases rule: ServeHTTP_caddy_cases) auto

lemma ServeHTTP_caddy_files:
  assumes "ServeHTTP_caddy env j r sh = (out, sh')"
  shows "sh_grants sh' = sh_grants (maybeSweep_caddy (env_now env 0) sh) \<or>
    (\<exists>ip body nonce rnd t g. client_caddy j r = Some ip \<and>
       gate_mints env (policy_caddy j) ip r (maybeSweep_caddy (env_now env 0) sh) body nonce rnd t g \<and>
       sh_grants sh' = Put (sh_grants (maybeSweep_caddy (env_now env 0) sh)) (Some g) [oldCookieHash r])"
  using assms
proof (cases rule: ServeHTTP_caddy_cases)
  case (respond ip resp)
  from respond(6) show ?thesis
  proof (cases rule: handleRespond_caddy_cases)
    case (minted body nonce rnd t g cookie)
    then have "gate_mints env (policy_caddy j) ip r (maybeSweep_caddy (env_now env 0) sh) body nonce rnd t g"
      using respond mint_caddy_grant by (simp add: gate_mints_def)
    moreover have "sh_grants sh' = Put (sh_grants (maybeSweep_caddy (env_now env 0) sh)) (Some g) [oldCookieHash r]"
      using minted(6) by simp
    ultimately show ?thesis using respond(2) client_caddy_Some by blast
  qed simp_all
next
  case (enroll ip resp)
  from enroll(6) show ?thesis by (cases rule: handleEnroll_caddy_cases) simp_all
next
  case (challenge ip resp)
  show ?thesis using handleChallenge_caddy_cases [OF challenge(6)] by simp
qed simp_all

lemma ServeHTTP_caddy_spends:
  assumes "ServeHTTP_caddy env j r sh = (out, sh')"
  shows "sh_nonces sh' = sh_nonces (maybeSweep_caddy (env_now env 0) sh) \<or>
    (\<exists>rnd. sh_nonces sh' = sh_nonces (gate_spent env (policy_caddy j) rnd (maybeSweep_caddy (env_now env 0) sh)))"
  using assms
proof (cases rule: ServeHTTP_caddy_cases)
  case (respond ip resp)
  from respond(6) show ?thesis by (cases rule: handleRespond_caddy_cases) auto
next
  case (enroll ip resp)
  from enroll(6) show ?thesis by (cases rule: handleEnroll_caddy_cases) simp_all
next
  case (challenge ip resp)
  show ?thesis using handleChallenge_caddy_cases [OF challenge(6)] by simp
qed simp_all

lemma ServeHTTP_caddy_keeps:
  assumes "ServeHTTP_caddy env j r sh = (out, sh')" and "shared_inv sh"
  shows "shared_inv sh' \<and> sh_nonceKey sh' = sh_nonceKey sh"
proof -
  note inv = caddy_sweep.sweep_inv [OF assms(2), of "env_now env 0"]
  note simps = inv shared_inv_counted [OF inv] shared_inv_spent shared_inv_consumed
  from assms(1) show ?thesis
  proof (cases rule: ServeHTTP_caddy_cases)
    case (respond ip resp)
    from respond(6) show ?thesis
    proof (cases rule: handleRespond_caddy_cases)
      case (minted body nonce rnd t g cookie)
      then show ?thesis
        using shared_inv_grants [of "gate_spent env (policy_caddy j) rnd
          (gate_counted env (policy_caddy j) (CanonServerName (rq_Host r)) ip (maybeSweep_caddy (env_now env 0) sh))"]
        by (simp add: simps)
    qed (simp_all add: simps)
  next
    case (enroll ip resp)
    from enroll(6) show ?thesis by (cases rule: handleEnroll_caddy_cases) (simp_all add: simps)
  next
    case (challenge ip resp)
    show ?thesis using handleChallenge_caddy_cases [OF challenge(6)] by (simp add: simps)
  qed (simp_all add: simps)
qed

lemma ServeHTTP_caddy_respond:
  assumes "clientIP_caddy j r = Inr ip" and "CanonServerName (rq_Host r) \<noteq> []" and "rq_Path r = ca_Prefix j @ ''/respond''"
    and "rq_Method r = ''POST''"
  shows "ServeHTTP_caddy env j r sh =
    (let (resp, sh') = handleRespond_caddy env j r (CanonServerName (rq_Host r)) ip (maybeSweep_caddy (env_now env 0) sh)
     in (Answer resp, sh'))"
  using assms prefix_path [of "ca_Prefix j" "''respond''"] by (simp add: ServeHTTP_caddy_def Let_def case_prod_beta')

lemma ServeHTTP_caddy_mints_spend:
  assumes "client_caddy j r = Some ip"
    and "gate_mints env (policy_caddy j) ip r (maybeSweep_caddy (env_now env 0) sh) body nonce rnd t g"
  shows "sh_nonces (snd (ServeHTTP_caddy env j r sh)) =
    sh_nonces (gate_spent env (policy_caddy j) rnd (maybeSweep_caddy (env_now env 0) sh))"
proof -
  let ?s = "maybeSweep_caddy (env_now env 0) sh" and ?v = "CanonServerName (rq_Host r)"
  note m = assms(2) [unfolded gate_mints_def]
  obtain resp sh' where h: "handleRespond_caddy env j r ?v ip ?s = (resp, sh')" by fastforce
  have v: "verify_caddy env j ?v ip body (gate_counted env (policy_caddy j) ?v ip ?s) =
      (Some t, gate_spent env (policy_caddy j) rnd (gate_counted env (policy_caddy j) ?v ip ?s))"
    using m by (auto simp: verify_caddy_Some_iff)
  have "sh_nonces sh' = sh_nonces (gate_spent env (policy_caddy j) rnd ?s)"
    using h m v by (auto simp: handleRespond_caddy_eq Let_def split: sum.splits)
  then show ?thesis using ServeHTTP_caddy_respond [of j r ip env sh] assms(1) m h by simp
qed

interpretation caddy: gate maybeSweep_caddy ServeHTTP_caddy MintEnrollCode_caddy client_caddy policy_caddy
proof unfold_locales
  show "\<exists>codes. MintEnrollCode_caddy d c kid origins exp sh = sh\<lparr>sh_codes := codes\<rparr>" if "sh_once sh"
    for sh d c kid origins exp
    using that by (auto simp: MintEnrollCode_caddy_def shared_caddy_def)
qed (blast dest: ServeHTTP_caddy_passes ServeHTTP_caddy_files ServeHTTP_caddy_spends
    intro: ServeHTTP_caddy_mints_spend dest: ServeHTTP_caddy_keeps)+

section \<open>Provisioning\<close>

text \<open>A conditional assignment to a field assigns a conditional value.\<close>

lemma if_field_caddy:
  "(if b then c\<lparr>ca_Prefix := x\<rparr> else c) = c\<lparr>ca_Prefix := (if b then x else ca_Prefix c)\<rparr>"
  "(if b then c\<lparr>ca_FailureMode := x\<rparr> else c) = c\<lparr>ca_FailureMode := (if b then x else ca_FailureMode c)\<rparr>"
  "(if b then c\<lparr>ca_Binding := x\<rparr> else c) = c\<lparr>ca_Binding := (if b then x else ca_Binding c)\<rparr>"
  "(if b then c\<lparr>ca_GrantTTL := n\<rparr> else c) = c\<lparr>ca_GrantTTL := (if b then n else ca_GrantTTL c)\<rparr>"
  "(if b then c\<lparr>ca_NonceTTL := n\<rparr> else c) = c\<lparr>ca_NonceTTL := (if b then n else ca_NonceTTL c)\<rparr>"
  "(if b then c\<lparr>ca_EnrollTTL := n\<rparr> else c) = c\<lparr>ca_EnrollTTL := (if b then n else ca_EnrollTTL c)\<rparr>"
  "(if b then c\<lparr>ca_IPv6Prefix := n\<rparr> else c) = c\<lparr>ca_IPv6Prefix := (if b then n else ca_IPv6Prefix c)\<rparr>"
  "(if b then c\<lparr>ca_RateLimit := n\<rparr> else c) = c\<lparr>ca_RateLimit := (if b then n else ca_RateLimit c)\<rparr>"
  by simp_all

lemma defaults_caddy_eq:
  "defaults_caddy c =
     c\<lparr>ca_Prefix := ''/'' @ Trim (if ca_Prefix c = [] then defaultPrefix_caddy else ca_Prefix c) ''/'',
       ca_GrantTTL := (if ca_GrantTTL c = 0 then 3600 * 10 ^ 9 else ca_GrantTTL c),
       ca_NonceTTL := (if ca_NonceTTL c = 0 then 60 * 10 ^ 9 else ca_NonceTTL c),
       ca_EnrollTTL := (if ca_EnrollTTL c = 0 then 86400 * 10 ^ 9 else ca_EnrollTTL c),
       ca_FailureMode := (if ca_FailureMode c = [] then failInterstitial_caddy else ca_FailureMode c),
       ca_Binding := (if ca_Binding c = [] then BindingIP else ca_Binding c),
       ca_IPv6Prefix := (if ca_IPv6Prefix c \<le> 0 \<or> ca_IPv6Prefix c > 128 then 128 else ca_IPv6Prefix c),
       ca_RateLimit := (if ca_RateLimit c \<le> 0 then 10 else ca_RateLimit c)\<rparr>"
  by (simp add: defaults_caddy_def Let_def if_field_caddy cong: if_cong split del: if_split)

lemma Provision_caddy_Inr_iff:
  "Provision_caddy d j sh = (Inr h, sh') \<longleftrightarrow>
     shared_caddy d sh = (None, sh') \<and> parsePrefixes_caddy (ca_TrustedProxies j) = Inr (ca_trusted h) \<and>
     \<not> (ca_TrustForwarded j \<and> ca_trusted h = []) \<and>
     (\<exists>tokens. fold_sum token_step_caddy (ca_Tokens j) mempty = Inr tokens \<and>
        h = (defaults_caddy j)\<lparr>ca_trusted := ca_trusted h,
              ca_reg := NewRegistry (Some tokens) (Some (mput mempty ''*'' (allow_list (ca_Allow j))))\<rparr>)"
  by (auto simp: Provision_caddy_def defaults_caddy_eq bind_sum_Inr_iff allow_list_def Let_def
      split: prod.splits option.splits split del: if_split)

lemma Provision_caddy_options_kept:
  assumes "Provision_caddy d j sh = (Inr h, sh')"
  shows "ca_NonceTTL h = ca_NonceTTL (defaults_caddy j)" "ca_GrantTTL h = ca_GrantTTL (defaults_caddy j)"
    "ca_Prefix h = ca_Prefix (defaults_caddy j)" "ca_IPv6Prefix h = ca_IPv6Prefix (defaults_caddy j)"
    "ca_RateLimit h = ca_RateLimit (defaults_caddy j)" "ca_TrustForwarded h = ca_TrustForwarded (defaults_caddy j)"
proof -
  obtain tr reg where h: "h = (defaults_caddy j)\<lparr>ca_trusted := tr, ca_reg := reg\<rparr>"
    using assms unfolding Provision_caddy_Inr_iff by blast
  show "ca_NonceTTL h = ca_NonceTTL (defaults_caddy j)" "ca_GrantTTL h = ca_GrantTTL (defaults_caddy j)"
    "ca_Prefix h = ca_Prefix (defaults_caddy j)" "ca_IPv6Prefix h = ca_IPv6Prefix (defaults_caddy j)"
    "ca_RateLimit h = ca_RateLimit (defaults_caddy j)" "ca_TrustForwarded h = ca_TrustForwarded (defaults_caddy j)"
    by (simp_all add: h)
qed

lemma Provision_caddy_NonceTTL:
  assumes "Provision_caddy d j sh = (Inr h, sh')" and "n \<noteq> 0"
  shows "Provision_caddy d (j\<lparr>ca_NonceTTL := n\<rparr>) sh = (Inr (h\<lparr>ca_NonceTTL := n\<rparr>), sh')"
proof -
  have d: "defaults_caddy (j\<lparr>ca_NonceTTL := n\<rparr>) = (defaults_caddy j)\<lparr>ca_NonceTTL := n\<rparr>"
    using assms(2) by (simp add: defaults_caddy_eq)
  obtain tokens tr where "shared_caddy d sh = (None, sh')" "parsePrefixes_caddy (ca_TrustedProxies j) = Inr tr"
    "\<not> (ca_TrustForwarded j \<and> tr = [])" "fold_sum token_step_caddy (ca_Tokens j) mempty = Inr tokens"
    "h = (defaults_caddy j)\<lparr>ca_trusted := tr,
       ca_reg := NewRegistry (Some tokens) (Some (mput mempty ''*'' (allow_list (ca_Allow j))))\<rparr>"
    using assms(1) unfolding Provision_caddy_Inr_iff by blast
  then show ?thesis unfolding Provision_caddy_Inr_iff by (simp add: d)
qed

text \<open>What is configured for a token, and what the registry holds for it.\<close>

definition token_for_caddy :: "Token_caddy \<Rightarrow> Token \<Rightarrow> bool" where
  "token_for_caddy c t \<longleftrightarrow>
     B64uDecode (ct_Secret c) = Inr (tok_Secret t) \<and> 16 \<le> length (tok_Secret t) \<and> tok_Alg t = AlgHMACSHA256 \<and>
     tok_Label t = ct_Label c \<and> tok_Expires t = ct_Expires c"

lemma token_step_caddy_Inr_iff:
  "token_step_caddy c m = Inr m' \<longleftrightarrow> (\<exists>t. token_for_caddy c t \<and> m' = mput m (ct_Kid c) t)"
proof
  assume "token_step_caddy c m = Inr m'"
  then show "\<exists>t. token_for_caddy c t \<and> m' = mput m (ct_Kid c) t"
    by (intro exI [of _ "the (mget m' (ct_Kid c))"])
      (auto simp: token_step_caddy_def token_for_caddy_def split: sum.splits if_splits)
next
  assume "\<exists>t. token_for_caddy c t \<and> m' = mput m (ct_Kid c) t"
  then obtain t where t: "token_for_caddy c t" "m' = mput m (ct_Kid c) t" by blast
  then show "token_step_caddy c m = Inr m'"
    by (cases t) (simp add: token_step_caddy_def token_for_caddy_def)
qed

lemma tokens_caddy:
  assumes "fold_sum token_step_caddy cs m = Inr m'"
  shows "mget m' kid = Some t \<Longrightarrow> mget m kid = Some t \<or> (\<exists>c \<in> set cs. ct_Kid c = kid \<and> token_for_caddy c t)"
    and "kid \<in> ct_Kid ` set cs \<or> mget m kid \<noteq> None \<Longrightarrow> mget m' kid \<noteq> None"
proof -
  show "mget m kid = Some t \<or> (\<exists>c \<in> set cs. ct_Kid c = kid \<and> token_for_caddy c t)" if "mget m' kid = Some t"
    using assms that
  proof (induction cs arbitrary: m)
    case (Cons c cs)
    from Cons.prems(1) obtain t0 where "token_for_caddy c t0" and "fold_sum token_step_caddy cs (mput m (ct_Kid c) t0) = Inr m'"
      by (auto simp: bind_sum_Inr_iff token_step_caddy_Inr_iff)
    then show ?case using Cons.IH Cons.prems(2) by (fastforce split: if_splits)
  qed simp
  show "mget m' kid \<noteq> None" if "kid \<in> ct_Kid ` set cs \<or> mget m kid \<noteq> None"
    using assms that
  proof (induction cs arbitrary: m)
    case (Cons c cs)
    from Cons.prems(1) obtain t0 where "fold_sum token_step_caddy cs (mput m (ct_Kid c) t0) = Inr m'"
      by (auto simp: bind_sum_Inr_iff token_step_caddy_Inr_iff)
    then show ?case using Cons.prems(2) by (intro Cons.IH) (auto split: if_splits)
  qed simp
qed

text \<open>The registry of a site: one list for every service.\<close>

lemma AllowedForService_list:
  "AllowedForService (Some (NewRegistry tokens (Some (mput mempty ''*'' (allow_list kids))))) kid svc \<longleftrightarrow>
     ''*'' \<in> set kids \<or> kid \<in> set kids"
  using AllowedForService_site [of "NewRegistry tokens (Some (mput mempty ''*'' (allow_list kids)))" "allow_list kids" kid svc]
  by (simp add: NewRegistry_def mlen_mput mflag_allow_list)

lemma Validate_caddy_iff:
  "Validate_caddy j = Inr () \<longleftrightarrow> ca_FailureMode j \<in> {failInterstitial_caddy, failStealth_caddy} \<and>
     ca_Binding j \<in> {BindingIP, BindingIPCookie} \<and> ca_Tokens j \<noteq> [] \<and> ca_Allow j \<noteq> []"
  by (auto simp: Validate_caddy_def)

section \<open>Client addresses\<close>

lemma map_sum_Inr: "map_sum f id x = Inr y \<longleftrightarrow> x = Inr y"
  by (cases x) auto

lemma walk_caddy_canonical: "walk_caddy j xs = Inr ip \<Longrightarrow> \<exists>addr. CanonIP addr (ca_IPv6Prefix j) 32 = Inr ip"
  by (induction j xs rule: walk_caddy.induct) (auto simp: map_sum_Inr split: option.splits if_splits)

lemma clientIP_caddy_canonical: "clientIP_caddy j r = Inr ip \<Longrightarrow> CanonIP ip (ca_IPv6Prefix j) 32 = Inr ip"
  using walk_caddy_canonical CanonIP_idem
  by (auto simp: clientIP_caddy_def map_sum_Inr split: option.splits if_splits dest!: walk_caddy_canonical)

text \<open>The walk takes the last entry that is not one of the proxies; what stands before it is never read.\<close>

definition usable_caddy :: "JITAccess_caddy \<Rightarrow> string \<Rightarrow> bool" where
  "usable_caddy j entry \<longleftrightarrow> (case parseHostAddr_caddy entry of None \<Rightarrow> False | Some a \<Rightarrow> \<not> isTrusted_caddy j a)"

lemma walk_caddy_append: "list_ex (usable_caddy j) xs \<Longrightarrow> walk_caddy j (xs @ ys) = walk_caddy j xs"
  by (induction xs) (auto simp: usable_caddy_def split: option.splits)

lemma walk_caddy_skips: "\<not> list_ex (usable_caddy j) xs \<Longrightarrow> walk_caddy j (xs @ ys) = walk_caddy j ys"
  by (induction xs) (auto simp: usable_caddy_def split: option.splits)

section \<open>The exchange of a legitimate client\<close>

lemma ServeHTTP_caddy_challenge:
  assumes "clientIP_caddy j r = Inr ip" and "CanonServerName (rq_Host r) \<noteq> []" and "rq_Path r = ca_Prefix j @ ''/challenge''"
    and "rq_Method r = ''GET''"
  shows "ServeHTTP_caddy env j r sh =
    (let (resp, sh') = handleChallenge_caddy env j (CanonServerName (rq_Host r)) ip (maybeSweep_caddy (env_now env 0) sh)
     in (Answer resp, sh'))"
  using assms prefix_path [of "ca_Prefix j" "''challenge''"] by (simp add: ServeHTTP_caddy_def Let_def case_prod_beta')

lemma challenge_caddy_answers:
  assumes "CanonIP ip (ca_IPv6Prefix j) 32 = Inr ip" and "gate_rate_ok env (policy_caddy j) svc ip sh" and "env_draw env 0 = Some f"
  obtains nonce where
    "IssueNonce (sh_nonceKey sh) (word_of_int (env_now env 2)) (rand16 f) svc ip (ca_IPv6Prefix j) = Inr nonce"
    "handleChallenge_caddy env j svc ip sh =
       (NoContent [(''X-Jit-Nonce'', B64u nonce), (''X-Jit-Ts'', FormatInt (env_now env 2)), (''Cache-Control'', ''no-store'')],
        gate_counted env (policy_caddy j) svc ip sh)"
proof -
  obtain nonce where n: "IssueNonce (sh_nonceKey sh) (word_of_int (env_now env 2)) (rand16 f) svc ip (ca_IPv6Prefix j) = Inr nonce"
    using assms(1) by (auto simp: IssueNonce_Inr_iff)
  have "handleChallenge_caddy env j svc ip sh =
       (NoContent [(''X-Jit-Nonce'', B64u nonce), (''X-Jit-Ts'', FormatInt (env_now env 2)), (''Cache-Control'', ''no-store'')],
        gate_counted env (policy_caddy j) svc ip sh)"
    using assms(2,3) n
    by (simp add: handleChallenge_caddy_def gate_counted_def gate_rate_ok_def Let_def RandomBytes_def case_prod_beta')
  with n show thesis by (rule that)
qed

lemma gate_verifies:
  assumes "IssueNonce (sh_nonceKey sh) (word_of_int ts) rnd svc ip (gp_IPv6Prefix p) = Inr nonce"
    and "0 \<le> ts" and "ts \<le> env_now env 2" and "env_now env 2 < ts + gp_NonceTTL p" and "env_now env 2 < 2 ^ 63"
    and "permits (Some (gp_reg p)) (rb_Kid body) ''*'' (env_now env 2) t"
    and "client_answers body t svc nonce" and "mget (ns_spent (sh_nonces sh)) (B64u rnd) = None"
  shows "gate_verified env p svc ip body nonce rnd t sh"
proof -
  have now: "is_i64 (env_now env 2)" using assms(2,3,5) by (simp add: is_i64_def)
  have "fresh (word_of_int ts) (env_now env 2) (gp_NonceTTL p)" using assms(2-5) by (simp add: fresh_def uint_time)
  then have "VerifyNonce (sh_nonceKey sh) nonce svc ip (env_now env 2) (gp_NonceTTL p) (gp_IPv6Prefix p) = (True, rnd)"
    using assms(1) VerifyNonce_iff [OF now] by blast
  moreover have "fst (Claim (sh_nonces sh) (B64u rnd) (env_now env 2) (gp_NonceTTL p))" using assms(8) by (simp add: Claim_def)
  ultimately show ?thesis
    using assms(6,7) by (simp add: gate_verified_def client_answers_def B64uDecode_B64u VerifyProof_def permits_def)
qed

lemma unspent_sweep:
  "mget (ns_spent (sh_nonces sh)) nid = None \<Longrightarrow> mget (ns_spent (sh_nonces (maybeSweep_caddy now sh))) nid = None"
  using caddy_sweep.sweep_cases [of now sh] by (auto simp: snd_Sweep_ns mget_mpurge split: option.splits)

lemma allowed_sweep:
  assumes "shared_inv sh" and "t \<le> now" and "IsAllowed (sh_grants sh) svc ip reg now cookie = Some g"
  shows "IsAllowed (sh_grants (maybeSweep_caddy t sh)) svc ip reg now cookie = Some g"
  using caddy_sweep.sweep_cases [of t sh] assms IsAllowed_Sweep by (auto simp: shared_inv_def)

lemma ServeHTTP_caddy_page:
  assumes "clientIP_caddy j r = Inr ip" and "CanonServerName (rq_Host r) \<noteq> []"
    and "\<not> (rq_Path r = ca_Prefix j \<or> HasPrefix (rq_Path r) (ca_Prefix j @ ''/''))"
    and "IsAllowed (sh_grants (maybeSweep_caddy (env_now env 0) sh)) (CanonServerName (rq_Host r)) ip (Some (ca_reg j))
      (env_now env 1) (grant_cookie r) = Some g"
    and "ca_Binding j = BindingIPCookie \<longrightarrow> g_Binding g = BindingIPCookie"
  shows "ServeHTTP_caddy env j r sh = (Next, maybeSweep_caddy (env_now env 0) sh)"
proof -
  have ck: "(case Request_Cookie r GrantCookieName of None \<Rightarrow> [] | Some v \<Rightarrow> v) = grant_cookie r"
    by (simp add: grant_cookie_def)
  show ?thesis using assms by (auto simp: ServeHTTP_caddy_def Let_def ck)
qed

text \<open>A minted grant admits its client.\<close>

lemma minted_admits:
  assumes "shared_inv sh" and "t0 \<le> now" and "gate_grant env (policy_caddy j) svc ip kid t g" and "now < g_Exp g"
    and "permits (Some reg) kid svc now t" and "shows_cookie r g" and "sh_grants sh = Put s0 (Some g) ohs"
  shows "IsAllowed (sh_grants (maybeSweep_caddy t0 sh)) svc ip (Some reg) now (grant_cookie r) = Some g"
proof (rule allowed_sweep [OF assms(1,2)])
  have g: "g_Service g = svc" "g_IP g = ip" "g_Kid g = kid" "g_SecretFP g = Fingerprint (Some t)" "hash_shape (g_CookieHash g)"
    using assms(3) by (simp_all add: gate_grant_def)
  show "IsAllowed (sh_grants sh) svc ip (Some reg) now (grant_cookie r) = Some g"
    using put_grant_admits [OF assms(6) g(5) assms(4), of "Some reg" t s0 ohs] assms(5,7) g by simp
qed

end
