(* ===== verification/Traefik.thy ===== *)
theory Traefik
  imports Inprocess
begin

text \<open>
  \<^verbatim>\<open>adapters/traefik/plugin/jitaccess.go\<close>: the gate as a Traefik plugin. \<open>New\<close> checks the configuration, fills in the
  defaults and builds the handler; \<open>ServeHTTP\<close> answers the knock endpoints and passes a request on where its
  client has a grant. The stores are process-wide (\<open>Shared\<close>), the core is the copy under \<^verbatim>\<open>internal/jitcore\<close>,
  which is byte for byte \<^verbatim>\<open>core/go\<close>. Clock readings and random reads come from \<open>Env\<close> in the order of the
  source, the first reading being the one of \<open>maybeSweep\<close>. Lifetimes are whole seconds.
\<close>

section \<open>Configuration\<close>

definition defaultPrefix_traefik :: string where
  "defaultPrefix_traefik = ''/.well-known/jit-access''"

definition jitMarker_traefik :: string where
  "jitMarker_traefik = ''challenge; v=1''"

definition grantCookieName_traefik :: string where
  "grantCookieName_traefik = ''__Host-jit-grant''"

definition failInterstitial_traefik :: string where
  "failInterstitial_traefik = ''interstitial''"

definition failStealth_traefik :: string where
  "failStealth_traefik = ''stealth''"

record Token_traefik =
  tt_Kid :: string
  tt_Secret :: string
  tt_Label :: string
  tt_Expires :: int

record Config_traefik =
  tc_Allow :: "string list"
  tc_Tokens :: "Token_traefik list"
  tc_Prefix :: string
  tc_FailureMode :: string
  tc_Binding :: string
  tc_GrantTTL :: int
  tc_NonceTTL :: int
  tc_IPv6Prefix :: int
  tc_RateLimit :: int
  tc_TrustForwarded :: bool
  tc_TrustedProxies :: "string list"

definition CreateConfig_traefik :: Config_traefik where
  "CreateConfig_traefik =
     \<lparr>tc_Allow = [], tc_Tokens = [], tc_Prefix = defaultPrefix_traefik, tc_FailureMode = failInterstitial_traefik,
      tc_Binding = BindingIP, tc_GrantTTL = 3600, tc_NonceTTL = 60, tc_IPv6Prefix = 128, tc_RateLimit = 10,
      tc_TrustForwarded = False, tc_TrustedProxies = []\<rparr>"

section \<open>Process-wide state\<close>

definition shared_traefik :: "draw \<Rightarrow> Shared \<Rightarrow> rand_error option \<times> Shared" where
  "shared_traefik d sh =
     (if sh_once sh then (sh_err sh, sh)
      else
        let sh = sh\<lparr>sh_once := True, sh_grants := NewGrantStore, sh_nonces := NewNonceStore, sh_codes := NewEnrollStore,
                   sh_rl := NewRateLimiter DefaultRateLimitEntries\<rparr>;
            sh = (case RandomBytes 32 d of
                    Inr key \<Rightarrow> sh\<lparr>sh_nonceKey := key, sh_err := None\<rparr>
                  | Inl err \<Rightarrow> sh\<lparr>sh_nonceKey := [], sh_err := Some err\<rparr>)
        in (sh_err sh, sh))"

definition sweepEvery_traefik :: int where
  "sweepEvery_traefik = 60"

definition maybeSweep_traefik :: "int \<Rightarrow> Shared \<Rightarrow> Shared" where
  "maybeSweep_traefik now sh =
     (if i64 (now - sh_lastSweep sh) < sweepEvery_traefik then sh
      else sweep_shared now (sh\<lparr>sh_lastSweep := now\<rparr>))"

definition MintEnrollCode_traefik :: "draw \<Rightarrow> string \<Rightarrow> string \<Rightarrow> string list \<Rightarrow> int \<Rightarrow> Shared \<Rightarrow> Shared" where
  "MintEnrollCode_traefik d code kid origins exp sh =
     (let sh = snd (shared_traefik d sh)
      in sh\<lparr>sh_codes := Put_es (sh_codes sh) code \<lparr>ec_Kid = kid, ec_Origins = origins, ec_Exp = exp\<rparr>\<rparr>)"

section \<open>Building the middleware\<close>

record JITAccess_traefik =
  jt_cfg :: Config_traefik
  jt_reg :: Registry
  jt_trusted :: "Prefix list"

datatype traefik_error =
    TraefikRand rand_error | TraefikNoTokens | TraefikNoAllow
  | TraefikBadFailureMode string | TraefikBadBinding string
  | TraefikBadProxy string | TraefikForwardedUntrusted
  | TraefikSecretNotB64u string | TraefikSecretTooShort string

definition proxy_step_traefik :: "string \<Rightarrow> Prefix list \<Rightarrow> traefik_error + Prefix list" where
  "proxy_step_traefik s out =
     (let s = TrimSpace s in
      if s = [] then Inr out
      else (case ParsePrefix s of
              Some p \<Rightarrow> Inr (out @ [p])
            | None \<Rightarrow> (case ParseAddr s of
                         None \<Rightarrow> Inl (TraefikBadProxy s)
                       | Some a \<Rightarrow> Inr (out @ [PrefixFrom a (BitLen a)]))))"

definition parsePrefixes_traefik :: "string list \<Rightarrow> traefik_error + Prefix list" where
  "parsePrefixes_traefik list = fold_sum proxy_step_traefik list []"

definition normalize_traefik :: "Config_traefik \<Rightarrow> Config_traefik" where
  "normalize_traefik cfg =
     (let cfg = (if tc_Prefix cfg = [] then cfg\<lparr>tc_Prefix := defaultPrefix_traefik\<rparr> else cfg);
          cfg = cfg\<lparr>tc_Prefix := ''/'' @ Trim (tc_Prefix cfg) ''/''\<rparr>;
          cfg = (if tc_FailureMode cfg = [] then cfg\<lparr>tc_FailureMode := failInterstitial_traefik\<rparr> else cfg);
          cfg = (if tc_Binding cfg = [] then cfg\<lparr>tc_Binding := BindingIP\<rparr> else cfg);
          cfg = (if tc_GrantTTL cfg \<le> 0 then cfg\<lparr>tc_GrantTTL := 3600\<rparr> else cfg);
          cfg = (if tc_NonceTTL cfg \<le> 0 then cfg\<lparr>tc_NonceTTL := 60\<rparr> else cfg);
          cfg = (if tc_IPv6Prefix cfg \<le> 0 \<or> tc_IPv6Prefix cfg > 128 then cfg\<lparr>tc_IPv6Prefix := 128\<rparr> else cfg)
      in if tc_RateLimit cfg \<le> 0 then cfg\<lparr>tc_RateLimit := 10\<rparr> else cfg)"

definition token_step_traefik :: "Token_traefik \<Rightarrow> (string, Token) gomap \<Rightarrow> traefik_error + (string, Token) gomap" where
  "token_step_traefik t tokens =
     (case B64uDecode (tt_Secret t) of
        Inl err \<Rightarrow> Inl (TraefikSecretNotB64u (tt_Kid t))
      | Inr sec \<Rightarrow>
          if length sec < 16 then Inl (TraefikSecretTooShort (tt_Kid t))
          else Inr (mput tokens (tt_Kid t)
                 \<lparr>tok_Secret = sec, tok_Alg = AlgHMACSHA256, tok_Label = tt_Label t, tok_Expires = tt_Expires t\<rparr>))"

definition New_traefik :: "draw \<Rightarrow> Config_traefik \<Rightarrow> Shared \<Rightarrow> (traefik_error + JITAccess_traefik) \<times> Shared" where
  "New_traefik d cfg sh =
     (case shared_traefik d sh of
        (Some err, sh) \<Rightarrow> (Inl (TraefikRand err), sh)
      | (None, sh) \<Rightarrow>
          (bind_sum (check_that (tc_Tokens cfg \<noteq> []) TraefikNoTokens) (\<lambda>_.
           bind_sum (check_that (tc_Allow cfg \<noteq> []) TraefikNoAllow) (\<lambda>_.
           bind_sum (check_that (tc_FailureMode cfg \<in> {[], failInterstitial_traefik, failStealth_traefik})
             (TraefikBadFailureMode (tc_FailureMode cfg))) (\<lambda>_.
           bind_sum (check_that (tc_Binding cfg \<in> {[], BindingIP, BindingIPCookie}) (TraefikBadBinding (tc_Binding cfg))) (\<lambda>_.
           let cfg = normalize_traefik cfg in
           bind_sum (parsePrefixes_traefik (tc_TrustedProxies cfg)) (\<lambda>trusted.
           bind_sum (check_that (\<not> (tc_TrustForwarded cfg \<and> trusted = [])) TraefikForwardedUntrusted) (\<lambda>_.
           bind_sum (fold_sum token_step_traefik (tc_Tokens cfg) mempty) (\<lambda>tokens.
           let allow = fold (\<lambda>k m. mput m k True) (tc_Allow cfg) mempty;
               reg = NewRegistry (Some tokens) (Some (mput mempty ''*'' allow))
           in Inr \<lparr>jt_cfg = cfg, jt_reg = reg, jt_trusted = trusted\<rparr>))))))), sh))"

section \<open>The client\<close>

definition isTrusted_traefik :: "JITAccess_traefik \<Rightarrow> Addr \<Rightarrow> bool" where
  "isTrusted_traefik j a = (let a = Unmap a in list_ex (\<lambda>p. Contains_addr p a) (jt_trusted j))"

definition parseHostAddr_traefik :: "string \<Rightarrow> Addr option" where
  "parseHostAddr_traefik s =
     (let s = TrimSpace s;
          s = (case SplitHostPort s of Some (h, _) \<Rightarrow> h | None \<Rightarrow> s)
      in map_option Unmap (ParseAddr (Trim s ''[]'')))"

datatype client_error_traefik = TraefikBadPeer | TraefikNoClient | TraefikCanon canon_error

text \<open>The walk over the chain, from the last entry to the first: the argument is reversed.\<close>

fun walk_traefik :: "JITAccess_traefik \<Rightarrow> string list \<Rightarrow> client_error_traefik + string" where
  "walk_traefik j [] = Inl TraefikNoClient"
| "walk_traefik j (entry # rest) =
     (case parseHostAddr_traefik entry of
        None \<Rightarrow> walk_traefik j rest
      | Some a \<Rightarrow>
          if isTrusted_traefik j a then walk_traefik j rest
          else map_sum TraefikCanon id (CanonIP (AddrString a) (tc_IPv6Prefix (jt_cfg j)) 32))"

definition clientIP_traefik :: "JITAccess_traefik \<Rightarrow> Request \<Rightarrow> client_error_traefik + string" where
  "clientIP_traefik j r =
     (case parseHostAddr_traefik (rq_RemoteAddr r) of
        None \<Rightarrow> Inl TraefikBadPeer
      | Some peer \<Rightarrow>
          if \<not> tc_TrustForwarded (jt_cfg j) \<or> \<not> isTrusted_traefik j peer
          then map_sum TraefikCanon id (CanonIP (AddrString peer) (tc_IPv6Prefix (jt_cfg j)) 32)
          else walk_traefik j (rev (concat (map (\<lambda>v. Split v CHR '','') (Header_Values r ''X-Forwarded-For'')))))"

section \<open>Handlers\<close>

definition deny_traefik :: "JITAccess_traefik \<Rightarrow> Response" where
  "deny_traefik j =
     (if tc_FailureMode (jt_cfg j) = failStealth_traefik then StatusOnly 404 [(''Cache-Control'', ''no-store'')]
      else \<lparr>rs_Status = 403,
            rs_Header = [(''Cache-Control'', ''no-store''), (''X-Jit-Access'', jitMarker_traefik),
                         (''Content-Type'', ''text/html; charset=utf-8'')],
            rs_Body = InterstitialHTML\<rparr>)"

definition challenge_traefik :: "Env \<Rightarrow> JITAccess_traefik \<Rightarrow> string \<Rightarrow> string \<Rightarrow> Shared \<Rightarrow> Response \<times> Shared" where
  "challenge_traefik env j service ip sh =
     (let (ok, rl) = Allow (sh_rl sh) (RateKey service ip) (tc_RateLimit (jt_cfg j)) (env_now env 1);
          sh = sh\<lparr>sh_rl := rl\<rparr>
      in if \<not> ok then (deny_traefik j, sh)
         else (case RandomBytes 16 (env_draw env 0) of
                 Inl err \<Rightarrow> (deny_traefik j, sh)
               | Inr rnd \<Rightarrow>
                   let ts = env_now env 2 in
                   (case IssueNonce (sh_nonceKey sh) (word_of_int ts) rnd service ip (tc_IPv6Prefix (jt_cfg j)) of
                      Inl err \<Rightarrow> (deny_traefik j, sh)
                    | Inr nonce \<Rightarrow>
                        (NoContent [(''X-Jit-Nonce'', B64u nonce), (''X-Jit-Ts'', FormatInt ts),
                                    (''Cache-Control'', ''no-store'')], sh))))"

definition dummySecret_traefik :: bytes where
  "dummySecret_traefik = replicate 32 0"

text \<open>\<open>respond\<close> after the body is decoded, up to the claim of the nonce: the token of the proof.\<close>

definition verify_traefik :: "Env \<Rightarrow> JITAccess_traefik \<Rightarrow> string \<Rightarrow> string \<Rightarrow> respondBody \<Rightarrow> Shared \<Rightarrow> Token option \<times> Shared" where
  "verify_traefik env j service ip body sh =
     (case (B64uDecode (rb_Nonce body), B64uDecode (rb_Proof body)) of
        (Inr nonceRaw, Inr tag) \<Rightarrow>
          if length nonceRaw \<noteq> NonceLen \<or> length tag \<noteq> 32 then (None, sh)
          else
            let n = env_now env 2;
                (ok, rnd) = VerifyNonce (sh_nonceKey sh) nonceRaw service ip n (tc_NonceTTL (jt_cfg j)) (tc_IPv6Prefix (jt_cfg j))
            in if \<not> ok then (None, sh)
               else
                 let token = Lookup (Some (jt_reg j)) (rb_Kid body);
                     secret = (case token of Some t \<Rightarrow> tok_Secret t | None \<Rightarrow> dummySecret_traefik);
                     proofOK = VerifyProof secret service (rb_Kid body) nonceRaw tag
                 in (case token of
                       None \<Rightarrow> (None, sh)
                     | Some t \<Rightarrow>
                         if IsExpired (Some t) n \<or> \<not> AllowedForService (Some (jt_reg j)) (rb_Kid body) ''*'' \<or> \<not> proofOK
                         then (None, sh)
                         else
                           let (ok, nonces) = Claim (sh_nonces sh) (B64u rnd) n (tc_NonceTTL (jt_cfg j));
                               sh = sh\<lparr>sh_nonces := nonces\<rparr>
                           in if \<not> ok then (None, sh) else (Some t, sh))
      | _ \<Rightarrow> (None, sh))"

definition mint_traefik ::
  "Env \<Rightarrow> JITAccess_traefik \<Rightarrow> string \<Rightarrow> string \<Rightarrow> string \<Rightarrow> Token \<Rightarrow> rand_error + (Grant \<times> (string \<times> string) list)" where
  "mint_traefik env j service ip kid token =
     (let n = env_now env 2;
          ttl = tc_GrantTTL (jt_cfg j);
          g = \<lparr>g_V = 1, g_Kid = kid, g_Service = service, g_IP = ip, g_Binding = tc_Binding (jt_cfg j), g_CookieHash = [],
               g_Issued = n, g_Exp = i64 (n + ttl), g_Manual = False, g_SecretFP = Fingerprint (Some token)\<rparr>
      in if tc_Binding (jt_cfg j) = BindingIPCookie then
           (case RandomBytes 32 (env_draw env 0) of
              Inl err \<Rightarrow> Inl err
            | Inr idBytes \<Rightarrow>
                let cid = B64u idBytes
                in Inr (g\<lparr>g_CookieHash := CookieHash cid\<rparr>,
                        [(''Set-Cookie'', cookie_string grantCookieName_traefik cid ttl)]))
         else Inr (g, []))"

definition oldHash_traefik :: "Request \<Rightarrow> string" where
  "oldHash_traefik r =
     (case Request_Cookie r grantCookieName_traefik of
        Some v \<Rightarrow> if v \<noteq> [] then CookieHash v else []
      | None \<Rightarrow> [])"

definition respond_traefik :: "Env \<Rightarrow> JITAccess_traefik \<Rightarrow> Request \<Rightarrow> string \<Rightarrow> string \<Rightarrow> Shared \<Rightarrow> Response \<times> Shared" where
  "respond_traefik env j r service ip sh =
     (let (ok, rl) = Allow (sh_rl sh) (RateKey service ip) (tc_RateLimit (jt_cfg j)) (env_now env 1);
          sh = sh\<lparr>sh_rl := rl\<rparr>
      in if \<not> ok then (deny_traefik j, sh)
         else (case env_respond env 4096 (rq_Body r) of
                 None \<Rightarrow> (deny_traefik j, sh)
               | Some body \<Rightarrow>
                   (case verify_traefik env j service ip body sh of
                      (None, sh) \<Rightarrow> (deny_traefik j, sh)
                    | (Some token, sh) \<Rightarrow>
                        (case mint_traefik env j service ip (rb_Kid body) token of
                           Inl err \<Rightarrow> (deny_traefik j, sh)
                         | Inr (g, cookie) \<Rightarrow>
                             (NoContent (cookie @ [(''Cache-Control'', ''no-store'')]),
                              sh\<lparr>sh_grants := Put (sh_grants sh) (Some g) [oldHash_traefik r]\<rparr>)))))"

definition register_traefik :: "JITAccess_traefik \<Rightarrow> Response" where
  "register_traefik j =
     (if tc_FailureMode (jt_cfg j) = failStealth_traefik then deny_traefik j
      else \<lparr>rs_Status = 200,
            rs_Header = [(''Content-Type'', ''text/html; charset=utf-8''), (''Cache-Control'', ''no-store''),
                         (''Referrer-Policy'', ''no-referrer'')],
            rs_Body = RegisterHTML\<rparr>)"

definition enroll_traefik :: "Env \<Rightarrow> JITAccess_traefik \<Rightarrow> Request \<Rightarrow> string \<Rightarrow> string \<Rightarrow> Shared \<Rightarrow> Response \<times> Shared" where
  "enroll_traefik env j r service ip sh =
     (let (ok, rl) = Allow (sh_rl sh) (RateKey service ip) (tc_RateLimit (jt_cfg j)) (env_now env 1);
          sh = sh\<lparr>sh_rl := rl\<rparr>
      in if \<not> ok then (deny_traefik j, sh)
         else (case env_enroll env 4096 (rq_Body r) of
                 None \<Rightarrow> (deny_traefik j, sh)
               | Some body \<Rightarrow>
                   if eb_Code body = [] then (deny_traefik j, sh)
                   else if (case Peek (sh_codes sh) (eb_Code body) (env_now env 2) of
                              None \<Rightarrow> True
                            | Some peek \<Rightarrow> Lookup (Some (jt_reg j)) (ec_Kid peek) = None)
                   then (deny_traefik j, sh)
                   else
                     let (code, codes) = Consume (sh_codes sh) (eb_Code body) (env_now env 3);
                         sh = sh\<lparr>sh_codes := codes\<rparr>
                     in (case code of
                           None \<Rightarrow> (deny_traefik j, sh)
                         | Some code \<Rightarrow>
                             (case Lookup (Some (jt_reg j)) (ec_Kid code) of
                                None \<Rightarrow> (deny_traefik j, sh)
                              | Some token \<Rightarrow>
                                  (NoContent [(''X-Jit-Kid'', ec_Kid code), (''X-Jit-Secret'', B64u (tok_Secret token)),
                                              (''X-Jit-Origins'', Join (ec_Origins code) '',''),
                                              (''Cache-Control'', ''no-store'')], sh)))))"

definition ServeHTTP_traefik :: "Env \<Rightarrow> JITAccess_traefik \<Rightarrow> Request \<Rightarrow> Shared \<Rightarrow> outcome \<times> Shared" where
  "ServeHTTP_traefik env j r sh =
     (let answer = (\<lambda>(resp, sh). (Answer resp, sh));
          sh = maybeSweep_traefik (env_now env 0) sh;
          service = CanonServerName (rq_Host r);
          p = tc_Prefix (jt_cfg j)
      in case clientIP_traefik j r of
           Inl err \<Rightarrow> (Answer (deny_traefik j), sh)
         | Inr ip \<Rightarrow>
             if service = [] then (Answer (deny_traefik j), sh)
             else if rq_Path r = p \<or> HasPrefix (rq_Path r) (p @ ''/'') then
               (if rq_Path r = p @ ''/challenge'' \<and> rq_Method r = ''GET'' then answer (challenge_traefik env j service ip sh)
                else if rq_Path r = p @ ''/respond'' \<and> rq_Method r = ''POST'' then answer (respond_traefik env j r service ip sh)
                else if rq_Path r = p @ ''/enroll'' \<and> rq_Method r = ''POST'' then answer (enroll_traefik env j r service ip sh)
                else if rq_Path r = p @ ''/register'' \<and> rq_Method r = ''GET'' then (Answer (register_traefik j), sh)
                else (Answer (deny_traefik j), sh))
             else
               let cookie = (case Request_Cookie r grantCookieName_traefik of Some v \<Rightarrow> v | None \<Rightarrow> []) in
               (case IsAllowed (sh_grants sh) service ip (Some (jt_reg j)) (env_now env 1) cookie of
                  Some g \<Rightarrow>
                    if tc_Binding (jt_cfg j) = BindingIPCookie \<and> g_Binding g \<noteq> BindingIPCookie then (Answer (deny_traefik j), sh)
                    else (Next, sh)
                | None \<Rightarrow> (Answer (deny_traefik j), sh)))"

end
