(* ===== verification/Engines.thy ===== *)
theory Engines
  imports CaddyProps Traefik
begin

text \<open>
  The Traefik plugin and the Caddy handler are one gate. \<open>caddy_of\<close> reads the handler of the plugin as a Caddy
  handler, with lifetimes in nanoseconds; every operation of the plugin is the operation of that handler, so the
  plugin meets the contract \<open>gate\<close> too. \<open>caddy_options\<close> translates the configuration before it is processed.
\<close>

section \<open>Handlers\<close>

definition token_of_traefik :: "Token_traefik \<Rightarrow> Token_caddy" where
  "token_of_traefik t = \<lparr>ct_Kid = tt_Kid t, ct_Secret = tt_Secret t, ct_Label = tt_Label t, ct_Expires = tt_Expires t\<rparr>"

definition caddy_of :: "JITAccess_traefik \<Rightarrow> JITAccess_caddy" where
  "caddy_of h =
     (let cfg = jt_cfg h in
      \<lparr>ca_Prefix = tc_Prefix cfg, ca_Allow = tc_Allow cfg, ca_Tokens = map token_of_traefik (tc_Tokens cfg),
       ca_GrantTTL = tc_GrantTTL cfg * 10 ^ 9, ca_NonceTTL = tc_NonceTTL cfg * 10 ^ 9, ca_EnrollTTL = 86400 * 10 ^ 9,
       ca_FailureMode = tc_FailureMode cfg, ca_Binding = tc_Binding cfg, ca_IPv6Prefix = tc_IPv6Prefix cfg,
       ca_RateLimit = tc_RateLimit cfg, ca_TrustForwarded = tc_TrustForwarded cfg, ca_TrustedProxies = tc_TrustedProxies cfg,
       ca_reg = jt_reg h, ca_trusted = jt_trusted h\<rparr>)"

lemma caddy_of_simps [simp]:
  "ca_Prefix (caddy_of h) = tc_Prefix (jt_cfg h)" "ca_FailureMode (caddy_of h) = tc_FailureMode (jt_cfg h)"
  "ca_Binding (caddy_of h) = tc_Binding (jt_cfg h)" "ca_IPv6Prefix (caddy_of h) = tc_IPv6Prefix (jt_cfg h)"
  "ca_RateLimit (caddy_of h) = tc_RateLimit (jt_cfg h)" "ca_TrustForwarded (caddy_of h) = tc_TrustForwarded (jt_cfg h)"
  "ca_reg (caddy_of h) = jt_reg h" "ca_trusted (caddy_of h) = jt_trusted h"
  by (simp_all add: caddy_of_def Let_def)

lemma caddy_of_seconds [simp]:
  "dur_seconds (ca_GrantTTL (caddy_of h)) = tc_GrantTTL (jt_cfg h)"
  "dur_seconds (ca_NonceTTL (caddy_of h)) = tc_NonceTTL (jt_cfg h)"
  using dur_seconds_whole by (simp_all add: caddy_of_def Let_def)

named_theorems agree \<open>operations of the plugin as operations of the Caddy handler\<close>

lemma constants_agree [agree]:
  "defaultPrefix_traefik = defaultPrefix_caddy" "jitMarker_traefik = jitMarker_caddy"
  "grantCookieName_traefik = grantCookieName_caddy" "failInterstitial_traefik = failInterstitial_caddy"
  "failStealth_traefik = failStealth_caddy" "sweepEvery_traefik = sweepEvery_caddy" "dummySecret_traefik = dummySecret_caddy"
  by (simp_all add: defaultPrefix_traefik_def defaultPrefix_caddy_def jitMarker_traefik_def jitMarker_caddy_def
      grantCookieName_traefik_def GrantCookieName_def failInterstitial_traefik_def failInterstitial_caddy_def
      failStealth_traefik_def failStealth_caddy_def sweepEvery_traefik_def sweepEvery_caddy_def dummySecret_traefik_def dummySecret_caddy_def)

lemma shared_agree [agree]:
  "shared_traefik d sh = shared_caddy d sh" "maybeSweep_traefik now sh = maybeSweep_caddy now sh"
  "MintEnrollCode_traefik d code kid origins exp sh = MintEnrollCode_caddy d code kid origins exp sh"
  by (simp_all add: shared_traefik_def shared_caddy_def maybeSweep_traefik_def maybeSweep_caddy_def constants_agree
      MintEnrollCode_traefik_def MintEnrollCode_caddy_def)

lemma host_agree [agree]: "parseHostAddr_traefik s = parseHostAddr_caddy s" "isTrusted_traefik h a = isTrusted_caddy (caddy_of h) a"
  by (simp_all add: parseHostAddr_traefik_def parseHostAddr_caddy_def isTrusted_traefik_def isTrusted_caddy_def)

text \<open>The errors of the two client searches correspond one to one.\<close>

fun client_error_of :: "client_error_traefik \<Rightarrow> client_error_caddy" where
  "client_error_of TraefikBadPeer = CaddyBadPeer"
| "client_error_of TraefikNoClient = CaddyNoClient"
| "client_error_of (TraefikCanon e) = CaddyCanon e"

lemma map_sum_canon: "map_sum client_error_of (\<lambda>a. a) (map_sum TraefikCanon id x) = map_sum CaddyCanon id x"
  by (cases x) simp_all

lemma walk_agrees: "map_sum client_error_of (\<lambda>a. a) (walk_traefik h xs) = walk_caddy (caddy_of h) xs"
  by (induction h xs rule: walk_traefik.induct) (simp_all add: host_agree map_sum_canon split: option.splits)

lemma clientIP_agrees: "map_sum client_error_of (\<lambda>a. a) (clientIP_traefik h r) = clientIP_caddy (caddy_of h) r"
  by (simp add: clientIP_traefik_def clientIP_caddy_def host_agree walk_agrees map_sum_canon split: option.splits)

lemma deny_agrees [agree]: "deny_traefik h = deny_caddy (caddy_of h)"
  by (simp only: deny_traefik_def deny_caddy_def constants_agree caddy_of_simps)

lemma challenge_agrees [agree]: "challenge_traefik env h svc ip sh = handleChallenge_caddy env (caddy_of h) svc ip sh"
  by (simp only: challenge_traefik_def handleChallenge_caddy_def deny_agrees caddy_of_simps)

lemma verify_agrees [agree]: "verify_traefik env h svc ip body sh = verify_caddy env (caddy_of h) svc ip body sh"
  by (simp only: verify_traefik_def verify_caddy_def allowedForService_caddy_def constants_agree caddy_of_simps caddy_of_seconds)

lemma mint_agrees [agree]: "mint_traefik env h svc ip kid t = mint_caddy env (caddy_of h) svc ip kid t"
  by (simp only: mint_traefik_def mint_caddy_def constants_agree caddy_of_simps caddy_of_seconds)

lemma oldHash_agrees [agree]: "oldHash_traefik r = oldHash_caddy r"
  by (simp only: oldHash_traefik_def oldHash_caddy_def constants_agree)

lemma respond_agrees [agree]: "respond_traefik env h r svc ip sh = handleRespond_caddy env (caddy_of h) r svc ip sh"
  by (simp only: respond_traefik_def handleRespond_caddy_def deny_agrees verify_agrees mint_agrees oldHash_agrees caddy_of_simps)

lemma register_agrees [agree]: "register_traefik h = handleRegister_caddy (caddy_of h)"
  by (simp only: register_traefik_def handleRegister_caddy_def deny_agrees constants_agree caddy_of_simps)

lemma enroll_agrees [agree]: "enroll_traefik env h r svc ip sh = handleEnroll_caddy env (caddy_of h) r svc ip sh"
  by (simp only: enroll_traefik_def handleEnroll_caddy_def deny_agrees caddy_of_simps)

lemma ServeHTTP_agrees: "ServeHTTP_traefik env h r sh = ServeHTTP_caddy env (caddy_of h) r sh"
  using clientIP_agrees [of h r]
  by (cases "clientIP_traefik h r"; simp only: ServeHTTP_traefik_def ServeHTTP_caddy_def Let_def agree caddy_of_simps)
    (simp_all flip: clientIP_agrees)

section \<open>The plugin meets the contract\<close>

definition policy_traefik :: "JITAccess_traefik \<Rightarrow> Policy" where
  "policy_traefik h =
     \<lparr>gp_Prefix = tc_Prefix (jt_cfg h), gp_Stealth = (tc_FailureMode (jt_cfg h) = failStealth_traefik),
      gp_Binding = tc_Binding (jt_cfg h), gp_GrantTTL = tc_GrantTTL (jt_cfg h), gp_NonceTTL = tc_NonceTTL (jt_cfg h),
      gp_IPv6Prefix = tc_IPv6Prefix (jt_cfg h), gp_RateLimit = tc_RateLimit (jt_cfg h), gp_reg = jt_reg h\<rparr>"

definition client_traefik :: "JITAccess_traefik \<Rightarrow> Request \<Rightarrow> string option" where
  "client_traefik h r = (case clientIP_traefik h r of Inl err \<Rightarrow> None | Inr ip \<Rightarrow> Some ip)"

lemma policy_agrees: "policy_caddy (caddy_of h) = policy_traefik h"
  by (simp add: policy_caddy_def policy_traefik_def constants_agree)

lemma client_agrees: "client_caddy (caddy_of h) r = client_traefik h r"
  by (cases "clientIP_traefik h r") (simp_all add: client_caddy_def client_traefik_def flip: clientIP_agrees)

lemma client_traefik_Some [simp]: "client_traefik h r = Some ip \<longleftrightarrow> clientIP_traefik h r = Inr ip"
  by (simp add: client_traefik_def split: sum.splits)

lemma engine_agrees:
  "ServeHTTP_traefik = (\<lambda>env h. ServeHTTP_caddy env (caddy_of h))" "MintEnrollCode_traefik = MintEnrollCode_caddy"
  "maybeSweep_traefik = maybeSweep_caddy" "policy_traefik = policy_caddy \<circ> caddy_of" "client_traefik = client_caddy \<circ> caddy_of"
  by (intro ext; simp add: ServeHTTP_agrees shared_agree policy_agrees client_agrees)+

interpretation traefik: gate maybeSweep_traefik ServeHTTP_traefik MintEnrollCode_traefik client_traefik policy_traefik
  unfolding engine_agrees by (rule caddy.rename)

section \<open>Configurations\<close>

text \<open>The same options for Caddy: seconds as nanoseconds of a 64-bit duration, and 0, which asks for the default, for the option the plugin does not have.
  Lifetimes agree where they are not negative and fit a duration.\<close>

definition no_registry :: Registry where
  "no_registry = NewRegistry None None"

definition caddy_options :: "Config_traefik \<Rightarrow> JITAccess_caddy" where
  "caddy_options cfg =
     (caddy_of \<lparr>jt_cfg = cfg, jt_reg = no_registry, jt_trusted = []\<rparr>)
       \<lparr>ca_GrantTTL := i64 (tc_GrantTTL cfg * 10 ^ 9), ca_NonceTTL := i64 (tc_NonceTTL cfg * 10 ^ 9), ca_EnrollTTL := 0\<rparr>"

definition durations_fit :: "Config_traefik \<Rightarrow> bool" where
  "durations_fit cfg \<longleftrightarrow> 0 \<le> tc_GrantTTL cfg \<and> tc_GrantTTL cfg * 10 ^ 9 < 2 ^ 63 \<and> 0 \<le> tc_NonceTTL cfg \<and> tc_NonceTTL cfg * 10 ^ 9 < 2 ^ 63"

lemma nanos_fit: "- (2 ^ 63) \<le> n * 10 ^ 9 \<Longrightarrow> n * 10 ^ 9 < 2 ^ 63 \<Longrightarrow> i64 (n * 10 ^ 9) = n * 10 ^ 9"
  by (simp add: i64_id is_i64_def)

lemma caddy_options_simps [simp]:
  "ca_TrustedProxies (caddy_options cfg) = tc_TrustedProxies cfg" "ca_TrustForwarded (caddy_options cfg) = tc_TrustForwarded cfg"
  "ca_Tokens (caddy_options cfg) = map token_of_traefik (tc_Tokens cfg)" "ca_Allow (caddy_options cfg) = tc_Allow cfg"
  "ca_FailureMode (caddy_options cfg) = tc_FailureMode cfg" "ca_Binding (caddy_options cfg) = tc_Binding cfg"
  "ca_GrantTTL (caddy_options cfg) = i64 (tc_GrantTTL cfg * 10 ^ 9)" "ca_NonceTTL (caddy_options cfg) = i64 (tc_NonceTTL cfg * 10 ^ 9)"
  by (simp_all add: caddy_options_def caddy_of_def Let_def)

lemma if_field_traefik:
  "(if b then c\<lparr>tc_Prefix := x\<rparr> else c) = c\<lparr>tc_Prefix := (if b then x else tc_Prefix c)\<rparr>"
  "(if b then c\<lparr>tc_FailureMode := x\<rparr> else c) = c\<lparr>tc_FailureMode := (if b then x else tc_FailureMode c)\<rparr>"
  "(if b then c\<lparr>tc_Binding := x\<rparr> else c) = c\<lparr>tc_Binding := (if b then x else tc_Binding c)\<rparr>"
  "(if b then c\<lparr>tc_GrantTTL := n\<rparr> else c) = c\<lparr>tc_GrantTTL := (if b then n else tc_GrantTTL c)\<rparr>"
  "(if b then c\<lparr>tc_NonceTTL := n\<rparr> else c) = c\<lparr>tc_NonceTTL := (if b then n else tc_NonceTTL c)\<rparr>"
  "(if b then c\<lparr>tc_IPv6Prefix := n\<rparr> else c) = c\<lparr>tc_IPv6Prefix := (if b then n else tc_IPv6Prefix c)\<rparr>"
  "(if b then c\<lparr>tc_RateLimit := n\<rparr> else c) = c\<lparr>tc_RateLimit := (if b then n else tc_RateLimit c)\<rparr>"
  by simp_all

lemma normalize_traefik_eq:
  "normalize_traefik c =
     c\<lparr>tc_Prefix := ''/'' @ Trim (if tc_Prefix c = [] then defaultPrefix_traefik else tc_Prefix c) ''/'',
       tc_FailureMode := (if tc_FailureMode c = [] then failInterstitial_traefik else tc_FailureMode c),
       tc_Binding := (if tc_Binding c = [] then BindingIP else tc_Binding c),
       tc_GrantTTL := (if tc_GrantTTL c \<le> 0 then 3600 else tc_GrantTTL c),
       tc_NonceTTL := (if tc_NonceTTL c \<le> 0 then 60 else tc_NonceTTL c),
       tc_IPv6Prefix := (if tc_IPv6Prefix c \<le> 0 \<or> tc_IPv6Prefix c > 128 then 128 else tc_IPv6Prefix c),
       tc_RateLimit := (if tc_RateLimit c \<le> 0 then 10 else tc_RateLimit c)\<rparr>"
  by (simp add: normalize_traefik_def Let_def if_field_traefik cong: if_cong split del: if_split)

lemma defaults_agree:
  assumes "durations_fit cfg"
  shows "defaults_caddy (caddy_options cfg) = caddy_of \<lparr>jt_cfg = normalize_traefik cfg, jt_reg = no_registry, jt_trusted = []\<rparr>"
proof -
  have "i64 (tc_GrantTTL cfg * 10 ^ 9) = tc_GrantTTL cfg * 10 ^ 9" "i64 (tc_NonceTTL cfg * 10 ^ 9) = tc_NonceTTL cfg * 10 ^ 9"
    "tc_GrantTTL cfg \<le> 0 \<longleftrightarrow> tc_GrantTTL cfg = 0" "tc_NonceTTL cfg \<le> 0 \<longleftrightarrow> tc_NonceTTL cfg = 0"
    using assms nanos_fit [of "tc_GrantTTL cfg"] nanos_fit [of "tc_NonceTTL cfg"] by (auto simp: durations_fit_def)
  then show ?thesis
    by (simp add: defaults_caddy_eq normalize_traefik_eq caddy_options_def caddy_of_def Let_def agree cong: if_cong split del: if_split)
      (simp split: if_split)
qed

lemma fold_sum_Inr_cong:
  assumes "\<And>x acc v. f x acc = Inr v \<longleftrightarrow> g (h x) acc = Inr v"
  shows "fold_sum f xs acc = Inr v \<longleftrightarrow> fold_sum g (map h xs) acc = Inr v"
  by (induction xs arbitrary: acc) (simp_all add: bind_sum_Inr_iff assms)

lemma prefixes_agree: "parsePrefixes_traefik xs = Inr ps \<longleftrightarrow> parsePrefixes_caddy xs = Inr ps"
  using fold_sum_Inr_cong [of proxy_step_traefik proxy_step_caddy id xs "[]" ps]
  by (simp add: parsePrefixes_traefik_def parsePrefixes_caddy_def proxy_step_traefik_def proxy_step_caddy_def Let_def
      split: option.splits)

lemma tokens_agree: "fold_sum token_step_traefik ts m = Inr m' \<longleftrightarrow> fold_sum token_step_caddy (map token_of_traefik ts) m = Inr m'"
  by (rule fold_sum_Inr_cong)
    (auto simp: token_step_traefik_def token_step_caddy_def token_of_traefik_def split: sum.splits)

text \<open>Both constructors run the same checks, in different orders.\<close>

lemma New_traefik_Inr_iff:
  "New_traefik d cfg sh = (Inr h, sh') \<longleftrightarrow>
     shared_caddy d sh = (None, sh') \<and> tc_Tokens cfg \<noteq> [] \<and> tc_Allow cfg \<noteq> [] \<and>
     tc_FailureMode cfg \<in> {[], failInterstitial_caddy, failStealth_caddy} \<and> tc_Binding cfg \<in> {[], BindingIP, BindingIPCookie} \<and>
     parsePrefixes_caddy (tc_TrustedProxies cfg) = Inr (jt_trusted h) \<and> \<not> (tc_TrustForwarded cfg \<and> jt_trusted h = []) \<and>
     (\<exists>tokens. fold_sum token_step_caddy (map token_of_traefik (tc_Tokens cfg)) mempty = Inr tokens \<and>
        h = \<lparr>jt_cfg = normalize_traefik cfg,
             jt_reg = NewRegistry (Some tokens) (Some (mput mempty ''*'' (allow_list (tc_Allow cfg)))),
             jt_trusted = jt_trusted h\<rparr>)"
proof -
  have n: "tc_TrustedProxies (normalize_traefik cfg) = tc_TrustedProxies cfg" "tc_Tokens (normalize_traefik cfg) = tc_Tokens cfg"
    "tc_Allow (normalize_traefik cfg) = tc_Allow cfg" "tc_TrustForwarded (normalize_traefik cfg) = tc_TrustForwarded cfg"
    by (simp_all add: normalize_traefik_eq)
  show ?thesis
    by (auto simp: New_traefik_def n agree prefixes_agree tokens_agree bind_sum_Inr_iff Let_def allow_list_def
        split: prod.splits option.splits)
qed

lemma normal_modes_agree:
  "tc_FailureMode (normalize_traefik cfg) \<in> {failInterstitial_caddy, failStealth_caddy} \<longleftrightarrow>
     tc_FailureMode cfg \<in> {[], failInterstitial_caddy, failStealth_caddy}"
  "tc_Binding (normalize_traefik cfg) \<in> {BindingIP, BindingIPCookie} \<longleftrightarrow> tc_Binding cfg \<in> {[], BindingIP, BindingIPCookie}"
  by (simp_all add: normalize_traefik_eq agree failInterstitial_caddy_def failStealth_caddy_def BindingIP_def BindingIPCookie_def)

lemma New_Provision_agree:
  assumes "durations_fit cfg"
  shows "New_traefik d cfg sh = (Inr h, sh') \<longleftrightarrow>
     Provision_caddy d (caddy_options cfg) sh = (Inr (caddy_of h), sh') \<and> Validate_caddy (caddy_of h) = Inr () \<and>
     jt_cfg h = normalize_traefik cfg" (is "?L \<longleftrightarrow> ?R")
proof -
  let ?n = "normalize_traefik cfg" and ?reg = "\<lambda>ts. NewRegistry (Some ts) (Some (mput mempty ''*'' (allow_list (tc_Allow cfg))))"
  have n: "tc_Tokens ?n = tc_Tokens cfg" "tc_Allow ?n = tc_Allow cfg" by (simp_all add: normalize_traefik_eq)
  have eq: "caddy_of h = (defaults_caddy (caddy_options cfg))\<lparr>ca_trusted := jt_trusted h, ca_reg := r\<rparr> \<and> jt_cfg h = ?n \<longleftrightarrow>
      h = \<lparr>jt_cfg = ?n, jt_reg = r, jt_trusted = jt_trusted h\<rparr>" for r
    by (cases h) (auto simp: defaults_agree [OF assms] caddy_of_def Let_def)
  have v: "Validate_caddy (caddy_of h) = Inr () \<longleftrightarrow> tc_Tokens cfg \<noteq> [] \<and> tc_Allow cfg \<noteq> [] \<and>
      tc_FailureMode cfg \<in> {[], failInterstitial_caddy, failStealth_caddy} \<and> tc_Binding cfg \<in> {[], BindingIP, BindingIPCookie}"
    if "jt_cfg h = ?n"
    using that normal_modes_agree [of cfg] n by (auto simp: Validate_caddy_iff caddy_of_def Let_def)
  show ?thesis
  proof
    assume ?L
    then obtain r where "h = \<lparr>jt_cfg = ?n, jt_reg = r, jt_trusted = jt_trusted h\<rparr>" unfolding New_traefik_Inr_iff by blast
    then have c: "jt_cfg h = ?n" by (cases h) simp
    then show ?R using \<open>?L\<close> v [OF c] eq unfolding New_traefik_Inr_iff Provision_caddy_Inr_iff caddy_options_simps caddy_of_simps by blast
  next
    assume ?R
    then show ?L using v eq unfolding New_traefik_Inr_iff Provision_caddy_Inr_iff caddy_options_simps caddy_of_simps by blast
  qed
qed

lemma Provision_caddy_options:
  assumes "durations_fit cfg" and "Provision_caddy d (caddy_options cfg) sh = (Inr j, sh')"
  shows "j = caddy_of \<lparr>jt_cfg = normalize_traefik cfg, jt_reg = ca_reg j, jt_trusted = ca_trusted j\<rparr>"
  using assms(2) by (cases j) (auto simp: Provision_caddy_Inr_iff defaults_agree [OF assms(1)] caddy_of_def Let_def)

text \<open>Whatever the lifetimes are, Caddy takes the options the plugin takes.\<close>

lemma New_provisions:
  assumes "New_traefik d cfg sh = (Inr h, sh')"
  obtains j where "Provision_caddy d (caddy_options cfg) sh = (Inr j, sh')" and "Validate_caddy j = Inr ()"
proof -
  obtain tokens where p: "shared_caddy d sh = (None, sh')" "parsePrefixes_caddy (tc_TrustedProxies cfg) = Inr (jt_trusted h)"
    "\<not> (tc_TrustForwarded cfg \<and> jt_trusted h = [])" "fold_sum token_step_caddy (map token_of_traefik (tc_Tokens cfg)) mempty = Inr tokens"
    and v: "tc_Tokens cfg \<noteq> []" "tc_Allow cfg \<noteq> []" "tc_FailureMode cfg \<in> {[], failInterstitial_caddy, failStealth_caddy}"
    "tc_Binding cfg \<in> {[], BindingIP, BindingIPCookie}"
    using assms unfolding New_traefik_Inr_iff by blast
  let ?j = "(defaults_caddy (caddy_options cfg))\<lparr>ca_trusted := jt_trusted h,
    ca_reg := NewRegistry (Some tokens) (Some (mput mempty ''*'' (allow_list (tc_Allow cfg))))\<rparr>"
  have "Provision_caddy d (caddy_options cfg) sh = (Inr ?j, sh')" using p by (simp add: Provision_caddy_Inr_iff)
  moreover have "Validate_caddy ?j = Inr ()"
    using v by (auto simp: Validate_caddy_iff defaults_caddy_eq failInterstitial_caddy_def failStealth_caddy_def BindingIP_def BindingIPCookie_def)
  ultimately show thesis using that by blast
qed

end
