(* ===== verification/MiddlewareProgs.thy ===== *)
theory MiddlewareProgs
  imports ConcurrentGate Engines
begin

text \<open>
  The middlewares with the goroutines of their requests. \<^verbatim>\<open>net/http\<close> serves every request in a goroutine of its own, and all handlers of the process share
  one set of stores. A request is a program of atomic actions on the shared state, one per critical section of \<^verbatim>\<open>adapters/caddy/jitaccess.go\<close> and
  \<^verbatim>\<open>adapters/traefik/plugin/jitaccess.go\<close>: the look at \<^verbatim>\<open>lastSweep\<close> under \<^verbatim>\<open>sweepMu\<close>, each of the four sweeps after it, each call of a store or of the rate
  limiter, each read of the nonce key. The options and the registry of a handler never change once it is provisioned. Run without interference the
  programs are the handlers of \<open>Caddy\<close> and \<open>Traefik\<close>.
\<close>

section \<open>The Caddy handler\<close>

definition maybeSweep_caddy_prog :: "int \<Rightarrow> gate_prog \<Rightarrow> gate_prog" where
  "maybeSweep_caddy_prog now p =
     update (\<lambda>sh. if i64 (now - sh_lastSweep sh) < sweepEvery_caddy then (False, sh) else (True, sh\<lparr>sh_lastSweep := now\<rparr>)) (\<lambda>due.
     if \<not> due then p
     else
       modify (\<lambda>sh. sh\<lparr>sh_grants := snd (Sweep (sh_grants sh) now)\<rparr>)
       (modify (\<lambda>sh. sh\<lparr>sh_nonces := snd (Sweep_ns (sh_nonces sh) now)\<rparr>)
       (modify (\<lambda>sh. sh\<lparr>sh_codes := snd (Sweep_es (sh_codes sh) now)\<rparr>)
       (modify (\<lambda>sh. sh\<lparr>sh_rl := snd (Sweep_rl (sh_rl sh) now)\<rparr>) p))))"

definition MintEnrollCode_caddy_prog :: "draw \<Rightarrow> string \<Rightarrow> string \<Rightarrow> string list \<Rightarrow> int \<Rightarrow> gate_prog" where
  "MintEnrollCode_caddy_prog d code kid origins exp =
     modify (\<lambda>sh. snd (shared_caddy d sh))
     (modify (\<lambda>sh. sh\<lparr>sh_codes := Put_es (sh_codes sh) code \<lparr>ec_Kid = kid, ec_Origins = origins, ec_Exp = exp\<rparr>\<rparr>) Finish)"

definition allow_caddy_prog :: "Env \<Rightarrow> JITAccess_caddy \<Rightarrow> string \<Rightarrow> string \<Rightarrow> (bool \<Rightarrow> gate_prog) \<Rightarrow> gate_prog" where
  "allow_caddy_prog env j service ip k =
     update (\<lambda>sh. let (ok, rl) = Allow (sh_rl sh) (RateKey service ip) (ca_RateLimit j) (env_now env 1) in (ok, sh\<lparr>sh_rl := rl\<rparr>)) k"

definition challenge_caddy_prog :: "Env \<Rightarrow> JITAccess_caddy \<Rightarrow> string \<Rightarrow> string \<Rightarrow> gate_prog" where
  "challenge_caddy_prog env j service ip =
     allow_caddy_prog env j service ip (\<lambda>ok.
     if \<not> ok then Reply (Answer (deny_caddy j))
     else case RandomBytes 16 (env_draw env 0) of
            Inl err \<Rightarrow> Reply (Answer (deny_caddy j))
          | Inr rnd \<Rightarrow>
              let ts = env_now env 2 in
              get sh_nonceKey (\<lambda>key.
              case IssueNonce key (word_of_int ts) rnd service ip (ca_IPv6Prefix j) of
                Inl err \<Rightarrow> Reply (Answer (deny_caddy j))
              | Inr nonce \<Rightarrow>
                  Reply (Answer (NoContent [(''X-Jit-Nonce'', B64u nonce), (''X-Jit-Ts'', FormatInt ts), (''Cache-Control'', ''no-store'')]))))"

text \<open>The end of a knock whose proof is good: the nonce is claimed, then the grant filed.\<close>

definition accept_caddy_prog :: "Env \<Rightarrow> JITAccess_caddy \<Rightarrow> Request \<Rightarrow> string \<Rightarrow> string \<Rightarrow> string \<Rightarrow> Token \<Rightarrow> bytes \<Rightarrow> gate_prog" where
  "accept_caddy_prog env j r service ip kid token rnd =
     update (\<lambda>sh. let (ok, nonces) = Claim (sh_nonces sh) (B64u rnd) (env_now env 2) (dur_seconds (ca_NonceTTL j))
                 in (ok, sh\<lparr>sh_nonces := nonces\<rparr>)) (\<lambda>ok.
     if \<not> ok then Reply (Answer (deny_caddy j))
     else case mint_caddy env j service ip kid token of
            Inl err \<Rightarrow> Reply (Answer (deny_caddy j))
          | Inr (g, cookie) \<Rightarrow>
              modify (\<lambda>sh. sh\<lparr>sh_grants := Put (sh_grants sh) (Some g) [oldHash_caddy r]\<rparr>)
              (Reply (Answer (NoContent (cookie @ [(''Cache-Control'', ''no-store'')])))))"

definition verify_caddy_prog :: "Env \<Rightarrow> JITAccess_caddy \<Rightarrow> Request \<Rightarrow> string \<Rightarrow> string \<Rightarrow> respondBody \<Rightarrow> gate_prog" where
  "verify_caddy_prog env j r service ip body =
     (case (B64uDecode (rb_Nonce body), B64uDecode (rb_Proof body)) of
        (Inr nonceRaw, Inr tag) \<Rightarrow>
          if length nonceRaw \<noteq> NonceLen \<or> length tag \<noteq> 32 then Reply (Answer (deny_caddy j))
          else
            let n = env_now env 2 in
            get sh_nonceKey (\<lambda>key.
            let (ok, rnd) = VerifyNonce key nonceRaw service ip n (dur_seconds (ca_NonceTTL j)) (ca_IPv6Prefix j) in
            if \<not> ok then Reply (Answer (deny_caddy j))
            else
              let token = Lookup (Some (ca_reg j)) (rb_Kid body);
                  secret = (case token of Some t \<Rightarrow> tok_Secret t | None \<Rightarrow> dummySecret_caddy);
                  proofOK = VerifyProof secret service (rb_Kid body) nonceRaw tag
              in case token of
                   None \<Rightarrow> Reply (Answer (deny_caddy j))
                 | Some t \<Rightarrow>
                     if IsExpired (Some t) n \<or> \<not> allowedForService_caddy j (rb_Kid body) \<or> \<not> proofOK then Reply (Answer (deny_caddy j))
                     else accept_caddy_prog env j r service ip (rb_Kid body) t rnd)
      | _ \<Rightarrow> Reply (Answer (deny_caddy j)))"

definition respond_caddy_prog :: "Env \<Rightarrow> JITAccess_caddy \<Rightarrow> Request \<Rightarrow> string \<Rightarrow> string \<Rightarrow> gate_prog" where
  "respond_caddy_prog env j r service ip =
     allow_caddy_prog env j service ip (\<lambda>ok.
     if \<not> ok then Reply (Answer (deny_caddy j))
     else case env_respond env 4096 (rq_Body r) of
            None \<Rightarrow> Reply (Answer (deny_caddy j))
          | Some body \<Rightarrow> verify_caddy_prog env j r service ip body)"

definition enroll_caddy_prog :: "Env \<Rightarrow> JITAccess_caddy \<Rightarrow> Request \<Rightarrow> string \<Rightarrow> string \<Rightarrow> gate_prog" where
  "enroll_caddy_prog env j r service ip =
     allow_caddy_prog env j service ip (\<lambda>ok.
     if \<not> ok then Reply (Answer (deny_caddy j))
     else case env_enroll env 4096 (rq_Body r) of
            None \<Rightarrow> Reply (Answer (deny_caddy j))
          | Some body \<Rightarrow>
              if eb_Code body = [] then Reply (Answer (deny_caddy j))
              else
                get (\<lambda>sh. Peek (sh_codes sh) (eb_Code body) (env_now env 2)) (\<lambda>peek.
                if (case peek of None \<Rightarrow> True | Some peek \<Rightarrow> Lookup (Some (ca_reg j)) (ec_Kid peek) = None) then Reply (Answer (deny_caddy j))
                else
                  update (\<lambda>sh. let (code, codes) = Consume (sh_codes sh) (eb_Code body) (env_now env 3)
                              in (code, sh\<lparr>sh_codes := codes\<rparr>)) (\<lambda>code.
                  case code of
                    None \<Rightarrow> Reply (Answer (deny_caddy j))
                  | Some code \<Rightarrow>
                      (case Lookup (Some (ca_reg j)) (ec_Kid code) of
                         None \<Rightarrow> Reply (Answer (deny_caddy j))
                       | Some token \<Rightarrow>
                           Reply (Answer (NoContent [(''X-Jit-Kid'', ec_Kid code), (''X-Jit-Secret'', B64u (tok_Secret token)),
                             (''X-Jit-Origins'', Join (ec_Origins code) '',''), (''Cache-Control'', ''no-store'')]))))))"

definition check_caddy_prog :: "Env \<Rightarrow> JITAccess_caddy \<Rightarrow> Request \<Rightarrow> string \<Rightarrow> string \<Rightarrow> gate_prog" where
  "check_caddy_prog env j r service ip =
     (let cookie = (case Request_Cookie r grantCookieName_caddy of Some v \<Rightarrow> v | None \<Rightarrow> []) in
      get (\<lambda>sh. IsAllowed (sh_grants sh) service ip (Some (ca_reg j)) (env_now env 1) cookie) (\<lambda>found.
      case found of
        Some g \<Rightarrow>
          if ca_Binding j = BindingIPCookie \<and> g_Binding g \<noteq> BindingIPCookie then Reply (Answer (deny_caddy j))
          else Reply Next
      | None \<Rightarrow> Reply (Answer (deny_caddy j))))"

definition ServeHTTP_caddy_prog :: "Env \<Rightarrow> JITAccess_caddy \<Rightarrow> Request \<Rightarrow> gate_prog" where
  "ServeHTTP_caddy_prog env j r =
     maybeSweep_caddy_prog (env_now env 0)
     (let service = CanonServerName (rq_Host r); p = ca_Prefix j
      in case clientIP_caddy j r of
           Inl err \<Rightarrow> Reply (Answer (deny_caddy j))
         | Inr ip \<Rightarrow>
             if service = [] then Reply (Answer (deny_caddy j))
             else if rq_Path r = p \<or> HasPrefix (rq_Path r) (p @ ''/'') then
               (if rq_Path r = p @ ''/challenge'' \<and> rq_Method r = ''GET'' then challenge_caddy_prog env j service ip
                else if rq_Path r = p @ ''/respond'' \<and> rq_Method r = ''POST'' then respond_caddy_prog env j r service ip
                else if rq_Path r = p @ ''/enroll'' \<and> rq_Method r = ''POST'' then enroll_caddy_prog env j r service ip
                else if rq_Path r = p @ ''/register'' \<and> rq_Method r = ''GET'' then Reply (Answer (handleRegister_caddy j))
                else Reply (Answer (deny_caddy j)))
             else check_caddy_prog env j r service ip)"

section \<open>The Traefik plugin\<close>

definition maybeSweep_traefik_prog :: "int \<Rightarrow> gate_prog \<Rightarrow> gate_prog" where
  "maybeSweep_traefik_prog now p =
     update (\<lambda>sh. if i64 (now - sh_lastSweep sh) < sweepEvery_traefik then (False, sh) else (True, sh\<lparr>sh_lastSweep := now\<rparr>)) (\<lambda>due.
     if \<not> due then p
     else
       modify (\<lambda>sh. sh\<lparr>sh_grants := snd (Sweep (sh_grants sh) now)\<rparr>)
       (modify (\<lambda>sh. sh\<lparr>sh_nonces := snd (Sweep_ns (sh_nonces sh) now)\<rparr>)
       (modify (\<lambda>sh. sh\<lparr>sh_codes := snd (Sweep_es (sh_codes sh) now)\<rparr>)
       (modify (\<lambda>sh. sh\<lparr>sh_rl := snd (Sweep_rl (sh_rl sh) now)\<rparr>) p))))"

definition MintEnrollCode_traefik_prog :: "draw \<Rightarrow> string \<Rightarrow> string \<Rightarrow> string list \<Rightarrow> int \<Rightarrow> gate_prog" where
  "MintEnrollCode_traefik_prog d code kid origins exp =
     modify (\<lambda>sh. snd (shared_traefik d sh))
     (modify (\<lambda>sh. sh\<lparr>sh_codes := Put_es (sh_codes sh) code \<lparr>ec_Kid = kid, ec_Origins = origins, ec_Exp = exp\<rparr>\<rparr>) Finish)"

definition allow_traefik_prog :: "Env \<Rightarrow> JITAccess_traefik \<Rightarrow> string \<Rightarrow> string \<Rightarrow> (bool \<Rightarrow> gate_prog) \<Rightarrow> gate_prog" where
  "allow_traefik_prog env j service ip k =
     update (\<lambda>sh. let (ok, rl) = Allow (sh_rl sh) (RateKey service ip) (tc_RateLimit (jt_cfg j)) (env_now env 1) in (ok, sh\<lparr>sh_rl := rl\<rparr>)) k"

definition challenge_traefik_prog :: "Env \<Rightarrow> JITAccess_traefik \<Rightarrow> string \<Rightarrow> string \<Rightarrow> gate_prog" where
  "challenge_traefik_prog env j service ip =
     allow_traefik_prog env j service ip (\<lambda>ok.
     if \<not> ok then Reply (Answer (deny_traefik j))
     else case RandomBytes 16 (env_draw env 0) of
            Inl err \<Rightarrow> Reply (Answer (deny_traefik j))
          | Inr rnd \<Rightarrow>
              let ts = env_now env 2 in
              get sh_nonceKey (\<lambda>key.
              case IssueNonce key (word_of_int ts) rnd service ip (tc_IPv6Prefix (jt_cfg j)) of
                Inl err \<Rightarrow> Reply (Answer (deny_traefik j))
              | Inr nonce \<Rightarrow>
                  Reply (Answer (NoContent [(''X-Jit-Nonce'', B64u nonce), (''X-Jit-Ts'', FormatInt ts), (''Cache-Control'', ''no-store'')]))))"

text \<open>The end of a knock whose proof is good: the nonce is claimed, then the grant filed.\<close>

definition accept_traefik_prog :: "Env \<Rightarrow> JITAccess_traefik \<Rightarrow> Request \<Rightarrow> string \<Rightarrow> string \<Rightarrow> string \<Rightarrow> Token \<Rightarrow> bytes \<Rightarrow> gate_prog" where
  "accept_traefik_prog env j r service ip kid token rnd =
     update (\<lambda>sh. let (ok, nonces) = Claim (sh_nonces sh) (B64u rnd) (env_now env 2) (tc_NonceTTL (jt_cfg j))
                 in (ok, sh\<lparr>sh_nonces := nonces\<rparr>)) (\<lambda>ok.
     if \<not> ok then Reply (Answer (deny_traefik j))
     else case mint_traefik env j service ip kid token of
            Inl err \<Rightarrow> Reply (Answer (deny_traefik j))
          | Inr (g, cookie) \<Rightarrow>
              modify (\<lambda>sh. sh\<lparr>sh_grants := Put (sh_grants sh) (Some g) [oldHash_traefik r]\<rparr>)
              (Reply (Answer (NoContent (cookie @ [(''Cache-Control'', ''no-store'')])))))"

definition verify_traefik_prog :: "Env \<Rightarrow> JITAccess_traefik \<Rightarrow> Request \<Rightarrow> string \<Rightarrow> string \<Rightarrow> respondBody \<Rightarrow> gate_prog" where
  "verify_traefik_prog env j r service ip body =
     (case (B64uDecode (rb_Nonce body), B64uDecode (rb_Proof body)) of
        (Inr nonceRaw, Inr tag) \<Rightarrow>
          if length nonceRaw \<noteq> NonceLen \<or> length tag \<noteq> 32 then Reply (Answer (deny_traefik j))
          else
            let n = env_now env 2 in
            get sh_nonceKey (\<lambda>key.
            let (ok, rnd) = VerifyNonce key nonceRaw service ip n (tc_NonceTTL (jt_cfg j)) (tc_IPv6Prefix (jt_cfg j)) in
            if \<not> ok then Reply (Answer (deny_traefik j))
            else
              let token = Lookup (Some (jt_reg j)) (rb_Kid body);
                  secret = (case token of Some t \<Rightarrow> tok_Secret t | None \<Rightarrow> dummySecret_traefik);
                  proofOK = VerifyProof secret service (rb_Kid body) nonceRaw tag
              in case token of
                   None \<Rightarrow> Reply (Answer (deny_traefik j))
                 | Some t \<Rightarrow>
                     if IsExpired (Some t) n \<or> \<not> AllowedForService (Some (jt_reg j)) (rb_Kid body) ''*'' \<or> \<not> proofOK then Reply (Answer (deny_traefik j))
                     else accept_traefik_prog env j r service ip (rb_Kid body) t rnd)
      | _ \<Rightarrow> Reply (Answer (deny_traefik j)))"

definition respond_traefik_prog :: "Env \<Rightarrow> JITAccess_traefik \<Rightarrow> Request \<Rightarrow> string \<Rightarrow> string \<Rightarrow> gate_prog" where
  "respond_traefik_prog env j r service ip =
     allow_traefik_prog env j service ip (\<lambda>ok.
     if \<not> ok then Reply (Answer (deny_traefik j))
     else case env_respond env 4096 (rq_Body r) of
            None \<Rightarrow> Reply (Answer (deny_traefik j))
          | Some body \<Rightarrow> verify_traefik_prog env j r service ip body)"

definition enroll_traefik_prog :: "Env \<Rightarrow> JITAccess_traefik \<Rightarrow> Request \<Rightarrow> string \<Rightarrow> string \<Rightarrow> gate_prog" where
  "enroll_traefik_prog env j r service ip =
     allow_traefik_prog env j service ip (\<lambda>ok.
     if \<not> ok then Reply (Answer (deny_traefik j))
     else case env_enroll env 4096 (rq_Body r) of
            None \<Rightarrow> Reply (Answer (deny_traefik j))
          | Some body \<Rightarrow>
              if eb_Code body = [] then Reply (Answer (deny_traefik j))
              else
                get (\<lambda>sh. Peek (sh_codes sh) (eb_Code body) (env_now env 2)) (\<lambda>peek.
                if (case peek of None \<Rightarrow> True | Some peek \<Rightarrow> Lookup (Some (jt_reg j)) (ec_Kid peek) = None) then Reply (Answer (deny_traefik j))
                else
                  update (\<lambda>sh. let (code, codes) = Consume (sh_codes sh) (eb_Code body) (env_now env 3)
                              in (code, sh\<lparr>sh_codes := codes\<rparr>)) (\<lambda>code.
                  case code of
                    None \<Rightarrow> Reply (Answer (deny_traefik j))
                  | Some code \<Rightarrow>
                      (case Lookup (Some (jt_reg j)) (ec_Kid code) of
                         None \<Rightarrow> Reply (Answer (deny_traefik j))
                       | Some token \<Rightarrow>
                           Reply (Answer (NoContent [(''X-Jit-Kid'', ec_Kid code), (''X-Jit-Secret'', B64u (tok_Secret token)),
                             (''X-Jit-Origins'', Join (ec_Origins code) '',''), (''Cache-Control'', ''no-store'')]))))))"

definition check_traefik_prog :: "Env \<Rightarrow> JITAccess_traefik \<Rightarrow> Request \<Rightarrow> string \<Rightarrow> string \<Rightarrow> gate_prog" where
  "check_traefik_prog env j r service ip =
     (let cookie = (case Request_Cookie r grantCookieName_traefik of Some v \<Rightarrow> v | None \<Rightarrow> []) in
      get (\<lambda>sh. IsAllowed (sh_grants sh) service ip (Some (jt_reg j)) (env_now env 1) cookie) (\<lambda>found.
      case found of
        Some g \<Rightarrow>
          if tc_Binding (jt_cfg j) = BindingIPCookie \<and> g_Binding g \<noteq> BindingIPCookie then Reply (Answer (deny_traefik j))
          else Reply Next
      | None \<Rightarrow> Reply (Answer (deny_traefik j))))"

definition ServeHTTP_traefik_prog :: "Env \<Rightarrow> JITAccess_traefik \<Rightarrow> Request \<Rightarrow> gate_prog" where
  "ServeHTTP_traefik_prog env j r =
     maybeSweep_traefik_prog (env_now env 0)
     (let service = CanonServerName (rq_Host r); p = tc_Prefix (jt_cfg j)
      in case clientIP_traefik j r of
           Inl err \<Rightarrow> Reply (Answer (deny_traefik j))
         | Inr ip \<Rightarrow>
             if service = [] then Reply (Answer (deny_traefik j))
             else if rq_Path r = p \<or> HasPrefix (rq_Path r) (p @ ''/'') then
               (if rq_Path r = p @ ''/challenge'' \<and> rq_Method r = ''GET'' then challenge_traefik_prog env j service ip
                else if rq_Path r = p @ ''/respond'' \<and> rq_Method r = ''POST'' then respond_traefik_prog env j r service ip
                else if rq_Path r = p @ ''/enroll'' \<and> rq_Method r = ''POST'' then enroll_traefik_prog env j r service ip
                else if rq_Path r = p @ ''/register'' \<and> rq_Method r = ''GET'' then Reply (Answer (register_traefik j))
                else Reply (Answer (deny_traefik j)))
             else check_traefik_prog env j r service ip)"

section \<open>The programs run alone\<close>

abbreviation answered :: "Response \<times> Shared \<Rightarrow> outcome option \<times> Shared" where
  "answered \<equiv> map_prod (Some \<circ> Answer) id"

lemma alone_sweep_caddy: "alone (maybeSweep_caddy_prog now p) sh = alone p (maybeSweep_caddy now sh)"
  by (simp add: maybeSweep_caddy_prog_def maybeSweep_caddy_def sweep_shared_def Let_def)

lemma alone_mint_code_caddy: "alone (MintEnrollCode_caddy_prog d code kid origins exp) sh = (None, MintEnrollCode_caddy d code kid origins exp sh)"
  by (simp add: MintEnrollCode_caddy_prog_def MintEnrollCode_caddy_def Let_def)

lemma alone_challenge_caddy: "alone (challenge_caddy_prog env j svc ip) sh = answered (handleChallenge_caddy env j svc ip sh)"
  by (simp add: challenge_caddy_prog_def allow_caddy_prog_def handleChallenge_caddy_def Let_def split: prod.splits sum.splits)

lemma alone_verify_caddy:
  "alone (verify_caddy_prog env j r svc ip body) sh =
     (case verify_caddy env j svc ip body sh of
        (None, sh) \<Rightarrow> (Some (Answer (deny_caddy j)), sh)
      | (Some token, sh) \<Rightarrow>
          (case mint_caddy env j svc ip (rb_Kid body) token of
             Inl err \<Rightarrow> (Some (Answer (deny_caddy j)), sh)
           | Inr (g, cookie) \<Rightarrow>
               (Some (Answer (NoContent (cookie @ [(''Cache-Control'', ''no-store'')]))),
                sh\<lparr>sh_grants := Put (sh_grants sh) (Some g) [oldHash_caddy r]\<rparr>)))"
  by (simp add: verify_caddy_prog_def verify_caddy_def accept_caddy_prog_def Let_def split: prod.splits sum.splits option.splits)

lemma alone_respond_caddy: "alone (respond_caddy_prog env j r svc ip) sh = answered (handleRespond_caddy env j r svc ip sh)"
  by (simp add: respond_caddy_prog_def allow_caddy_prog_def handleRespond_caddy_def alone_verify_caddy Let_def split: prod.splits sum.splits option.splits)

lemma alone_enroll_caddy: "alone (enroll_caddy_prog env j r svc ip) sh = answered (handleEnroll_caddy env j r svc ip sh)"
  by (simp add: enroll_caddy_prog_def allow_caddy_prog_def handleEnroll_caddy_def Let_def split: prod.splits option.splits)

lemma alone_check_caddy:
  "alone (check_caddy_prog env j r svc ip) sh =
     (Some (case IsAllowed (sh_grants sh) svc ip (Some (ca_reg j)) (env_now env 1) (case Request_Cookie r grantCookieName_caddy of Some v \<Rightarrow> v | None \<Rightarrow> []) of
        Some g \<Rightarrow> if ca_Binding j = BindingIPCookie \<and> g_Binding g \<noteq> BindingIPCookie then Answer (deny_caddy j) else Next
      | None \<Rightarrow> Answer (deny_caddy j)), sh)"
  by (simp add: check_caddy_prog_def Let_def split: option.split)

lemma alone_serve_caddy: "alone (ServeHTTP_caddy_prog env j r) sh = map_prod Some id (ServeHTTP_caddy env j r sh)"
proof (cases "clientIP_caddy j r")
  case (Inr ip)
  have if_alone: "alone (if b then p else q) sh = (if b then alone p sh else alone q sh)" for b sh and p q :: gate_prog by simp
  have if_map: "map_prod f g (if b then x else y) = (if b then map_prod f g x else map_prod f g y)" for b x y and f :: "'a \<Rightarrow> 'b" and g :: "'c \<Rightarrow> 'd" by simp
  show ?thesis
    by (simp only: ServeHTTP_caddy_prog_def ServeHTTP_caddy_def alone_sweep_caddy Let_def Inr sum.case if_alone if_map alone_challenge_caddy alone_respond_caddy
        alone_enroll_caddy alone_check_caddy alone.simps)
      (simp add: case_prod_beta map_prod_def split: option.split cong: if_cong)
qed (simp add: ServeHTTP_caddy_prog_def ServeHTTP_caddy_def alone_sweep_caddy)

section \<open>The two engines\<close>

named_theorems agree_prog \<open>programs of the plugin as programs of the Caddy handler\<close>

lemma sweep_prog_agrees [agree_prog]: "maybeSweep_traefik_prog now p = maybeSweep_caddy_prog now p"
  by (simp only: maybeSweep_traefik_prog_def maybeSweep_caddy_prog_def constants_agree)

lemma mint_prog_agrees: "MintEnrollCode_traefik_prog d code kid origins exp = MintEnrollCode_caddy_prog d code kid origins exp"
  by (simp only: MintEnrollCode_traefik_prog_def MintEnrollCode_caddy_prog_def shared_agree)

lemma allow_prog_agrees [agree_prog]: "allow_traefik_prog env h svc ip k = allow_caddy_prog env (caddy_of h) svc ip k"
  by (simp only: allow_traefik_prog_def allow_caddy_prog_def caddy_of_simps)

lemma challenge_prog_agrees [agree_prog]: "challenge_traefik_prog env h svc ip = challenge_caddy_prog env (caddy_of h) svc ip"
  by (simp only: challenge_traefik_prog_def challenge_caddy_prog_def agree_prog deny_agrees caddy_of_simps)

lemma accept_prog_agrees [agree_prog]: "accept_traefik_prog env h r svc ip kid t rnd = accept_caddy_prog env (caddy_of h) r svc ip kid t rnd"
  by (simp only: accept_traefik_prog_def accept_caddy_prog_def deny_agrees mint_agrees oldHash_agrees caddy_of_seconds)

lemma verify_prog_agrees [agree_prog]: "verify_traefik_prog env h r svc ip body = verify_caddy_prog env (caddy_of h) r svc ip body"
  by (simp only: verify_traefik_prog_def verify_caddy_prog_def allowedForService_caddy_def agree_prog deny_agrees constants_agree caddy_of_simps
      caddy_of_seconds)

lemma respond_prog_agrees [agree_prog]: "respond_traefik_prog env h r svc ip = respond_caddy_prog env (caddy_of h) r svc ip"
  by (simp only: respond_traefik_prog_def respond_caddy_prog_def agree_prog deny_agrees)

lemma enroll_prog_agrees [agree_prog]: "enroll_traefik_prog env h r svc ip = enroll_caddy_prog env (caddy_of h) r svc ip"
  by (simp only: enroll_traefik_prog_def enroll_caddy_prog_def agree_prog deny_agrees caddy_of_simps)

lemma check_prog_agrees [agree_prog]: "check_traefik_prog env h r svc ip = check_caddy_prog env (caddy_of h) r svc ip"
  by (simp only: check_traefik_prog_def check_caddy_prog_def deny_agrees constants_agree caddy_of_simps)

lemma serve_prog_agrees: "ServeHTTP_traefik_prog env h r = ServeHTTP_caddy_prog env (caddy_of h) r"
  using clientIP_agrees [of h r]
  by (cases "clientIP_traefik h r"; simp only: ServeHTTP_traefik_prog_def ServeHTTP_caddy_prog_def Let_def agree_prog agree caddy_of_simps)
    (simp_all flip: clientIP_agrees)

end
