(* ===== verification/Adapters.thy ===== *)
theory Adapters
  imports Engines Deployment
begin

text \<open>
  The properties of the two in-process engines, and a site they are tried on: the token \<open>laptop\<close> of the sample
  deployment, a Traefik configuration with that token, and a client at \<^verbatim>\<open>192.0.2.1\<close> that connects directly.
\<close>

section \<open>A site\<close>

definition site_options :: Config_traefik where
  "site_options = CreateConfig_traefik
     \<lparr>tc_Tokens := [\<lparr>tt_Kid = ''laptop'', tt_Secret = B64u (replicate 16 5), tt_Label = [], tt_Expires = 0\<rparr>],
      tc_Allow := [''*'']\<rparr>"

definition site_reg :: Registry where
  "site_reg = NewRegistry (Some (mput mempty ''laptop'' (token_of laptop))) (Some (mput mempty ''*'' (allow_list [''*''])))"

definition site_traefik :: JITAccess_traefik where
  "site_traefik = \<lparr>jt_cfg = site_options, jt_reg = site_reg, jt_trusted = []\<rparr>"

definition site_caddy :: JITAccess_caddy where
  "site_caddy = caddy_of site_traefik"

definition site_shared :: Shared where
  "site_shared = \<lparr>sh_grants = NewGrantStore, sh_nonces = NewNonceStore, sh_codes = NewEnrollStore,
     sh_rl = NewRateLimiter DefaultRateLimitEntries, sh_nonceKey = replicate 32 0, sh_err = None, sh_once = True,
     sh_lastSweep = 0\<rparr>"

definition site_request :: "string \<Rightarrow> string \<Rightarrow> Request" where
  "site_request meth path = (sample_request ''192.0.2.1:5000'' [])\<lparr>rq_Method := meth, rq_Path := path, rq_EscapedPath := path\<rparr>"

lemma site_shared_ok: "shared_caddy (Some (\<lambda>i. 0)) no_shared = (None, site_shared)"
proof -
  have "map (\<lambda>i. 0) [0..<32] = (replicate 32 0 :: bytes)" by (simp add: map_replicate_const)
  then show ?thesis
    by (simp add: shared_caddy_def no_shared_def site_shared_def RandomBytes_def)
qed

text \<open>The state right after the initialization.\<close>

lemma shared_start:
  assumes "shared_caddy d no_shared = (None, sh0)"
  shows "shared_inv sh0" and "abs_grants (sh_grants sh0) k = None"
  using assms
  by (auto simp: shared_caddy_def no_shared_def shared_inv_def grant_inv_New rl_inv_New length_RandomBytes Let_def
      split: sum.splits) (simp_all add: NewGrantStore_def)

lemma site_inv: "shared_inv site_shared"
  using shared_start(1) [OF site_shared_ok] .

lemma site_New: "New_traefik (Some (\<lambda>i. 0)) site_options no_shared = (Inr site_traefik, site_shared)"
proof -
  have p: "Trim defaultPrefix_traefik ''/'' = ''.well-known/jit-access''" by code_simp
  have n: "normalize_traefik site_options = site_options"
    by (simp add: normalize_traefik_eq site_options_def CreateConfig_traefik_def p)
      (simp add: defaultPrefix_traefik_def failInterstitial_traefik_def BindingIP_def)
  have t: "fold_sum token_step_caddy (map token_of_traefik (tc_Tokens site_options)) mempty =
      Inr (mput mempty ''laptop'' (token_of laptop))"
    by (simp add: site_options_def token_of_traefik_def token_step_caddy_def B64uDecode_B64u laptop_def token_of_def secret_of_def)
  have "parsePrefixes_caddy [] = Inr []" by (simp add: parsePrefixes_caddy_def)
  then show ?thesis
    using t by (simp add: New_traefik_Inr_iff site_shared_ok n site_traefik_def)
      (simp add: site_options_def CreateConfig_traefik_def site_reg_def agree)
qed

lemma site_options_simps [simp]:
  "tc_Prefix site_options = ''/.well-known/jit-access''" "tc_FailureMode site_options = ''interstitial''"
  "tc_Binding site_options = BindingIP" "tc_GrantTTL site_options = 3600" "tc_NonceTTL site_options = 60"
  "tc_IPv6Prefix site_options = 128" "tc_RateLimit site_options = 10" "\<not> tc_TrustForwarded site_options"
  "tc_TrustedProxies site_options = []"
  by (simp_all add: site_options_def CreateConfig_traefik_def defaultPrefix_traefik_def failInterstitial_traefik_def)

lemma site_caddy_simps [simp]:
  "ca_Prefix site_caddy = ''/.well-known/jit-access''" "ca_FailureMode site_caddy = ''interstitial''"
  "ca_Binding site_caddy = BindingIP" "dur_seconds (ca_GrantTTL site_caddy) = 3600" "dur_seconds (ca_NonceTTL site_caddy) = 60"
  "ca_IPv6Prefix site_caddy = 128" "ca_RateLimit site_caddy = 10" "\<not> ca_TrustForwarded site_caddy"
  "ca_reg site_caddy = site_reg"
  by (simp_all add: site_caddy_def site_traefik_def)

lemma site_request_simps [simp]:
  "rq_Method (site_request m p) = m" "rq_Path (site_request m p) = p" "rq_RemoteAddr (site_request m p) = ''192.0.2.1:5000''"
  "CanonServerName (rq_Host (site_request m p)) = ''app''"
proof -
  have "CanonServerName ''app'' = ''app''" by code_simp
  then show "CanonServerName (rq_Host (site_request m p)) = ''app''" by (simp add: site_request_def sample_request_def)
qed (simp_all add: site_request_def sample_request_def)

lemma site_client: "clientIP_caddy site_caddy (site_request m p) = Inr ''192.0.2.1''"
proof -
  have "parseHostAddr_caddy ''192.0.2.1:5000'' = Some (Addr4 0xc0000201)" "CanonIP (AddrString (Addr4 0xc0000201)) 128 32 = Inr ''192.0.2.1''"
    by code_simp+
  then show ?thesis by (simp add: clientIP_caddy_def)
qed

lemma site_cookie: "grant_cookie (site_request m p) = []"
proof -
  have "readCookies (sample_request ''192.0.2.1:5000'' []) GrantCookieName = []" by code_simp
  then have "readCookies (site_request m p) GrantCookieName = []" by (simp add: readCookies_def Header_Values_def site_request_def)
  then show ?thesis by (simp add: grant_cookie_def Request_Cookie_def)
qed

lemma site_permits: "permits (Some site_reg) ''laptop'' svc now (token_of laptop)"
proof -
  have "AllowedForService (Some site_reg) ''laptop'' svc" unfolding site_reg_def by (simp add: AllowedForService_list)
  then show ?thesis by (simp add: permits_def) (simp add: site_reg_def Lookup_def NewRegistry_def IsExpired_def token_of_def laptop_def)
qed

text \<open>The knock of the client, ten seconds after its challenge.\<close>

abbreviation site_env :: Env where
  "site_env \<equiv> sample_env 1010 (Some sample_body)"

abbreviation site_swept :: Shared where
  "site_swept \<equiv> maybeSweep_caddy 1010 site_shared"

lemma site_swept_simps [simp]:
  "sh_nonceKey site_swept = replicate 32 0" "mget (ns_spent (sh_nonces site_swept)) k = None"
  "sh_grants site_swept = NewGrantStore"
  by (simp_all add: maybeSweep_caddy_def site_shared_def unspent_sweep sweepEvery_caddy_def i64_def NewNonceStore_def
      snd_Sweep_ns mget_mpurge) (simp add: Sweep_def NewGrantStore_def)

lemma site_key: "sh_nonceKey site_shared = replicate 32 0"
  by (simp add: site_shared_def)

lemma rate_ok_fresh:
  "0 < n \<Longrightarrow> mget (rl_window l) k = None \<Longrightarrow> int (mlen (rl_window l)) < rl_max l \<Longrightarrow> fst (Allow l k n now)"
  by (auto simp: Allow_def Let_def mget_sweepLocked split: option.splits)

lemma site_rate:
  assumes "sh_rl sh = sh_rl site_shared"
  shows "gate_rate_ok env (policy_caddy site_caddy) svc ip (maybeSweep_caddy now sh)"
  unfolding gate_rate_ok_def
  by (rule rate_ok_fresh)
    (simp_all add: assms maybeSweep_caddy_def site_shared_def Sweep_rl_def NewRateLimiter_def sweepLocked_def mpurge_def
      DefaultRateLimitEntries_def)

lemma site_granted:
  "gate_grant site_env (policy_caddy site_caddy) ''app'' ''192.0.2.1'' ''laptop'' (token_of laptop) sample_minted"
  by (simp add: gate_grant_def sample_minted_def i64_def)

lemma site_mints:
  "gate_mints site_env (policy_caddy site_caddy) ''192.0.2.1'' (site_request ''POST'' respond_path) site_swept
     sample_body sample_nonce (rand16 (\<lambda>j. 0)) (token_of laptop) sample_minted"
proof -
  have "gate_rate_ok site_env (policy_caddy site_caddy) ''app'' ''192.0.2.1'' site_swept"
    by (rule site_rate) simp
  moreover have "gate_verified site_env (policy_caddy site_caddy) ''app'' ''192.0.2.1'' sample_body sample_nonce (rand16 (\<lambda>j. 0))
      (token_of laptop) site_swept"
    by (rule gate_verifies [where ts = 1000])
      (use sample_issued site_permits in \<open>simp_all add: sample_body_def client_answers_def site_key\<close>)
  ultimately show ?thesis
    using site_granted by (simp add: gate_mints_def respond_path_def) (simp add: sample_body_def)
qed

definition site_knocked :: Shared where
  "site_knocked = snd (ServeHTTP_caddy site_env site_caddy (site_request ''POST'' respond_path) site_shared)"

lemma site_served:
  "ServeHTTP_caddy site_env site_caddy (site_request ''POST'' respond_path) site_shared =
     (Answer (NoContent [(''Cache-Control'', ''no-store'')]), site_knocked)"
  and site_knocked_grants: "sh_grants site_knocked =
     Put NewGrantStore (Some sample_minted) [oldCookieHash (site_request ''POST'' respond_path)]"
proof -
  have m: "mint_caddy site_env site_caddy ''app'' ''192.0.2.1'' (rb_Kid sample_body) (token_of laptop) = Inr (sample_minted, [])"
    by (simp add: mint_caddy_def sample_body_def sample_minted_def i64_def)
  have "handleRespond_caddy site_env site_caddy (site_request ''POST'' respond_path) ''app'' ''192.0.2.1'' site_swept =
      (NoContent [(''Cache-Control'', ''no-store'')],
       (gate_spent site_env (policy_caddy site_caddy) (rand16 (\<lambda>j. 0))
          (gate_counted site_env (policy_caddy site_caddy) ''app'' ''192.0.2.1'' site_swept))
         \<lparr>sh_grants := Put (sh_grants site_swept) (Some sample_minted) [oldCookieHash (site_request ''POST'' respond_path)]\<rparr>)"
    using handleRespond_caddy_mints [OF _ _ _ m, of site_swept "site_request ''POST'' respond_path" sample_nonce "rand16 (\<lambda>j. 0)"] site_mints
    by (simp add: gate_mints_def)
  then have *: "ServeHTTP_caddy site_env site_caddy (site_request ''POST'' respond_path) site_shared =
     (Answer (NoContent [(''Cache-Control'', ''no-store'')]),
      (gate_spent site_env (policy_caddy site_caddy) (rand16 (\<lambda>j. 0))
          (gate_counted site_env (policy_caddy site_caddy) ''app'' ''192.0.2.1'' site_swept))
         \<lparr>sh_grants := Put (sh_grants site_swept) (Some sample_minted) [oldCookieHash (site_request ''POST'' respond_path)]\<rparr>)"
    using ServeHTTP_caddy_respond [OF site_client, of "''POST''" respond_path site_env site_shared] by (simp add: respond_path_def)
  then show "ServeHTTP_caddy site_env site_caddy (site_request ''POST'' respond_path) site_shared =
     (Answer (NoContent [(''Cache-Control'', ''no-store'')]), site_knocked)" by (simp add: site_knocked_def)
  show "sh_grants site_knocked = Put NewGrantStore (Some sample_minted) [oldCookieHash (site_request ''POST'' respond_path)]"
    by (simp add: site_knocked_def *)
qed

lemma site_knocked_inv: "shared_inv site_knocked"
  using ServeHTTP_caddy_keeps [OF site_served site_inv] by simp

lemma site_run:
  "gate_run ServeHTTP_caddy MintEnrollCode_caddy site_shared
     [GateServed site_env site_caddy (site_request ''POST'' respond_path) (Answer (NoContent [(''Cache-Control'', ''no-store'')]))]
     site_knocked"
  using gate_run.served [OF gate_run.start, where serve = ServeHTTP_caddy and mint = MintEnrollCode_caddy, OF site_served] by simp

lemma site_passes:
  "ServeHTTP_caddy (sample_env 2000 None) site_caddy (site_request ''GET'' ''/'') site_knocked =
     (Next, maybeSweep_caddy 2000 site_knocked)"
proof -
  have "IsAllowed (sh_grants (maybeSweep_caddy 2000 site_knocked)) ''app'' ''192.0.2.1'' (Some site_reg) 2000
      (grant_cookie (site_request ''GET'' ''/'')) = Some sample_minted"
    by (rule minted_admits [OF site_knocked_inv _ site_granted _ site_permits _ site_knocked_grants])
      (simp_all add: shows_cookie_def site_cookie sample_minted_def)
  then show ?thesis
    using ServeHTTP_caddy_page [OF site_client, of "''GET''" "''/''" "sample_env 2000 None" site_knocked sample_minted]
    by (simp add: HasPrefix_def)
qed

section \<open>Only a grant opens the gate\<close>

text \<open>the Caddy handler passes a request on only for a grant. In every execution from the start of the process,
  with any handlers a reload puts in place, a request that reaches the next handler has a client address, and a stored
  grant for exactly its host and that address, unexpired, backed by a token this handler registers and
  allows, with the same secret, with its cookie where it is device-bound, device-bound where the handler
  asks for that; and an earlier request of this execution minted that grant with a verified knock.\<close>

theorem caddy_gate_sound:
  assumes "shared_caddy d no_shared = (None, sh0)" and "gate_run ServeHTTP_caddy MintEnrollCode_caddy sh0 evs sh"
    and "ServeHTTP_caddy env j r sh = (Next, sh')"
  shows "\<exists>ip g. clientIP_caddy j r = Inr ip \<and>
    grant_ok (Some (ca_reg j)) (env_now env 1) (CanonServerName (rq_Host r)) ip (grant_cookie r) g \<and>
    (ca_Binding j = BindingIPCookie \<longrightarrow> g_Binding g = BindingIPCookie) \<and>
    (\<exists>evs1 env1 j1 r1 out evs2 sh1 ip1 body nonce rnd t. evs = evs1 @ GateServed env1 j1 r1 out # evs2 \<and>
       gate_run ServeHTTP_caddy MintEnrollCode_caddy sh0 evs1 sh1 \<and> clientIP_caddy j1 r1 = Inr ip1 \<and>
       gate_mints env1 (policy_caddy j1) ip1 r1 (maybeSweep_caddy (env_now env1 0) sh1) body nonce rnd t g)"
  using caddy.passes_sound [OF assms(2) shared_start [OF assms(1)] assms(3)]
  unfolding caddy.gate_minted_def client_caddy_Some policy_caddy_simps by blast

theorem caddy_gate_sound_witness:
  "\<exists>g. grant_ok (Some site_reg) 2000 ''app'' ''192.0.2.1'' [] g \<and>
     (\<exists>env1 j1 r1 ip1 body nonce rnd t.
        gate_mints env1 (policy_caddy j1) ip1 r1 (maybeSweep_caddy (env_now env1 0) site_shared) body nonce rnd t g)"
proof -
  let ?evs = "[GateServed site_env site_caddy (site_request ''POST'' respond_path) (Answer (NoContent [(''Cache-Control'', ''no-store'')]))]"
  obtain ip g evs1 env1 j1 r1 out evs2 sh1 ip1 body nonce rnd t
    where g: "clientIP_caddy site_caddy (site_request ''GET'' ''/'') = Inr ip"
      "grant_ok (Some (ca_reg site_caddy)) (env_now (sample_env 2000 None) 1) (CanonServerName (rq_Host (site_request ''GET'' ''/''))) ip
         (grant_cookie (site_request ''GET'' ''/'')) g"
      and e: "?evs = evs1 @ GateServed env1 j1 r1 out # evs2"
      and run: "gate_run ServeHTTP_caddy MintEnrollCode_caddy site_shared evs1 sh1"
      and m: "gate_mints env1 (policy_caddy j1) ip1 r1 (maybeSweep_caddy (env_now env1 0) sh1) body nonce rnd t g"
    using caddy_gate_sound [OF site_shared_ok site_run site_passes] by blast
  have "evs1 = []" using e by (cases evs1) auto
  with run have "sh1 = site_shared" by (cases rule: gate_run.cases) auto
  moreover have "grant_ok (Some site_reg) 2000 ''app'' ''192.0.2.1'' [] g" using g by (simp add: site_client site_cookie)
  ultimately show ?thesis using m by blast
qed

text \<open>the Traefik plugin passes a request on only for a grant, under the same conditions.\<close>

theorem traefik_gate_sound:
  assumes "shared_traefik d no_shared = (None, sh0)" and "gate_run ServeHTTP_traefik MintEnrollCode_traefik sh0 evs sh"
    and "ServeHTTP_traefik env h r sh = (Next, sh')"
  shows "\<exists>ip g. clientIP_traefik h r = Inr ip \<and>
    grant_ok (Some (jt_reg h)) (env_now env 1) (CanonServerName (rq_Host r)) ip (grant_cookie r) g \<and>
    (tc_Binding (jt_cfg h) = BindingIPCookie \<longrightarrow> g_Binding g = BindingIPCookie) \<and>
    (\<exists>evs1 env1 h1 r1 out evs2 sh1 ip1 body nonce rnd t. evs = evs1 @ GateServed env1 h1 r1 out # evs2 \<and>
       gate_run ServeHTTP_traefik MintEnrollCode_traefik sh0 evs1 sh1 \<and> clientIP_traefik h1 r1 = Inr ip1 \<and>
       gate_mints env1 (policy_traefik h1) ip1 r1 (maybeSweep_traefik (env_now env1 0) sh1) body nonce rnd t g)"
proof -
  have "shared_caddy d no_shared = (None, sh0)" using assms(1) by (simp add: agree)
  moreover have "gp_reg (policy_traefik h) = jt_reg h" "gp_Binding (policy_traefik h) = tc_Binding (jt_cfg h)"
    by (simp_all add: policy_traefik_def)
  ultimately show ?thesis
    using traefik.passes_sound [OF assms(2) shared_start assms(3)]
    unfolding traefik.gate_minted_def client_traefik_Some by simp
qed

lemma site_traefik_serves: "ServeHTTP_traefik env site_traefik r sh = ServeHTTP_caddy env site_caddy r sh"
  by (simp add: ServeHTTP_agrees site_caddy_def)

theorem traefik_gate_sound_witness:
  "\<exists>g. clientIP_traefik site_traefik (site_request ''GET'' ''/'') = Inr ''192.0.2.1'' \<and>
     grant_ok (Some site_reg) 2000 ''app'' ''192.0.2.1'' [] g"
proof -
  let ?evs = "[GateServed site_env site_traefik (site_request ''POST'' respond_path) (Answer (NoContent [(''Cache-Control'', ''no-store'')]))]"
  have start: "shared_traefik (Some (\<lambda>i. 0)) no_shared = (None, site_shared)" using site_shared_ok by (simp add: agree)
  have run: "gate_run ServeHTTP_traefik MintEnrollCode_traefik site_shared ?evs site_knocked"
    using gate_run.served [OF gate_run.start, where serve = ServeHTTP_traefik and mint = MintEnrollCode_traefik, of site_env site_traefik]
      site_served by (simp add: site_traefik_serves)
  have page: "ServeHTTP_traefik (sample_env 2000 None) site_traefik (site_request ''GET'' ''/'') site_knocked =
      (Next, maybeSweep_caddy 2000 site_knocked)"
    using site_passes by (simp add: site_traefik_serves)
  have ip: "clientIP_traefik site_traefik r = Inr ip \<longleftrightarrow> clientIP_caddy site_caddy r = Inr ip" for r ip
    using client_agrees [of site_traefik r] by (simp add: site_caddy_def flip: client_traefik_Some client_caddy_Some)
  obtain ip g where "clientIP_traefik site_traefik (site_request ''GET'' ''/'') = Inr ip"
    and "grant_ok (Some (jt_reg site_traefik)) (env_now (sample_env 2000 None) 1) (CanonServerName (rq_Host (site_request ''GET'' ''/''))) ip
         (grant_cookie (site_request ''GET'' ''/'')) g"
    using traefik_gate_sound [OF start run page] by blast
  moreover have "jt_reg site_traefik = site_reg" by (simp add: site_traefik_def)
  ultimately show ?thesis by (auto simp: ip site_client site_cookie)
qed

section \<open>One gate\<close>

text \<open>C15: the two engines are the same gate. For a configuration whose lifetimes are not negative and fit a Go duration, the Traefik plugin
  is built exactly when Caddy provisions and validates the same options, and the two handlers answer every
  request, in every state, with the same outcome and the same new state.\<close>

theorem engines_agree:
  assumes "durations_fit cfg"
  shows "((\<exists>h. New_traefik d cfg sh = (Inr h, sh')) \<longleftrightarrow>
      (\<exists>j. Provision_caddy d (caddy_options cfg) sh = (Inr j, sh') \<and> Validate_caddy j = Inr ())) \<and>
    (\<forall>h j. New_traefik d cfg sh = (Inr h, sh') \<and> Provision_caddy d (caddy_options cfg) sh = (Inr j, sh') \<longrightarrow>
      (\<forall>env r st. ServeHTTP_traefik env h r st = ServeHTTP_caddy env j r st))"
proof -
  note built = New_Provision_agree [OF assms]
  have converse: "\<exists>h. New_traefik d cfg sh = (Inr h, sh')"
    if "Provision_caddy d (caddy_options cfg) sh = (Inr j, sh')" "Validate_caddy j = Inr ()" for j
  proof -
    let ?h = "\<lparr>jt_cfg = normalize_traefik cfg, jt_reg = ca_reg j, jt_trusted = ca_trusted j\<rparr>"
    have "j = caddy_of ?h" using Provision_caddy_options [OF assms that(1)] .
    then have "New_traefik d cfg sh = (Inr ?h, sh')" using that by (simp add: built)
    then show ?thesis by blast
  qed
  have same: "ServeHTTP_traefik env h r st = ServeHTTP_caddy env j r st"
    if "New_traefik d cfg sh = (Inr h, sh')" "Provision_caddy d (caddy_options cfg) sh = (Inr j, sh')" for h j env r st
  proof -
    have "j = caddy_of h" using that by (simp add: built)
    then show ?thesis by (simp add: ServeHTTP_agrees)
  qed
  show ?thesis using built converse same by blast
qed

theorem engines_agree_witness:
  "\<exists>j. Provision_caddy (Some (\<lambda>i. 0)) (caddy_options site_options) no_shared = (Inr j, site_shared) \<and> Validate_caddy j = Inr () \<and>
     (\<forall>env r st. ServeHTTP_traefik env site_traefik r st = ServeHTTP_caddy env j r st)"
proof -
  have "durations_fit site_options" by (simp add: durations_fit_def)
  then show ?thesis using engines_agree [of site_options "Some (\<lambda>i. 0)" no_shared site_shared] site_New by blast
qed

section \<open>Knocks\<close>

text \<open>C22: what the respond endpoint of the Caddy handler does. A request that is not throttled, whose body decodes, whose nonce
  is fresh and was issued to this host and address, whose token is registered, unexpired and allowed, whose proof is the token's,
  and whose nonce is unspent, is answered 204, spends the nonce and files one grant; every other request gets the uniform denial
  and leaves grants and nonces alone.\<close>

theorem caddy_knock_mints_iff:
  assumes "clientIP_caddy j r = Inr ip" and "CanonServerName (rq_Host r) \<noteq> []" and "rq_Path r = ca_Prefix j @ ''/respond''"
    and "rq_Method r = ''POST''" and "env_draw env 0 \<noteq> None" and "ServeHTTP_caddy env j r sh = (out, sh')"
    and "sw = maybeSweep_caddy (env_now env 0) sh"
  shows "(\<exists>body nonce rnd t g cookie. gate_mints env (policy_caddy j) ip r sw body nonce rnd t g \<and>
      out = Answer (NoContent (cookie @ [(''Cache-Control'', ''no-store'')])) \<and>
      sh_grants sh' = Put (sh_grants sw) (Some g) [oldCookieHash r] \<and>
      sh_nonces sh' = snd (Claim (sh_nonces sw) (B64u rnd) (env_now env 2) (dur_seconds (ca_NonceTTL j)))) \<or>
    (\<forall>body nonce rnd t g. \<not> gate_mints env (policy_caddy j) ip r sw body nonce rnd t g) \<and>
      out = Answer (deny_caddy j) \<and> sh_grants sh' = sh_grants sw \<and> sh_nonces sh' = sh_nonces sw"
proof -
  let ?v = "CanonServerName (rq_Host r)"
  obtain resp where h: "handleRespond_caddy env j r ?v ip sw = (resp, sh')" and out: "out = Answer resp"
    using ServeHTTP_caddy_respond [OF assms(1-4), of env sh] assms(6,7) by (auto split: prod.splits)
  from h show ?thesis
  proof (cases rule: handleRespond_caddy_cases)
    case (minted body nonce rnd t g cookie)
    then have "gate_mints env (policy_caddy j) ip r sw body nonce rnd t g"
      using assms mint_caddy_grant by (simp add: gate_mints_def)
    moreover have "sh_grants sh' = Put (sh_grants sw) (Some g) [oldCookieHash r]"
      "sh_nonces sh' = snd (Claim (sh_nonces sw) (B64u rnd) (env_now env 2) (dur_seconds (ca_NonceTTL j)))"
      using minted(6) by (simp_all add: gate_spent_def gate_counted_def)
    ultimately show ?thesis using minted(5) out by blast
  next
    case denied
    then have "\<not> gate_mints env (policy_caddy j) ip r sw body nonce rnd t g" for body nonce rnd t g
      by (auto simp: gate_mints_def)
    then show ?thesis using denied out by (simp add: deny_caddy_eq)
  next
    case (no_rand rnd)
    then show ?thesis using assms(5) by simp
  qed
qed

theorem caddy_knock_mints_iff_witness:
  "sh_grants site_knocked \<noteq> sh_grants site_swept \<and>
     (\<exists>g. sh_grants site_knocked = Put NewGrantStore (Some g) [oldCookieHash (site_request ''POST'' respond_path)])"
proof -
  have ne: "Put NewGrantStore (Some g) ohs \<noteq> NewGrantStore" for g ohs
  proof
    assume "Put NewGrantStore (Some g) ohs = NewGrantStore"
    then have "abs_grants (Put NewGrantStore (Some g) ohs) (keyFor g) = None" by (simp add: NewGrantStore_def)
    then show False by (simp add: abs_Put)
  qed
  have p: "rq_Path (site_request ''POST'' respond_path) = ca_Prefix site_caddy @ ''/respond''" by (simp add: respond_path_def)
  have "\<exists>g. sh_grants site_knocked = Put (sh_grants site_swept) (Some g) [oldCookieHash (site_request ''POST'' respond_path)]"
    using caddy_knock_mints_iff [OF site_client _ p _ _ site_served, of site_swept] site_mints by (auto simp: sample_env_def)
  then show ?thesis using ne by (metis site_swept_simps(3))
qed

text \<open>A request to the respond endpoint is answered 204 exactly when its knock is worth a grant. A handler for which a
  request is worth none files none, and refuses it at that endpoint.\<close>

lemma respond_path_not_passed:
  assumes "rq_Path r = ca_Prefix j @ ''/respond''"
  shows "ServeHTTP_caddy env j r sh \<noteq> (Next, sh')"
  using assms prefix_path [of "ca_Prefix j" "''respond''"]
  by (simp add: ServeHTTP_caddy_def Let_def split: sum.splits prod.splits)

lemma gate_deny_status: "rs_Status (gate_deny p) \<noteq> 204"
  by (simp add: gate_deny_def interstitial_response_def StatusOnly_def)

lemma respond_accepted:
  assumes "ServeHTTP_caddy env j r sh = (Answer resp, sh')" and "rq_Path r = ca_Prefix j @ ''/respond''" and "rs_Status resp = 204"
  obtains ip body nonce rnd t g where "clientIP_caddy j r = Inr ip"
    and "gate_mints env (policy_caddy j) ip r (maybeSweep_caddy (env_now env 0) sh) body nonce rnd t g"
  using assms(1)
proof (cases rule: ServeHTTP_caddy_cases)
  case (respond ip resp1)
  from respond(6) show thesis
  proof (cases rule: handleRespond_caddy_cases)
    case (minted body nonce rnd t g cookie)
    then have "gate_mints env (policy_caddy j) ip r (maybeSweep_caddy (env_now env 0) sh) body nonce rnd t g"
      using respond mint_caddy_grant by (simp add: gate_mints_def)
    then show thesis using respond that by blast
  qed (use assms(3) respond(1) gate_deny_status in auto)
qed (use assms gate_deny_status in auto)

lemma respond_refused:
  assumes "ServeHTTP_caddy env j r sh = (out, sh')"
    and none: "\<And>ip body nonce rnd t g. \<not> gate_mints env (policy_caddy j) ip r (maybeSweep_caddy (env_now env 0) sh) body nonce rnd t g"
  shows "sh_grants sh' = sh_grants (maybeSweep_caddy (env_now env 0) sh) \<and>
    (rq_Path r = ca_Prefix j @ ''/respond'' \<longrightarrow> out = Answer (deny_caddy j))"
proof -
  have "out = Answer (deny_caddy j)" if path: "rq_Path r = ca_Prefix j @ ''/respond''"
    using assms(1)
  proof (cases rule: ServeHTTP_caddy_cases)
    case pass
    then show ?thesis using respond_path_not_passed [OF path] assms(1) by simp
  next
    case (respond ip resp)
    from respond(6) show ?thesis
    proof (cases rule: handleRespond_caddy_cases)
      case (minted body nonce rnd t g cookie)
      then have "gate_mints env (policy_caddy j) ip r (maybeSweep_caddy (env_now env 0) sh) body nonce rnd t g"
        using respond mint_caddy_grant by (simp add: gate_mints_def)
      then show ?thesis using none by blast
    qed (simp_all add: respond deny_caddy_eq)
  qed (use path in \<open>simp_all add: deny_caddy_eq\<close>)
  then show ?thesis using caddy.files [OF assms(1)] none by blast
qed

text \<open>a nonce works once in the Traefik plugin. After a request to the respond endpoint that was answered 204, whatever else the
  process serves, no request with the same nonce files a grant, at any handler whose nonce lifetime is not longer, and at the
  respond endpoint it gets the uniform denial, as long as the clock does not run backwards.\<close>

theorem traefik_nonce_single_use:
  assumes "shared_inv sh" and "ServeHTTP_traefik env h r sh = (Answer resp, sh1)" and "rq_Path r = tc_Prefix (jt_cfg h) @ ''/respond''"
    and "rs_Status resp = 204" and "sends_nonce env r nonce"
    and "gate_run ServeHTTP_traefik MintEnrollCode_traefik sh1 evs sh2"
    and "ServeHTTP_traefik env' h' r' sh2 = (out, sh3)" and "sends_nonce env' r' nonce"
    and "is_i64 (env_now env 2)" and "env_now env 2 + tc_NonceTTL (jt_cfg h) < 2 ^ 63" and "is_i64 (env_now env' 2)"
    and "env_now env' 0 \<le> env_now env' 2"
    and "\<And>e. e \<in> set evs \<Longrightarrow> gate_time e \<le> env_now env' 2" and "tc_NonceTTL (jt_cfg h') \<le> tc_NonceTTL (jt_cfg h)"
  shows "sh_grants sh3 = sh_grants (maybeSweep_traefik (env_now env' 0) sh2) \<and>
    (rq_Path r' = tc_Prefix (jt_cfg h') @ ''/respond'' \<longrightarrow> out = Answer (deny_traefik h'))"
proof -
  let ?j = "caddy_of h" and ?j' = "caddy_of h'"
  have sends: "nonce1 = nonce2" if "gate_mints e p ip q sh body nonce1 rnd t g" "sends_nonce e q nonce2" for e p ip q sh body nonce1 nonce2 rnd t g
    using that by (auto simp: gate_mints_def gate_verified_def sends_nonce_def)
  have first: "ServeHTTP_caddy env ?j r sh = (Answer resp, sh1)" "rq_Path r = ca_Prefix ?j @ ''/respond''"
    using assms(2,3) by (simp_all add: ServeHTTP_agrees)
  obtain ip body rnd t g where c: "clientIP_caddy ?j r = Inr ip"
    and m: "gate_mints env (policy_caddy ?j) ip r (maybeSweep_caddy (env_now env 0) sh) body nonce rnd t g"
    using respond_accepted [OF first assms(4)] sends [OF _ assms(5)] by metis
  have again: "\<not> gate_mints env' (policy_traefik h') ip' r' (maybeSweep_traefik (env_now env' 0) sh2) body' nonce rnd' t' g'" for ip' body' rnd' t' g'
    by (rule traefik.single_use [OF assms(1), of h r ip env body nonce rnd t g evs])
      (use c m assms in \<open>simp_all add: policy_agrees agree flip: client_agrees, simp_all add: policy_traefik_def\<close>)
  have "\<not> gate_mints env' (policy_caddy ?j') ip' r' (maybeSweep_caddy (env_now env' 0) sh2) body' nonce' rnd' t' g'" for ip' body' nonce' rnd' t' g'
    using again sends [OF _ assms(8)] by (metis policy_agrees engine_agrees(3))
  then show ?thesis
    using respond_refused [of env' ?j' r' sh2 out sh3] assms(7) by (simp add: ServeHTTP_agrees agree)
qed

theorem traefik_nonce_single_use_witness:
  "\<exists>sh3. ServeHTTP_traefik (sample_env 1020 (Some sample_body)) site_traefik (site_request ''POST'' respond_path) site_knocked =
     (Answer (deny_traefik site_traefik), sh3)"
proof -
  let ?e = "sample_env 1020 (Some sample_body)" and ?r = "site_request ''POST'' respond_path"
  obtain out sh3 where s: "ServeHTTP_traefik ?e site_traefik ?r site_knocked = (out, sh3)" by fastforce
  have n: "sends_nonce (sample_env now (Some sample_body)) ?r sample_nonce" for now
    by (simp add: sends_nonce_def sample_env_def sample_body_def B64uDecode_B64u)
  have first: "ServeHTTP_traefik site_env site_traefik ?r site_shared = (Answer (NoContent [(''Cache-Control'', ''no-store'')]), site_knocked)"
    using site_served by (simp add: site_traefik_serves)
  have p: "rq_Path ?r = tc_Prefix (jt_cfg site_traefik) @ ''/respond''" by (simp add: site_traefik_def respond_path_def)
  have "out = Answer (deny_traefik site_traefik)"
    using traefik_nonce_single_use [OF site_inv first p _ n gate_run.start s n] p
    by (simp add: is_i64_def site_traefik_def NoContent_def)
  then show ?thesis using s by blast
qed

section \<open>Refusals\<close>

text \<open>every answer of the Caddy handler that is not a success is one and the same denial: the host's 404 in stealth mode,
  the interstitial otherwise. The only successes are 204 from the three knock endpoints and the registration page, which a
  stealth site does not have.\<close>

theorem caddy_denials_uniform:
  assumes "ServeHTTP_caddy env j r sh = (Answer resp, sh')"
  shows "resp = deny_caddy j \<or>
    rs_Status resp = 204 \<and> rq_Path r \<in> {ca_Prefix j @ ''/challenge'', ca_Prefix j @ ''/respond'', ca_Prefix j @ ''/enroll''} \<or>
    rs_Status resp = 200 \<and> rq_Path r = ca_Prefix j @ ''/register'' \<and> ca_FailureMode j \<noteq> failStealth_caddy"
proof -
  have nc: "rs_Status (NoContent hs) = 204" for hs by (simp add: NoContent_def)
  from assms show ?thesis
  proof (cases rule: ServeHTTP_caddy_cases)
    case (respond ip resp1)
    from respond(6) show ?thesis using respond
      by (cases rule: handleRespond_caddy_cases) (auto simp: deny_caddy_eq nc)
  next
    case (enroll ip resp1)
    from enroll(6) show ?thesis using enroll
      by (cases rule: handleEnroll_caddy_cases) (auto simp: deny_caddy_eq gate_released_def nc)
  next
    case (challenge ip resp1)
    then show ?thesis using handleChallenge_caddy_cases [OF challenge(6)] by (auto simp: deny_caddy_eq nc)
  next
    case register
    then show ?thesis by (simp add: handleRegister_caddy_def)
  qed (simp_all add: deny_caddy_eq)
qed

theorem caddy_denials_uniform_witness:
  "\<exists>sh'. ServeHTTP_caddy (sample_env 2000 None) site_caddy (site_request ''GET'' ''/'') site_shared = (Answer (deny_caddy site_caddy), sh')"
proof -
  have "\<not> IsAllowed (sh_grants (maybeSweep_caddy 2000 site_shared)) ''app'' ''192.0.2.1'' (Some site_reg) 2000 [] = Some g" for g
    using caddy_sweep.sweep_grants [OF site_inv] IsAllowed_stored shared_start(2) [OF site_shared_ok] by fastforce
  then have "fst (ServeHTTP_caddy (sample_env 2000 None) site_caddy (site_request ''GET'' ''/'') site_shared) \<noteq> Next"
    using ServeHTTP_caddy_passes [of "sample_env 2000 None" site_caddy "site_request ''GET'' ''/''" site_shared]
    by (auto simp: site_client site_cookie) (metis prod.collapse)
  then obtain resp sh' where s: "ServeHTTP_caddy (sample_env 2000 None) site_caddy (site_request ''GET'' ''/'') site_shared = (Answer resp, sh')"
    by (metis outcome.exhaust prod.collapse)
  then show ?thesis using caddy_denials_uniform [OF s] by simp
qed

section \<open>Addresses\<close>

text \<open>The entries of all forwarding headers, in order.\<close>

definition forwarded_chain :: "Request \<Rightarrow> string list" where
  "forwarded_chain r = concat (map (\<lambda>v. Split v CHR '','') (Header_Values r ''X-Forwarded-For''))"

text \<open>C25: which address a grant is keyed on at the Caddy handler. Compare a request with the one its proxies alone would have made of it. Without
  \<open>trust_forwarded\<close>, or from a peer that is not a trusted proxy, no header changes the address. Behind a trusted proxy, entries a client puts in front of the
  chain change nothing as long as the proxies' part names an address that is not one of theirs. Where that part names none, as for a client
  that is itself inside \<open>trusted_proxies\<close>, there is no address without the forged entries, and with them theirs decides.\<close>

theorem caddy_forged_entries:
  assumes "rq_RemoteAddr r' = rq_RemoteAddr r"
  shows "(\<not> ca_TrustForwarded j \<or> (\<exists>peer. parseHostAddr_caddy (rq_RemoteAddr r) = Some peer \<and> \<not> isTrusted_caddy j peer) \<longrightarrow>
      clientIP_caddy j r' = clientIP_caddy j r) \<and>
    (\<forall>forged. forwarded_chain r' = forged @ forwarded_chain r \<and> list_ex (usable_caddy j) (forwarded_chain r) \<longrightarrow>
      clientIP_caddy j r' = clientIP_caddy j r) \<and>
    (\<forall>forged peer. ca_TrustForwarded j \<and> parseHostAddr_caddy (rq_RemoteAddr r) = Some peer \<and> isTrusted_caddy j peer \<and>
      forwarded_chain r' = forged @ forwarded_chain r \<and> \<not> list_ex (usable_caddy j) (forwarded_chain r) \<longrightarrow>
      clientIP_caddy j r = Inl CaddyNoClient \<and> clientIP_caddy j r' = walk_caddy j (rev forged))"
proof -
  have ip: "clientIP_caddy j r = (case parseHostAddr_caddy (rq_RemoteAddr r) of
        None \<Rightarrow> Inl CaddyBadPeer
      | Some peer \<Rightarrow> if \<not> ca_TrustForwarded j \<or> \<not> isTrusted_caddy j peer
          then map_sum CaddyCanon id (CanonIP (AddrString peer) (ca_IPv6Prefix j) 32)
          else walk_caddy j (rev (forwarded_chain r)))" for r
    unfolding clientIP_caddy_def forwarded_chain_def by (rule refl)
  have "walk_caddy j (rev (forwarded_chain r')) = walk_caddy j (rev (forwarded_chain r))"
    if "forwarded_chain r' = forged @ forwarded_chain r" "list_ex (usable_caddy j) (forwarded_chain r)" for forged
    using that walk_caddy_append [of j "rev (forwarded_chain r)" "rev forged"] by simp
  moreover have "walk_caddy j (rev (forwarded_chain r)) = Inl CaddyNoClient" "walk_caddy j (rev (forwarded_chain r')) = walk_caddy j (rev forged)"
    if "forwarded_chain r' = forged @ forwarded_chain r" "\<not> list_ex (usable_caddy j) (forwarded_chain r)" for forged
    using that walk_caddy_skips [of j "rev (forwarded_chain r)"] walk_caddy_skips [of j "rev (forwarded_chain r)" "[]"] by simp_all
  ultimately show ?thesis unfolding ip assms by (auto split: option.splits)
qed

text \<open>Behind the proxy \<^verbatim>\<open>10.0.0.1\<close>: a forged entry of an outside client loses, one of a client inside \<^verbatim>\<open>10.0.0.0/8\<close> wins.\<close>

definition proxied :: "string \<Rightarrow> Request" where
  "proxied chain = (site_request ''GET'' ''/'')\<lparr>rq_RemoteAddr := ''10.0.0.1:5000'', rq_Header := [(''X-Forwarded-For'', chain)]\<rparr>"

theorem caddy_forged_entries_witness:
  "let j = site_caddy\<lparr>ca_TrustForwarded := True, ca_trusted := [Prefix (Addr4 0x0a000000) 8]\<rparr> in
     clientIP_caddy j (proxied ''192.0.2.1'') = Inr ''192.0.2.1'' \<and> clientIP_caddy j (proxied ''198.51.100.7,192.0.2.1'') = Inr ''192.0.2.1'' \<and>
     clientIP_caddy j (proxied ''10.0.0.5'') = Inl CaddyNoClient \<and> clientIP_caddy j (proxied ''198.51.100.7,10.0.0.5'') = Inr ''198.51.100.7''"
proof -
  let ?j = "site_caddy\<lparr>ca_TrustForwarded := True, ca_trusted := [Prefix (Addr4 0x0a000000) 8]\<rparr>"
  have addr: "parseHostAddr_caddy ''10.0.0.1:5000'' = Some (Addr4 0x0a000001)" "parseHostAddr_caddy ''10.0.0.5'' = Some (Addr4 0x0a000005)"
    "parseHostAddr_caddy ''192.0.2.1'' = Some (Addr4 0xc0000201)" "parseHostAddr_caddy ''198.51.100.7'' = Some (Addr4 0xc6336407)" by code_simp+
  have "Contains_addr (Prefix (Addr4 0x0a000000) 8) (Unmap (Addr4 0x0a000001))" "Contains_addr (Prefix (Addr4 0x0a000000) 8) (Unmap (Addr4 0x0a000005))"
    "\<not> Contains_addr (Prefix (Addr4 0x0a000000) 8) (Unmap (Addr4 0xc0000201))" "\<not> Contains_addr (Prefix (Addr4 0x0a000000) 8) (Unmap (Addr4 0xc6336407))"
    by code_simp+
  then have t: "isTrusted_caddy ?j (Addr4 0x0a000001)" "isTrusted_caddy ?j (Addr4 0x0a000005)" "\<not> isTrusted_caddy ?j (Addr4 0xc0000201)"
    "\<not> isTrusted_caddy ?j (Addr4 0xc6336407)" by (simp_all add: isTrusted_caddy_def)
  have c: "CanonIP (AddrString (Addr4 0xc0000201)) 128 32 = Inr ''192.0.2.1''" "CanonIP (AddrString (Addr4 0xc6336407)) 128 32 = Inr ''198.51.100.7''"
    by code_simp+
  have s: "Split ''192.0.2.1'' CHR '','' = [''192.0.2.1'']" "Split ''10.0.0.5'' CHR '','' = [''10.0.0.5'']"
    "Split ''198.51.100.7,192.0.2.1'' CHR '','' = [''198.51.100.7'', ''192.0.2.1'']"
    "Split ''198.51.100.7,10.0.0.5'' CHR '','' = [''198.51.100.7'', ''10.0.0.5'']" by code_simp+
  have "CanonicalHeaderKey ''X-Forwarded-For'' = ''X-Forwarded-For''" by code_simp
  then have f: "forwarded_chain (proxied chain) = Split chain CHR '',''" "rq_RemoteAddr (proxied chain) = ''10.0.0.1:5000''" for chain
    by (simp_all add: forwarded_chain_def proxied_def Header_Values_def)
  have o: "clientIP_caddy ?j (proxied ''192.0.2.1'') = Inr ''192.0.2.1''"
    by (simp add: clientIP_caddy_def f [unfolded forwarded_chain_def] s addr t c)
  have "clientIP_caddy ?j (proxied ''198.51.100.7,192.0.2.1'') = clientIP_caddy ?j (proxied ''192.0.2.1'')"
    using caddy_forged_entries [of "proxied ''198.51.100.7,192.0.2.1''" "proxied ''192.0.2.1''" ?j] by (simp add: f s addr t usable_caddy_def)
  moreover have "clientIP_caddy ?j (proxied ''10.0.0.5'') = Inl CaddyNoClient"
    "clientIP_caddy ?j (proxied ''198.51.100.7,10.0.0.5'') = walk_caddy ?j [''198.51.100.7'']"
    using caddy_forged_entries [of "proxied ''198.51.100.7,10.0.0.5''" "proxied ''10.0.0.5''" ?j] by (simp_all add: f s addr t usable_caddy_def)
  ultimately show ?thesis using o by (simp add: addr t c Let_def)
qed

section \<open>Provisioning\<close>

text \<open>C26: a Caddy handler that is provisioned and validated has everything the request path relies on: a prefix that starts with one slash
  and ends with none, a failure mode and a binding the code knows, an IPv6 prefix length between 1 and 128, a positive rate limit, trusted
  proxies where it trusts forwarding headers, and a registry that holds exactly the configured kids, each with a secret of 16 bytes or more
  that was configured for it, and allows exactly the kids of the allow-list, on every host.\<close>

theorem caddy_provision_sound:
  assumes "Provision_caddy d j sh = (Inr h, sh')" and "Validate_caddy h = Inr ()"
  shows "(\<exists>x. ca_Prefix h = ''/'' @ x \<and> Trim x ''/'' = x) \<and> ca_FailureMode h \<in> {failInterstitial_caddy, failStealth_caddy} \<and>
    ca_Binding h \<in> {BindingIP, BindingIPCookie} \<and> 0 < ca_IPv6Prefix h \<and> ca_IPv6Prefix h \<le> 128 \<and> 0 < ca_RateLimit h \<and>
    (ca_TrustForwarded h \<longrightarrow> ca_trusted h \<noteq> []) \<and>
    (\<forall>kid. Lookup (Some (ca_reg h)) kid \<noteq> None \<longleftrightarrow> kid \<in> ct_Kid ` set (ca_Tokens j)) \<and>
    (\<forall>kid t. Lookup (Some (ca_reg h)) kid = Some t \<longrightarrow> (\<exists>c \<in> set (ca_Tokens j). ct_Kid c = kid \<and> token_for_caddy c t)) \<and>
    (\<forall>kid svc. AllowedForService (Some (ca_reg h)) kid svc \<longleftrightarrow> ''*'' \<in> set (ca_Allow j) \<or> kid \<in> set (ca_Allow j))"
proof -
  obtain tokens where t: "fold_sum token_step_caddy (ca_Tokens j) mempty = Inr tokens"
    and h: "h = (defaults_caddy j)\<lparr>ca_trusted := ca_trusted h,
              ca_reg := NewRegistry (Some tokens) (Some (mput mempty ''*'' (allow_list (ca_Allow j))))\<rparr>"
    and tr: "\<not> (ca_TrustForwarded j \<and> ca_trusted h = [])"
    using assms(1) unfolding Provision_caddy_Inr_iff by blast
  have reg: "ca_reg h = NewRegistry (Some tokens) (Some (mput mempty ''*'' (allow_list (ca_Allow j))))"
    by (subst h) simp
  note opts = Provision_caddy_options_kept [OF assms(1)]
  have look: "Lookup (Some (ca_reg h)) kid = mget tokens kid" for kid by (simp add: reg Lookup_def NewRegistry_def)
  have "mget tokens kid \<noteq> None \<longleftrightarrow> kid \<in> ct_Kid ` set (ca_Tokens j)" for kid
    using tokens_caddy [OF t] by (metis image_eqI mget_mempty not_None_eq option.distinct(1))
  moreover have "\<exists>c \<in> set (ca_Tokens j). ct_Kid c = kid \<and> token_for_caddy c tok" if "mget tokens kid = Some tok" for kid tok
    using tokens_caddy(1) [OF t that] by simp
  moreover have "AllowedForService (Some (ca_reg h)) kid svc \<longleftrightarrow> ''*'' \<in> set (ca_Allow j) \<or> kid \<in> set (ca_Allow j)" for kid svc
    unfolding reg by (rule AllowedForService_list)
  moreover have "\<exists>x. ca_Prefix h = ''/'' @ x \<and> Trim x ''/'' = x" by (simp add: opts defaults_caddy_eq Trim_idem)
  moreover have "0 < ca_IPv6Prefix h \<and> ca_IPv6Prefix h \<le> 128" "0 < ca_RateLimit h" "ca_TrustForwarded h \<longrightarrow> ca_trusted h \<noteq> []"
    using tr by (auto simp: opts defaults_caddy_eq)
  ultimately show ?thesis using assms(2) look by (auto simp: Validate_caddy_iff)
qed

lemma site_Provision:
  "Provision_caddy (Some (\<lambda>i. 0)) (caddy_options site_options) no_shared = (Inr site_caddy, site_shared)"
  "Validate_caddy site_caddy = Inr ()"
  using New_Provision_agree [of site_options "Some (\<lambda>i. 0)" no_shared site_traefik site_shared] site_New
  by (simp_all add: durations_fit_def site_caddy_def)

theorem caddy_provision_sound_witness:
  "AllowedForService (Some (ca_reg site_caddy)) ''laptop'' ''app'' \<and> Lookup (Some (ca_reg site_caddy)) ''phone'' = None"
proof -
  have o: "ca_Allow (caddy_options site_options) = [''*'']" "ct_Kid ` set (ca_Tokens (caddy_options site_options)) = {''laptop''}"
    by (simp_all add: site_options_def token_of_traefik_def)
  note p = caddy_provision_sound [OF site_Provision]
  have "(Lookup (Some (ca_reg site_caddy)) ''phone'' \<noteq> None) = (''phone'' \<in> ct_Kid ` set (ca_Tokens (caddy_options site_options)))"
    "AllowedForService (Some (ca_reg site_caddy)) ''laptop'' ''app'' \<longleftrightarrow>
       ''*'' \<in> set (ca_Allow (caddy_options site_options)) \<or> ''laptop'' \<in> set (ca_Allow (caddy_options site_options))"
    using p by blast+
  then show ?thesis unfolding o by simp
qed

lemma unverified_caddy:
  assumes "is_i64 (env_now env 2)" and "dur_seconds (ca_NonceTTL h) \<le> 0"
  shows "\<not> gate_mints env (policy_caddy h) ip r sh body nonce rnd t g"
  using assms verified_positive [OF assms(1)] unfolding gate_mints_def gate_verified_def policy_caddy_simps by fastforce

text \<open>C40: lifetimes that are not whole positive seconds lock the site. A \<open>nonce_ttl\<close> that truncates to no seconds, such as \<^verbatim>\<open>500ms\<close> or a negative duration,
  passes provisioning, and no request ever files a grant: the respond endpoint refuses everything.\<close>

theorem caddy_subsecond_ttl_locks_out:
  assumes "Provision_caddy d j sh = (Inr h, sh')" and "ca_NonceTTL j \<noteq> 0" and "dur_seconds (ca_NonceTTL j) \<le> 0"
    and "ServeHTTP_caddy env h r st = (out, st')" and "is_i64 (env_now env 2)"
  shows "sh_grants st' = sh_grants (maybeSweep_caddy (env_now env 0) st) \<and>
    (rq_Path r = ca_Prefix h @ ''/respond'' \<longrightarrow> out = Answer (deny_caddy h))"
proof (rule respond_refused [OF assms(4)])
  have "dur_seconds (ca_NonceTTL h) \<le> 0" using assms(2,3) by (simp add: Provision_caddy_options_kept [OF assms(1)] defaults_caddy_eq)
  then show "\<not> gate_mints env (policy_caddy h) ip r (maybeSweep_caddy (env_now env 0) st) body nonce rnd t g" for ip body nonce rnd t g
    using unverified_caddy [OF assms(5)] by blast
qed

theorem caddy_subsecond_ttl_locks_out_witness:
  "\<exists>h. Provision_caddy (Some (\<lambda>i. 0)) ((caddy_options site_options)\<lparr>ca_NonceTTL := 500000000\<rparr>) no_shared = (Inr h, site_shared) \<and>
     Validate_caddy h = Inr () \<and>
     (\<exists>st'. ServeHTTP_caddy site_env h (site_request ''POST'' respond_path) site_shared = (Answer (deny_caddy h), st'))"
proof -
  let ?h = "site_caddy\<lparr>ca_NonceTTL := 500000000\<rparr>"
  have p: "Provision_caddy (Some (\<lambda>i. 0)) ((caddy_options site_options)\<lparr>ca_NonceTTL := 500000000\<rparr>) no_shared = (Inr ?h, site_shared)"
    by (rule Provision_caddy_NonceTTL [OF site_Provision(1)]) simp
  have v: "Validate_caddy ?h = Inr ()" using site_Provision(2) by (simp add: Validate_caddy_iff)
  have d: "dur_seconds 500000000 = 0" by code_simp
  obtain out st' where s: "ServeHTTP_caddy site_env ?h (site_request ''POST'' respond_path) site_shared = (out, st')" by fastforce
  have "rq_Path (site_request ''POST'' respond_path) = ca_Prefix ?h @ ''/respond''" by (simp add: respond_path_def)
  then have "out = Answer (deny_caddy ?h)"
    using caddy_subsecond_ttl_locks_out [OF p _ _ s] d by (simp add: is_i64_def)
  then show ?thesis using p v s by blast
qed

text \<open>C16: with a negative nonce lifetime the engines differ. The plugin replaces it by its default of 60 seconds; Caddy, which asks only whether it is zero,
  provisions and validates the same options, keeps the lifetime, and refuses every knock.\<close>

theorem negative_lifetime_engines_differ:
  assumes "New_traefik d cfg sh = (Inr h, sh')" and "tc_NonceTTL cfg < 0" and "- (2 ^ 63) \<le> tc_NonceTTL cfg * 10 ^ 9"
  shows "tc_NonceTTL (jt_cfg h) = 60 \<and>
    (\<exists>j. Provision_caddy d (caddy_options cfg) sh = (Inr j, sh') \<and> Validate_caddy j = Inr () \<and> dur_seconds (ca_NonceTTL j) = tc_NonceTTL cfg \<and>
      (\<forall>env r st. is_i64 (env_now env 2) \<and> rq_Path r = ca_Prefix j @ ''/respond'' \<longrightarrow> fst (ServeHTTP_caddy env j r st) = Answer (deny_caddy j)))"
proof -
  obtain j where j: "Provision_caddy d (caddy_options cfg) sh = (Inr j, sh')" "Validate_caddy j = Inr ()"
    using New_provisions [OF assms(1)] by blast
  have "i64 (tc_NonceTTL cfg * 10 ^ 9) = tc_NonceTTL cfg * 10 ^ 9" using assms(2,3) by (intro nanos_fit) simp_all
  then have n: "dur_seconds (ca_NonceTTL j) = tc_NonceTTL cfg"
    using assms(2) dur_seconds_whole by (simp add: Provision_caddy_options_kept [OF j(1)] defaults_caddy_eq)
  have "fst (ServeHTTP_caddy env j r st) = Answer (deny_caddy j)" if "is_i64 (env_now env 2)" "rq_Path r = ca_Prefix j @ ''/respond''" for env r st
    using respond_refused [OF prod.collapse [symmetric], of env j r st] unverified_caddy [of env j] that n assms(2) by simp
  moreover have "jt_cfg h = normalize_traefik cfg" using assms(1) unfolding New_traefik_Inr_iff by (cases h) auto
  ultimately show ?thesis using j n assms(2) by (auto simp: normalize_traefik_eq)
qed

text \<open>The site with the lifetime -1: the same knock opens the plugin and not Caddy.\<close>

theorem negative_lifetime_engines_differ_witness:
  "\<exists>j. New_traefik (Some (\<lambda>i. 0)) (site_options\<lparr>tc_NonceTTL := -1\<rparr>) no_shared = (Inr site_traefik, site_shared) \<and>
     Provision_caddy (Some (\<lambda>i. 0)) (caddy_options (site_options\<lparr>tc_NonceTTL := -1\<rparr>)) no_shared = (Inr j, site_shared) \<and>
     fst (ServeHTTP_traefik site_env site_traefik (site_request ''POST'' respond_path) site_shared) =
       Answer (NoContent [(''Cache-Control'', ''no-store'')]) \<and>
     fst (ServeHTTP_caddy site_env j (site_request ''POST'' respond_path) site_shared) = Answer (deny_caddy j)"
proof -
  let ?cfg = "site_options\<lparr>tc_NonceTTL := -1\<rparr>"
  have "normalize_traefik ?cfg = normalize_traefik site_options" by (simp add: normalize_traefik_eq)
  then have new: "New_traefik (Some (\<lambda>i. 0)) ?cfg no_shared = (Inr site_traefik, site_shared)"
    using site_New by (simp add: New_traefik_Inr_iff)
  obtain j where j: "Provision_caddy (Some (\<lambda>i. 0)) (caddy_options ?cfg) no_shared = (Inr j, site_shared)"
    "\<forall>env r st. is_i64 (env_now env 2) \<and> rq_Path r = ca_Prefix j @ ''/respond'' \<longrightarrow> fst (ServeHTTP_caddy env j r st) = Answer (deny_caddy j)"
    using negative_lifetime_engines_differ [OF new] by auto
  have "ca_Prefix j = ca_Prefix site_caddy"
    using Provision_caddy_options_kept [OF j(1)] Provision_caddy_options_kept [OF site_Provision(1)]
    by (simp add: defaults_caddy_eq caddy_options_def caddy_of_def Let_def)
  then have "rq_Path (site_request ''POST'' respond_path) = ca_Prefix j @ ''/respond''" by (simp add: respond_path_def)
  then show ?thesis using new j site_served by (auto simp: site_traefik_serves is_i64_def)
qed

section \<open>Enrollment\<close>

text \<open>the Caddy handler releases a secret exactly for a live enrollment code of a token it registers. Such a request is answered with that
  token's secret and the code is gone; every other request to the endpoint gets the uniform denial.\<close>

theorem caddy_secret_released_iff:
  assumes "clientIP_caddy j r = Inr ip" and "CanonServerName (rq_Host r) \<noteq> []" and "rq_Path r = ca_Prefix j @ ''/enroll''"
    and "rq_Method r = ''POST''" and "ServeHTTP_caddy env j r sh = (out, sh')" and "sw = maybeSweep_caddy (env_now env 0) sh"
  shows "(\<exists>code ec t. gate_enrolls env (policy_caddy j) (CanonServerName (rq_Host r)) ip r sw code ec t \<and>
      out = Answer (gate_released ec t) \<and> (\<forall>now. Peek (sh_codes sh') code now = None)) \<or>
    (\<forall>code ec t. \<not> gate_enrolls env (policy_caddy j) (CanonServerName (rq_Host r)) ip r sw code ec t) \<and> out = Answer (deny_caddy j)"
proof -
  let ?v = "CanonServerName (rq_Host r)"
  have "ServeHTTP_caddy env j r sh = (let (resp, sh') = handleEnroll_caddy env j r ?v ip sw in (Answer resp, sh'))"
    using assms(1-4,6) prefix_path [of "ca_Prefix j" "''enroll''"] by (simp add: ServeHTTP_caddy_def Let_def case_prod_beta')
  then obtain resp where h: "handleEnroll_caddy env j r ?v ip sw = (resp, sh')" and out: "out = Answer resp"
    using assms(5) by (auto split: prod.splits)
  have gone: "Peek (sh_codes (gate_consumed env code (gate_counted env p svc ip' sw))) code now = None" for code p svc ip' now
    by (simp add: gate_consumed_def Peek_def es_codes_Consume)
  show ?thesis
  proof (cases "\<exists>code ec t. gate_enrolls env (policy_caddy j) ?v ip r sw code ec t")
    case True
    then obtain code ec t where e: "gate_enrolls env (policy_caddy j) ?v ip r sw code ec t" by blast
    then have "handleEnroll_caddy env j r ?v ip sw =
        (gate_released ec t, gate_consumed env code (gate_counted env (policy_caddy j) ?v ip sw))"
      by (auto simp: gate_enrolls_def handleEnroll_caddy_eq)
    then have "out = Answer (gate_released ec t)" "\<forall>now. Peek (sh_codes sh') code now = None" using h out gone by auto
    then show ?thesis using e by blast
  next
    case False
    from h have "resp = deny_caddy j"
      by (cases rule: handleEnroll_caddy_cases) (use False in \<open>auto simp: deny_caddy_eq\<close>)
    then show ?thesis using False out by blast
  qed
qed

theorem caddy_secret_released_iff_witness:
  "\<exists>sh'. ServeHTTP_caddy ((sample_env 1010 None)\<lparr>env_enroll := \<lambda>n b. Some \<lparr>eb_Code = ''c0de''\<rparr>\<rparr>) site_caddy
     (site_request ''POST'' ''/.well-known/jit-access/enroll'')
     (site_shared\<lparr>sh_codes := Put_es NewEnrollStore ''c0de'' \<lparr>ec_Kid = ''laptop'', ec_Origins = [], ec_Exp = 2000\<rparr>\<rparr>) =
     (Answer (gate_released \<lparr>ec_Kid = ''laptop'', ec_Origins = [], ec_Exp = 2000\<rparr> (token_of laptop)), sh')"
proof -
  let ?e = "(sample_env 1010 None)\<lparr>env_enroll := \<lambda>n b. Some \<lparr>eb_Code = ''c0de''\<rparr>\<rparr>" and ?ec = "\<lparr>ec_Kid = ''laptop'', ec_Origins = [], ec_Exp = 2000\<rparr>"
  let ?sh = "site_shared\<lparr>sh_codes := Put_es NewEnrollStore ''c0de'' ?ec\<rparr>" and ?r = "site_request ''POST'' ''/.well-known/jit-access/enroll''"
  let ?sw = "maybeSweep_caddy (env_now ?e 0) ?sh"
  have codes: "mget (es_codes (sh_codes ?sw)) ''c0de'' = Some ?ec"
    by (simp add: maybeSweep_caddy_def snd_Sweep_es mget_mpurge Put_es_def)
  have "gate_rate_ok ?e (policy_caddy site_caddy) ''app'' ''192.0.2.1'' ?sw"
    by (rule site_rate) simp
  then have "gate_enrolls ?e (policy_caddy site_caddy) ''app'' ''192.0.2.1'' ?r ?sw ''c0de'' ?ec (token_of laptop)"
    using codes site_permits [of "''app''" 0] by (simp add: gate_enrolls_def Peek_def permits_def)
  moreover have "ec = ?ec \<and> t = token_of laptop"
    if "gate_enrolls ?e (policy_caddy site_caddy) ''app'' ''192.0.2.1'' ?r ?sw code ec t" for code ec t
    using that codes site_permits [of "''app''" 0] by (auto simp: gate_enrolls_def Peek_def permits_def split: option.splits if_splits)
  moreover obtain out sh' where s: "ServeHTTP_caddy ?e site_caddy ?r ?sh = (out, sh')" by fastforce
  moreover have "rq_Path ?r = ca_Prefix site_caddy @ ''/enroll''" by simp
  ultimately have "out = Answer (gate_released ?ec (token_of laptop))"
    using caddy_secret_released_iff [OF site_client _ _ _ s refl] unfolding site_request_simps by blast
  then show ?thesis using s by blast
qed

section \<open>A legitimate client gets in\<close>

text \<open>C24: challenge, proof, page. At the Caddy handler a client that is not throttled, fetches a challenge, answers it in time with the proof of a token
  that is registered and allowed, and then asks for a page before its grant expires, showing the cookie it was sent where there is one, is answered 204, 204,
  and its request is passed on, with the sweeps the requests trigger in between.\<close>

theorem caddy_client_admitted:
  assumes inv: "shared_inv sh"
    and client: "clientIP_caddy j r1 = Inr ip" "clientIP_caddy j r2 = Inr ip" "clientIP_caddy j r3 = Inr ip"
    and host: "CanonServerName (rq_Host r1) = svc" "CanonServerName (rq_Host r2) = svc" "CanonServerName (rq_Host r3) = svc" "svc \<noteq> []"
    and ch: "rq_Path r1 = ca_Prefix j @ ''/challenge''" "rq_Method r1 = ''GET''" "ServeHTTP_caddy e1 j r1 sh = (out1, sh1)"
      "gate_rate_ok e1 (policy_caddy j) svc ip (maybeSweep_caddy (env_now e1 0) sh)" "env_draw e1 0 = Some f"
      "mget (ns_spent (sh_nonces sh)) (B64u (map f [0..<16])) = None"
    and answer: "\<And>nonce hs. out1 = Answer (NoContent ((''X-Jit-Nonce'', B64u nonce) # hs)) \<Longrightarrow>
      rb_Nonce body = B64u nonce \<and> rb_Proof body = B64u (BuildProof (tok_Secret t) svc (rb_Kid body) nonce)"
    and re: "rq_Path r2 = ca_Prefix j @ ''/respond''" "rq_Method r2 = ''POST''" "ServeHTTP_caddy e2 j r2 sh1 = (out2, sh2)"
      "gate_rate_ok e2 (policy_caddy j) svc ip (maybeSweep_caddy (env_now e2 0) sh1)" "env_respond e2 4096 (rq_Body r2) = Some body"
      "env_draw e2 0 \<noteq> None"
    and time: "0 \<le> env_now e1 2" "env_now e1 2 \<le> env_now e2 2" "env_now e2 2 < env_now e1 2 + dur_seconds (ca_NonceTTL j)"
      "env_now e2 2 < 2 ^ 63" "env_now e2 2 + dur_seconds (ca_GrantTTL j) < 2 ^ 63" "0 \<le> dur_seconds (ca_GrantTTL j)"
      "env_now e3 0 \<le> env_now e3 1" "env_now e3 1 < env_now e2 2 + dur_seconds (ca_GrantTTL j)"
    and token: "permits (Some (ca_reg j)) (rb_Kid body) ''*'' (env_now e2 2) t" "permits (Some (ca_reg j)) (rb_Kid body) svc (env_now e3 1) t"
    and page: "\<not> (rq_Path r3 = ca_Prefix j \<or> HasPrefix (rq_Path r3) (ca_Prefix j @ ''/''))"
      "\<And>g cookie. mint_caddy e2 j svc ip (rb_Kid body) t = Inr (g, cookie) \<Longrightarrow> shows_cookie r3 g"
  shows "\<exists>hs1 hs2. out1 = Answer (NoContent hs1) \<and> out2 = Answer (NoContent hs2) \<and> fst (ServeHTTP_caddy e3 j r3 sh2) = Next"
proof -
  let ?s1 = "maybeSweep_caddy (env_now e1 0) sh" and ?s2 = "maybeSweep_caddy (env_now e2 0) sh1" and ?p = "policy_caddy j"
  obtain nonce where n: "IssueNonce (sh_nonceKey ?s1) (word_of_int (env_now e1 2)) (rand16 f) svc ip (ca_IPv6Prefix j) = Inr nonce"
    and h1: "handleChallenge_caddy e1 j svc ip ?s1 = (NoContent [(''X-Jit-Nonce'', B64u nonce), (''X-Jit-Ts'', FormatInt (env_now e1 2)),
        (''Cache-Control'', ''no-store'')], gate_counted e1 ?p svc ip ?s1)"
    by (rule challenge_caddy_answers [OF clientIP_caddy_canonical [OF client(1)] ch(4,5)])
  have out1: "out1 = Answer (NoContent [(''X-Jit-Nonce'', B64u nonce), (''X-Jit-Ts'', FormatInt (env_now e1 2)), (''Cache-Control'', ''no-store'')])"
    and sh1: "sh1 = gate_counted e1 ?p svc ip ?s1"
    using ServeHTTP_caddy_challenge [OF client(1) _ ch(1,2), of e1 sh] ch(3) h1 host by auto
  have inv1: "shared_inv sh1" unfolding sh1 by (intro shared_inv_counted caddy_sweep.sweep_inv inv)
  have body: "client_answers body t svc nonce" using answer [OF out1] by (simp add: client_answers_def)
  have fresh: "mget (ns_spent (sh_nonces ?s2)) (B64u (rand16 f)) = None"
    by (intro unspent_sweep) (simp add: sh1 unspent_sweep ch(6))
  have v: "gate_verified e2 ?p svc ip body nonce (rand16 f) t ?s2"
    by (rule gate_verifies [where ts = "env_now e1 2"]) (use n time token(1) body fresh in \<open>simp_all add: sh1\<close>)
  obtain g cookie where m: "mint_caddy e2 j svc ip (rb_Kid body) t = Inr (g, cookie)" using mint_caddy_total re(6) by blast
  have r2: "out2 = Answer (NoContent (cookie @ [(''Cache-Control'', ''no-store'')]))"
    and sh2: "sh2 = (gate_spent e2 ?p (rand16 f) (gate_counted e2 ?p svc ip ?s2))\<lparr>sh_grants := Put (sh_grants ?s2) (Some g) [oldCookieHash r2]\<rparr>"
    using handleRespond_caddy_mints [OF re(4,5) v m] ServeHTTP_caddy_respond [OF client(2) _ re(1,2), of e2 sh1] re(3) host by auto
  have inv2: "shared_inv sh2" using ServeHTTP_caddy_keeps [OF re(3) inv1] by simp
  note g = mint_caddy_grant [OF m]
  have exp: "g_Exp g = env_now e2 2 + dur_seconds (ca_GrantTTL j)" using g time i64_id by (simp add: gate_grant_def is_i64_def)
  have "IsAllowed (sh_grants (maybeSweep_caddy (env_now e3 0) sh2)) svc ip (Some (ca_reg j)) (env_now e3 1) (grant_cookie r3) = Some g"
    by (rule minted_admits [OF inv2 time(7) g _ token(2) page(2) [OF m]]) (use exp time(8) in \<open>simp_all add: sh2\<close>)
  then have "fst (ServeHTTP_caddy e3 j r3 sh2) = Next"
    using ServeHTTP_caddy_page [OF client(3) _ page(1), of e3 sh2 g] host g by (simp add: gate_grant_def)
  then show ?thesis using out1 r2 by blast
qed

theorem caddy_client_admitted_witness:
  "fst (ServeHTTP_caddy (sample_env 2000 None) site_caddy (site_request ''GET'' ''/'')
     (snd (ServeHTTP_caddy site_env site_caddy (site_request ''POST'' respond_path)
       (snd (ServeHTTP_caddy (sample_env 1000 None) site_caddy (site_request ''GET'' challenge_path) site_shared))))) = Next"
proof -
  let ?e1 = "sample_env 1000 None" and ?r1 = "site_request ''GET'' challenge_path" and ?r2 = "site_request ''POST'' respond_path"
  obtain out1 sh1 where s1: "ServeHTTP_caddy ?e1 site_caddy ?r1 site_shared = (out1, sh1)" by fastforce
  obtain out2 sh2 where s2: "ServeHTTP_caddy site_env site_caddy ?r2 sh1 = (out2, sh2)" by fastforce
  have p: "rq_Path ?r1 = ca_Prefix site_caddy @ ''/challenge''" "rq_Path ?r2 = ca_Prefix site_caddy @ ''/respond''"
    by (simp_all add: challenge_path_def respond_path_def)
  let ?sw = "maybeSweep_caddy 1000 site_shared"
  have rate: "gate_rate_ok ?e1 (policy_caddy site_caddy) ''app'' ''192.0.2.1'' ?sw"
    by (rule site_rate) simp
  obtain nonce where n: "IssueNonce (sh_nonceKey ?sw) (word_of_int (env_now ?e1 2)) (rand16 (\<lambda>j. 0)) ''app'' ''192.0.2.1'' 128 = Inr nonce"
    and h1: "handleChallenge_caddy ?e1 site_caddy ''app'' ''192.0.2.1'' ?sw = (NoContent [(''X-Jit-Nonce'', B64u nonce), (''X-Jit-Ts'', FormatInt (env_now ?e1 2)),
        (''Cache-Control'', ''no-store'')], gate_counted ?e1 (policy_caddy site_caddy) ''app'' ''192.0.2.1'' ?sw)"
    using challenge_caddy_answers [OF clientIP_caddy_canonical [OF site_client] rate, of "\<lambda>j. 0"] by auto
  have nonce: "nonce = sample_nonce" using n sample_issued by (simp add: site_key)
  have o1: "out1 = Answer (NoContent [(''X-Jit-Nonce'', B64u sample_nonce), (''X-Jit-Ts'', FormatInt 1000), (''Cache-Control'', ''no-store'')])"
    and sh1: "sh1 = gate_counted ?e1 (policy_caddy site_caddy) ''app'' ''192.0.2.1'' ?sw"
    using ServeHTTP_caddy_challenge [OF site_client _ p(1), of ?e1 site_shared] s1 h1 nonce by auto
  have rate2: "gate_rate_ok site_env (policy_caddy site_caddy) ''app'' ''192.0.2.1'' (maybeSweep_caddy 1010 sh1)"
    by (simp add: sh1 gate_rate_ok_def gate_counted_def maybeSweep_caddy_def sweepEvery_caddy_def site_shared_def sweep_shared_def Let_def
        Sweep_rl_def sweepLocked_def mpurge_def NewRateLimiter_def DefaultRateLimitEntries_def Allow_def i64_def)
  have "\<exists>hs1 hs2. out1 = Answer (NoContent hs1) \<and> out2 = Answer (NoContent hs2) \<and>
      fst (ServeHTTP_caddy (sample_env 2000 None) site_caddy (site_request ''GET'' ''/'') sh2) = Next"
  proof (rule caddy_client_admitted [OF site_inv site_client site_client site_client _ _ _ _ p(1) _ s1 _ _ _ _ p(2) _ s2, where t = "token_of laptop"])
    show "rb_Nonce sample_body = B64u nonce' \<and>
        rb_Proof sample_body = B64u (BuildProof (tok_Secret (token_of laptop)) ''app'' (rb_Kid sample_body) nonce')"
      if "out1 = Answer (NoContent ((''X-Jit-Nonce'', B64u nonce') # hs))" for nonce' hs
    proof -
      have "B64u nonce' = B64u sample_nonce" using that o1 by (simp add: NoContent_def)
      then have "nonce' = sample_nonce" by (simp only: b64u.enc_inject)
      then show ?thesis by (simp add: sample_body_def)
    qed
    show "shows_cookie (site_request ''GET'' ''/'') g"
      if "mint_caddy site_env site_caddy ''app'' ''192.0.2.1'' (rb_Kid sample_body) (token_of laptop) = Inr (g, cookie)" for g cookie
      using mint_caddy_grant [OF that] by (simp add: shows_cookie_def gate_grant_def site_cookie)
  qed (use rate rate2 site_permits in \<open>simp_all add: sample_body_def site_shared_def NewNonceStore_def HasPrefix_def\<close>)
  then show ?thesis using s1 s2 by simp
qed

end
