(* ===== verification/MiddlewareProps.thy ===== *)
theory MiddlewareProps
  imports MiddlewareProgs Adapters
begin

text \<open>
  The properties of the middlewares under every interleaving of their requests. The programs of the Caddy handler meet the contract \<open>gate_programs\<close>; those of the
  Traefik plugin are the same on translated options.
\<close>

section \<open>The Caddy handler meets the contract\<close>

abbreviation caddy_effect :: "bytes \<Rightarrow> bool \<Rightarrow> JITAccess_caddy gate_job \<Rightarrow> Shared \<Rightarrow> Shared \<Rightarrow> bool" where
  "caddy_effect \<equiv> gate_effect client_caddy policy_caddy"

lemma guarantees_sweep_caddy:
  "guarantees (keyed key) (caddy_effect key True (Serve env j r)) p \<Longrightarrow>
     guarantees (keyed key) (caddy_effect key True (Serve env j r)) (maybeSweep_caddy_prog (env_now env 0) p)"
  by (simp add: maybeSweep_caddy_prog_def gate_effect.intros)

text \<open>A request that came in at or after \<open>until\<close> sweeps nothing before it has stamped \<open>lastSweep\<close> with its time.\<close>

lemma late_sweep_caddy:
  "until \<le> env_now env 0 \<Longrightarrow> guarantees (keyed key) (caddy_effect key False (Serve env j r)) p \<Longrightarrow>
     guarantees (keyed key) (caddy_effect key False (Serve env j r)) (within (swept_before until) (maybeSweep_caddy_prog (env_now env 0) p))"
  by (simp add: maybeSweep_caddy_prog_def within_update gate_effect.intros guarantees_within)

lemma guarantees_allow_caddy:
  "(\<And>ok. guarantees (keyed key) (caddy_effect key swept (Serve env j r)) (k ok)) \<Longrightarrow>
     guarantees (keyed key) (caddy_effect key swept (Serve env j r)) (allow_caddy_prog env j svc ip k)"
  by (simp add: allow_caddy_prog_def case_prod_beta gate_effect.throttles)

lemma guarantees_challenge_caddy: "guarantees (keyed key) (caddy_effect key swept (Serve env j r)) (challenge_caddy_prog env j svc ip)"
  by (auto simp: challenge_caddy_prog_def gate_effect.reads Let_def split: sum.splits intro!: guarantees_allow_caddy)

lemma guarantees_accept_caddy:
  assumes "clientIP_caddy j r = Inr ip" and "gate_knock key env (policy_caddy j) ip r body nonce rnd t"
  shows "guarantees (keyed key) (caddy_effect key swept (Serve env j r))
    (accept_caddy_prog env j r (CanonServerName (rq_Host r)) ip (rb_Kid body) t rnd)"
  using assms gate_effect.claims [of client_caddy j r ip key env policy_caddy body nonce rnd t]
    gate_effect.files [of client_caddy j r ip key env policy_caddy body nonce rnd t] mint_caddy_grant
  by (auto simp: accept_caddy_prog_def gate_spent_def case_prod_beta split: sum.splits)

lemma verified_knock:
  assumes "rq_Path r = ca_Prefix j @ ''/respond''" and "rq_Method r = ''POST''" and "CanonServerName (rq_Host r) \<noteq> []"
    and "env_respond env 4096 (rq_Body r) = Some body" and "B64uDecode (rb_Nonce body) = Inr nonce" and "B64uDecode (rb_Proof body) = Inr tag"
    and "VerifyNonce key nonce (CanonServerName (rq_Host r)) ip (env_now env 2) (dur_seconds (ca_NonceTTL j)) (ca_IPv6Prefix j) = (True, rnd)"
    and "Lookup (Some (ca_reg j)) (rb_Kid body) = Some t" and "\<not> IsExpired (Some t) (env_now env 2)" and "allowedForService_caddy j (rb_Kid body)"
    and "VerifyProof (tok_Secret t) (CanonServerName (rq_Host r)) (rb_Kid body) nonce tag"
  shows "gate_knock key env (policy_caddy j) ip r body nonce rnd t"
  using assms by (simp add: gate_knock_def allowedForService_caddy_def)

lemma guarantees_verify_caddy:
  assumes "clientIP_caddy j r = Inr ip" and "rq_Path r = ca_Prefix j @ ''/respond''" and "rq_Method r = ''POST''"
    and "CanonServerName (rq_Host r) \<noteq> []" and "env_respond env 4096 (rq_Body r) = Some body"
  shows "guarantees (keyed key) (caddy_effect key swept (Serve env j r)) (verify_caddy_prog env j r (CanonServerName (rq_Host r)) ip body)"
proof -
  have key: "sh_nonceKey sh = key" if "keyed key sh" for sh using that by (simp add: keyed_def)
  show ?thesis
    by (auto simp: verify_caddy_prog_def gate_effect.reads Let_def key split: sum.splits prod.splits option.splits
        intro!: guarantees_accept_caddy [OF assms(1) verified_knock [OF assms(2-5)]])
qed

lemma guarantees_enroll_caddy: "guarantees (keyed key) (caddy_effect key swept (Serve env j r)) (enroll_caddy_prog env j r svc ip)"
  using gate_effect.consumes [of client_caddy policy_caddy key swept env j r]
  by (auto simp: enroll_caddy_prog_def gate_effect.reads gate_consumed_def case_prod_beta split: option.splits intro!: guarantees_allow_caddy)

lemma guarantees_check_caddy: "guarantees (keyed key) (caddy_effect key swept (Serve env j r)) (check_caddy_prog env j r svc ip)"
  by (auto simp: check_caddy_prog_def gate_effect.reads Let_def split: option.splits)

lemma guarantees_served_caddy:
  "guarantees (keyed key) (caddy_effect key swept (Serve env j r)) (respond_caddy_prog env j r (CanonServerName (rq_Host r)) ip)"
  if "clientIP_caddy j r = Inr ip" "rq_Path r = ca_Prefix j @ ''/respond''" "rq_Method r = ''POST''" "CanonServerName (rq_Host r) \<noteq> []"
  using that by (auto simp: respond_caddy_prog_def split: option.splits intro!: guarantees_allow_caddy guarantees_verify_caddy)

lemmas guarantees_endpoints_caddy =
  guarantees_challenge_caddy guarantees_served_caddy guarantees_enroll_caddy guarantees_check_caddy

lemma guarantees_serve_caddy: "guarantees (keyed key) (caddy_effect key True (Serve env j r)) (ServeHTTP_caddy_prog env j r)"
  unfolding ServeHTTP_caddy_prog_def Let_def
  by (rule guarantees_sweep_caddy) (auto simp: guarantees_endpoints_caddy split: sum.splits)

lemma late_serve_caddy:
  "until \<le> env_now env 0 \<Longrightarrow>
     guarantees (keyed key) (caddy_effect key False (Serve env j r)) (within (swept_before until) (ServeHTTP_caddy_prog env j r))"
  unfolding ServeHTTP_caddy_prog_def Let_def
  by (rule late_sweep_caddy) (auto simp: guarantees_endpoints_caddy split: sum.splits)

lemma keyed_shared: "keyed key sh \<Longrightarrow> snd (shared_caddy d sh) = sh"
  by (simp add: keyed_def shared_caddy_def)

lemma guarantees_mint_caddy: "guarantees (keyed key) (caddy_effect key swept (MintCode d c kid origins exp)) (MintEnrollCode_caddy_prog d c kid origins exp)"
  by (simp add: MintEnrollCode_caddy_prog_def keyed_shared gate_effect.reads gate_effect.codes)

lemma mint_brings_caddy: "brings_once (keyed key) (code_absent c) (MintEnrollCode_caddy_prog d c kid origins exp)"
  by (simp add: MintEnrollCode_caddy_prog_def keyed_shared)

text \<open>What a program has answered.\<close>

lemma after_sweep_caddy: "after (maybeSweep_caddy_prog now p) ss = Reply out \<Longrightarrow> \<exists>ss1 ss2. ss = ss1 @ ss2 \<and> after p ss2 = Reply out"
  by (auto simp: maybeSweep_caddy_prog_def after_update after_modify split: if_splits) (metis append_Cons append_Nil)+

lemma sweep_takes_caddy: "takes ok I T p \<Longrightarrow> takes ok I T (maybeSweep_caddy_prog now p)"
  by (simp add: maybeSweep_caddy_prog_def)

lemma allow_takes_caddy: "(\<And>b. takes ok I T (k b)) \<Longrightarrow> takes ok I T (allow_caddy_prog env j svc ip k)"
  by (simp add: allow_caddy_prog_def)

lemma knocks_not_passed:
  "after (challenge_caddy_prog env j svc ip) ss \<noteq> Reply Next" "after (respond_caddy_prog env j r svc ip) ss \<noteq> Reply Next"
  "after (enroll_caddy_prog env j r svc ip) ss \<noteq> Reply Next"
proof -
  let ?never = "takes (\<lambda>out. out = Next) (\<lambda>s. True) (\<lambda>s s'. False)"
  have "?never (challenge_caddy_prog env j svc ip)"
    by (auto simp: challenge_caddy_prog_def Let_def split: sum.splits intro!: allow_takes_caddy)
  moreover have "?never (accept_caddy_prog env j r svc ip kid tok rnd)" for kid tok rnd
    by (auto simp: accept_caddy_prog_def split: sum.splits)
  then have "?never (verify_caddy_prog env j r svc ip body)" for body
    by (auto simp: verify_caddy_prog_def Let_def split: sum.splits prod.splits option.splits)
  then have "?never (respond_caddy_prog env j r svc ip)"
    by (auto simp: respond_caddy_prog_def split: option.splits intro!: allow_takes_caddy)
  moreover have "?never (enroll_caddy_prog env j r svc ip)"
    by (auto simp: enroll_caddy_prog_def split: option.splits intro!: allow_takes_caddy)
  ultimately show "after (challenge_caddy_prog env j svc ip) ss \<noteq> Reply Next" "after (respond_caddy_prog env j r svc ip) ss \<noteq> Reply Next"
    "after (enroll_caddy_prog env j r svc ip) ss \<noteq> Reply Next"
    by (simp_all add: after_takes)
qed

lemma serve_passes_caddy:
  assumes "after (ServeHTTP_caddy_prog env j r) ss = Reply Next"
  shows "\<exists>sh ip g. sh \<in> set ss \<and> clientIP_caddy j r = Inr ip \<and>
    IsAllowed (sh_grants sh) (CanonServerName (rq_Host r)) ip (Some (ca_reg j)) (env_now env 1) (grant_cookie r) = Some g \<and>
    (ca_Binding j = BindingIPCookie \<longrightarrow> g_Binding g = BindingIPCookie)"
proof -
  have check: "\<exists>sh g. sh \<in> set ss' \<and> IsAllowed (sh_grants sh) svc ip (Some (ca_reg j)) (env_now env 1) (grant_cookie r) = Some g \<and>
      (ca_Binding j = BindingIPCookie \<longrightarrow> g_Binding g = BindingIPCookie)"
    if found: "after (check_caddy_prog env j r svc ip) ss' = Reply Next" for svc ip ss'
  proof -
    obtain sh ss'' where ss': "ss' = sh # ss''"
      and a: "after (case IsAllowed (sh_grants (sh :: Shared)) svc ip (Some (ca_reg j)) (env_now env 1) (grant_cookie r) of
          Some g \<Rightarrow> if ca_Binding j = BindingIPCookie \<and> g_Binding g \<noteq> BindingIPCookie then Reply (Answer (deny_caddy j)) else Reply Next
        | None \<Rightarrow> Reply (Answer (deny_caddy j))) ss'' = Reply Next"
      using found unfolding check_caddy_prog_def Let_def after_get grant_cookie_def grantCookieName_caddy by blast
    then show ?thesis
      by (cases "IsAllowed (sh_grants sh) svc ip (Some (ca_reg j)) (env_now env 1) (grant_cookie r)")
        (auto simp: after_Reply split: if_splits)
  qed
  obtain ss1 ss2 where ss: "ss = ss1 @ ss2" and a: "after (let service = CanonServerName (rq_Host r); p = ca_Prefix j
      in case clientIP_caddy j r of
           Inl err \<Rightarrow> Reply (Answer (deny_caddy j))
         | Inr ip \<Rightarrow>
             if service = [] then Reply (Answer (deny_caddy j))
             else if rq_Path r = p \<or> HasPrefix (rq_Path r) (p @ ''/'') then
               (if rq_Path r = p @ ''/challenge'' \<and> rq_Method r = ''GET'' then challenge_caddy_prog env j service ip
                else if rq_Path r = p @ ''/respond'' \<and> rq_Method r = ''POST'' then respond_caddy_prog env j r service ip
                else if rq_Path r = p @ ''/enroll'' \<and> rq_Method r = ''POST'' then enroll_caddy_prog env j r service ip
                else if rq_Path r = p @ ''/register'' \<and> rq_Method r = ''GET'' then Reply (Answer (handleRegister_caddy j))
                else Reply (Answer (deny_caddy j)))
             else check_caddy_prog env j r service ip) ss2 = Reply Next"
    using after_sweep_caddy [OF assms [unfolded ServeHTTP_caddy_prog_def]] by blast
  obtain ip where ip: "clientIP_caddy j r = Inr ip" and "after (check_caddy_prog env j r (CanonServerName (rq_Host r)) ip) ss2 = Reply Next"
    using a knocks_not_passed by (auto simp: Let_def after_Reply split: sum.splits if_splits)
  then show ?thesis using check ss by fastforce
qed

lemma deny_not_accepted [simp]: "rs_Status (deny_caddy j) \<noteq> 204"
  by (simp add: deny_caddy_eq gate_deny_def StatusOnly_def interstitial_response_def)

lemma respond_takes_caddy:
  assumes "rq_Path r = ca_Prefix j @ ''/respond''"
    and T: "\<And>ip body nonce rnd t sh. gate_knock key env (policy_caddy j) ip r body nonce rnd t \<Longrightarrow>
      fst (Claim (sh_nonces sh) (B64u rnd) (env_now env 2) (dur_seconds (ca_NonceTTL j))) \<Longrightarrow> T sh (gate_spent env (policy_caddy j) rnd sh)"
  shows "takes accepted (keyed key) T (ServeHTTP_caddy_prog env j r)"
proof -
  have key: "sh_nonceKey sh = key" if "keyed key sh" for sh using that by (simp add: keyed_def)
  have accept: "takes accepted (keyed key) T (accept_caddy_prog env j r (CanonServerName (rq_Host r)) ip (rb_Kid body) t rnd)"
    if "gate_knock key env (policy_caddy j) ip r body nonce rnd t" for ip body nonce t rnd
    using T [OF that] by (auto simp: accept_caddy_prog_def case_prod_beta gate_spent_def)
  have verify: "takes accepted (keyed key) T (verify_caddy_prog env j r (CanonServerName (rq_Host r)) ip body)"
    if "rq_Method r = ''POST''" "CanonServerName (rq_Host r) \<noteq> []" "env_respond env 4096 (rq_Body r) = Some body" for ip body
    using accept [OF verified_knock [OF assms(1) that]]
    by (auto simp: verify_caddy_prog_def Let_def key split: sum.splits prod.splits option.splits)
  show ?thesis
    unfolding ServeHTTP_caddy_prog_def Let_def
    by (rule sweep_takes_caddy)
      (auto simp: assms(1) prefix_path [of _ "''respond''", simplified] respond_caddy_prog_def split: sum.splits option.splits
        intro!: allow_takes_caddy verify)
qed

lemma enroll_takes_caddy:
  assumes "rq_Path r = ca_Prefix j @ ''/enroll''"
    and T: "\<And>body ec sh. env_enroll env 4096 (rq_Body r) = Some body \<Longrightarrow> fst (Consume (sh_codes sh) (eb_Code body) (env_now env 3)) = Some ec \<Longrightarrow>
      T sh (gate_consumed env (eb_Code body) sh)"
  shows "takes accepted (keyed key) T (ServeHTTP_caddy_prog env j r)"
proof -
  have "takes accepted (keyed key) T (enroll_caddy_prog env j r svc ip)" for svc ip
    using T by (auto simp: enroll_caddy_prog_def case_prod_beta gate_consumed_def split: option.splits intro!: allow_takes_caddy)
  then show ?thesis
    unfolding ServeHTTP_caddy_prog_def Let_def
    by (intro sweep_takes_caddy) (auto simp: assms(1) prefix_path [of _ "''enroll''", simplified] split: sum.splits)
qed

interpretation caddy_progs: gate_programs ServeHTTP_caddy_prog MintEnrollCode_caddy_prog client_caddy policy_caddy
proof unfold_locales
  fix r j key env
  show "takes accepted (keyed key)
      (\<lambda>sh sh'. \<exists>ip body nonce rnd t. gate_knock key env (policy_caddy j) ip r body nonce rnd t \<and>
         fst (Claim (sh_nonces sh) (B64u rnd) (env_now env 2) (gp_NonceTTL (policy_caddy j))) \<and> sh' = gate_spent env (policy_caddy j) rnd sh)
      (ServeHTTP_caddy_prog env j r)" if "rq_Path r = gp_Prefix (policy_caddy j) @ ''/respond''"
    using that by (intro respond_takes_caddy) (simp, unfold policy_caddy_simps, blast)
  show "takes accepted (keyed key)
      (\<lambda>sh sh'. \<exists>body ec. env_enroll env 4096 (rq_Body r) = Some body \<and>
         fst (Consume (sh_codes sh) (eb_Code body) (env_now env 3)) = Some ec \<and> sh' = gate_consumed env (eb_Code body) sh)
      (ServeHTTP_caddy_prog env j r)" if "rq_Path r = gp_Prefix (policy_caddy j) @ ''/enroll''"
    using that by (intro enroll_takes_caddy) auto
qed (use guarantees_serve_caddy late_serve_caddy guarantees_mint_caddy mint_brings_caddy serve_passes_caddy in simp_all)

lemma progs_agree:
  "ServeHTTP_traefik_prog = (\<lambda>env h. ServeHTTP_caddy_prog env (caddy_of h))" "MintEnrollCode_traefik_prog = MintEnrollCode_caddy_prog"
  by (intro ext; simp add: serve_prog_agrees mint_prog_agrees)+

interpretation traefik_progs: gate_programs ServeHTTP_traefik_prog MintEnrollCode_traefik_prog client_traefik policy_traefik
  unfolding progs_agree engine_agrees(4,5) by (rule caddy_progs.rename)

section \<open>Only a grant opens the gate\<close>

abbreviation caddy_execution :: "Shared \<Rightarrow> (Shared, outcome, JITAccess_caddy gate_job) system list \<Rightarrow> bool" where
  "caddy_execution \<equiv> gate_execution ServeHTTP_caddy_prog MintEnrollCode_caddy_prog"

abbreviation traefik_execution :: "Shared \<Rightarrow> (Shared, outcome, JITAccess_traefik gate_job) system list \<Rightarrow> bool" where
  "traefik_execution \<equiv> gate_execution ServeHTTP_traefik_prog MintEnrollCode_traefik_prog"

text \<open>Every interleaving keeps the shared state well formed, with the nonce key it was initialized with.\<close>

lemma middleware_concurrent_invariant:
  assumes "shared_caddy d no_shared = (None, sh0)"
  shows "caddy_execution sh0 tr \<Longrightarrow> sys \<in> set tr \<Longrightarrow> shared_inv (fst sys) \<and> sh_nonceKey (fst sys) = sh_nonceKey sh0"
    and "traefik_execution sh0 tr' \<Longrightarrow> sys' \<in> set tr' \<Longrightarrow> shared_inv (fst sys') \<and> sh_nonceKey (fst sys') = sh_nonceKey sh0"
  using caddy_progs.shared_inv_kept traefik_progs.shared_inv_kept shared_start(1) [OF assms] by blast+

text \<open>C13: the Caddy handler passes a request on only for a grant, under every interleaving. Whatever requests run at the same time, at whatever handlers a
  reload puts in place, where a request is passed on it has a client address, and its goroutine found in the table a grant for exactly its host and that
  address, unexpired, backed by a token this handler registers and allows, with the same secret, with its cookie where it is
  device-bound, device-bound where the handler asks for that. It found the grant after any moment \<open>n\<close> at which the request had not arrived, and some
  request that had arrived by then had made it, with a knock that verified under the nonce key and the options of the handler it went to.\<close>

theorem caddy_concurrent_gate_sound:
  assumes "shared_caddy d no_shared = (None, sh0)" and "caddy_execution sh0 tr" and "n < length tr" and "length (snd (tr ! n)) \<le> i"
    and "i < length (snd (last tr))" and "snd (last tr) ! i = (Serve env j r, Reply Next)"
  shows "\<exists>m ip g. n < m \<and> m < length tr \<and> clientIP_caddy j r = Inr ip \<and> (\<exists>k. abs_grants (sh_grants (fst (tr ! m))) k = Some g) \<and>
    grant_ok (Some (ca_reg j)) (env_now env 1) (CanonServerName (rq_Host r)) ip (grant_cookie r) g \<and>
    (ca_Binding j = BindingIPCookie \<longrightarrow> g_Binding g = BindingIPCookie) \<and>
    (\<exists>env1 j1 r1 ip1 body nonce rnd t. Serve env1 j1 r1 \<in> jobs_of (tr ! m) \<and> clientIP_caddy j1 r1 = Inr ip1 \<and>
       gate_knock (sh_nonceKey sh0) env1 (policy_caddy j1) ip1 r1 body nonce rnd t \<and>
       gate_grant env1 (policy_caddy j1) (CanonServerName (rq_Host r1)) ip1 (rb_Kid body) t g)"
  using caddy_progs.passes_sound [OF assms(2) shared_start [OF assms(1)] assms(3-6)]
  unfolding knocked_for_by client_caddy_Some policy_caddy_simps .

text \<open>C14: the Traefik plugin passes a request on only for a grant, under every interleaving, in the same sense.\<close>

theorem traefik_concurrent_gate_sound:
  assumes "shared_traefik d no_shared = (None, sh0)" and "traefik_execution sh0 tr" and "n < length tr" and "length (snd (tr ! n)) \<le> i"
    and "i < length (snd (last tr))" and "snd (last tr) ! i = (Serve env h r, Reply Next)"
  shows "\<exists>m ip g. n < m \<and> m < length tr \<and> clientIP_traefik h r = Inr ip \<and> (\<exists>k. abs_grants (sh_grants (fst (tr ! m))) k = Some g) \<and>
    grant_ok (Some (jt_reg h)) (env_now env 1) (CanonServerName (rq_Host r)) ip (grant_cookie r) g \<and>
    (tc_Binding (jt_cfg h) = BindingIPCookie \<longrightarrow> g_Binding g = BindingIPCookie) \<and>
    (\<exists>env1 h1 r1 ip1 body nonce rnd t. Serve env1 h1 r1 \<in> jobs_of (tr ! m) \<and> clientIP_traefik h1 r1 = Inr ip1 \<and>
       gate_knock (sh_nonceKey sh0) env1 (policy_traefik h1) ip1 r1 body nonce rnd t \<and>
       gate_grant env1 (policy_traefik h1) (CanonServerName (rq_Host r1)) ip1 (rb_Kid body) t g)"
proof -
  have start: "shared_caddy d no_shared = (None, sh0)" using assms(1) by (simp add: agree)
  have p: "gp_reg (policy_traefik h) = jt_reg h" "gp_Binding (policy_traefik h) = tc_Binding (jt_cfg h)"
    by (simp_all add: policy_traefik_def)
  show ?thesis
    using traefik_progs.passes_sound [OF assms(2) shared_start [OF start] assms(3-6)] unfolding knocked_for_by client_traefik_Some p .
qed

text \<open>The site of \<open>Adapters\<close>: a knock, then a page.\<close>

definition site_knock :: "'h \<Rightarrow> 'h gate_job" where
  "site_knock h = Serve site_env h (site_request ''POST'' respond_path)"

definition site_page :: "'h \<Rightarrow> 'h gate_job" where
  "site_page h = Serve (sample_env 2000 None) h (site_request ''GET'' ''/'')"

lemma site_traefik_prog: "ServeHTTP_traefik_prog env site_traefik r = ServeHTTP_caddy_prog env site_caddy r"
  by (simp add: serve_prog_agrees site_caddy_def)

lemma site_execution:
  assumes "gate_code srv mnt (site_knock h) = ServeHTTP_caddy_prog site_env site_caddy (site_request ''POST'' respond_path)"
    and "gate_code srv mnt (site_page h) = ServeHTTP_caddy_prog (sample_env 2000 None) site_caddy (site_request ''GET'' ''/'')"
  shows "\<exists>tr n. gate_execution srv mnt site_shared tr \<and> n < length tr \<and> length (snd (tr ! n)) \<le> 1 \<and>
    snd (last tr) = [(site_knock h, Reply (Answer (NoContent [(''Cache-Control'', ''no-store'')]))), (site_page h, Reply Next)]"
proof -
  let ?code = "gate_code srv mnt" and ?start = "\<lambda>sh j. True"
  have k: "alone (?code (site_knock h)) site_shared = (Some (Answer (NoContent [(''Cache-Control'', ''no-store'')])), site_knocked)"
    by (simp add: assms alone_serve_caddy site_served)
  have p: "alone (?code (site_page h)) site_knocked = (Some Next, maybeSweep_caddy 2000 site_knocked)"
    by (simp add: assms alone_serve_caddy site_passes)
  obtain tr1 where tr1: "grun ?code ?start site_shared tr1" "last tr1 = in_turn ?code [site_knock h] (site_shared, [])"
    using begin_in_turn [of ?code ?start "[site_knock h]" site_shared] by auto
  then have l: "last tr1 = (site_knocked, [(site_knock h, Reply (Answer (NoContent [(''Cache-Control'', ''no-store'')])))])" by (simp add: k)
  obtain tr2 where tr2: "grun ?code ?start site_shared (tr1 @ tr2)" "last (tr1 @ tr2) = in_turn ?code [site_page h] (last tr1)"
    using in_turn_runs [OF tr1(1), of "[site_page h]"] by auto
  have "0 < length tr1" "(tr1 @ tr2) ! (length tr1 - 1) = last tr1"
    using execution_nonempty [OF tr1(1)] by (simp_all add: nth_append last_conv_nth)
  then have "length tr1 - 1 < length (tr1 @ tr2)" "length (snd ((tr1 @ tr2) ! (length tr1 - 1))) \<le> 1" using l by (linarith | simp)+
  then show ?thesis using tr2 by (intro exI [of _ "tr1 @ tr2"] exI [of _ "length tr1 - 1"]) (simp add: l p)
qed

theorem caddy_concurrent_gate_sound_witness:
  "\<exists>tr n. caddy_execution site_shared tr \<and> snd (last tr) ! 1 = (site_page site_caddy, Reply Next) \<and>
     (\<exists>m g. n < m \<and> m < length tr \<and> (\<exists>k. abs_grants (sh_grants (fst (tr ! m))) k = Some g) \<and>
        grant_ok (Some site_reg) 2000 ''app'' ''192.0.2.1'' [] g)"
proof -
  obtain tr n where tr: "caddy_execution site_shared tr" "n < length tr" "length (snd (tr ! n)) \<le> 1"
    "snd (last tr) = [(site_knock site_caddy, Reply (Answer (NoContent [(''Cache-Control'', ''no-store'')]))), (site_page site_caddy, Reply Next)]"
    using site_execution [of ServeHTTP_caddy_prog MintEnrollCode_caddy_prog site_caddy] by (auto simp: site_knock_def site_page_def)
  have p: "1 < length (snd (last tr))"
    "snd (last tr) ! 1 = (Serve (sample_env 2000 None) site_caddy (site_request ''GET'' ''/''), Reply Next)"
    using tr(4) by (simp_all add: site_page_def)
  obtain m ip g where "n < m" "m < length tr" "clientIP_caddy site_caddy (site_request ''GET'' ''/'') = Inr ip"
    "\<exists>k. abs_grants (sh_grants (fst (tr ! m))) k = Some g"
    "grant_ok (Some (ca_reg site_caddy)) (env_now (sample_env 2000 None) 1) (CanonServerName (rq_Host (site_request ''GET'' ''/''))) ip
      (grant_cookie (site_request ''GET'' ''/'')) g"
    using caddy_concurrent_gate_sound [OF site_shared_ok tr(1-3) p] by blast
  then show ?thesis using tr(1) p(2) by (intro exI [of _ tr] exI [of _ n]) (auto simp: site_client site_cookie site_page_def)
qed

theorem traefik_concurrent_gate_sound_witness:
  "\<exists>tr m g. traefik_execution site_shared tr \<and> snd (last tr) ! 1 = (site_page site_traefik, Reply Next) \<and> m < length tr \<and>
     (\<exists>k. abs_grants (sh_grants (fst (tr ! m))) k = Some g) \<and> g_Service g = ''app'' \<and> 2000 < g_Exp g"
proof -
  have start: "shared_traefik (Some (\<lambda>i. 0)) no_shared = (None, site_shared)" using site_shared_ok by (simp add: agree)
  obtain tr n where tr: "traefik_execution site_shared tr" "n < length tr" "length (snd (tr ! n)) \<le> 1"
    "snd (last tr) = [(site_knock site_traefik, Reply (Answer (NoContent [(''Cache-Control'', ''no-store'')]))), (site_page site_traefik, Reply Next)]"
    using site_execution [of ServeHTTP_traefik_prog MintEnrollCode_traefik_prog site_traefik]
    by (auto simp: site_knock_def site_page_def site_traefik_prog)
  have p: "1 < length (snd (last tr))"
    "snd (last tr) ! 1 = (Serve (sample_env 2000 None) site_traefik (site_request ''GET'' ''/''), Reply Next)"
    using tr(4) by (simp_all add: site_page_def)
  obtain m ip g where "m < length tr" "\<exists>k. abs_grants (sh_grants (fst (tr ! m))) k = Some g"
    "grant_ok (Some (jt_reg site_traefik)) (env_now (sample_env 2000 None) 1) (CanonServerName (rq_Host (site_request ''GET'' ''/''))) ip
      (grant_cookie (site_request ''GET'' ''/'')) g"
    using traefik_concurrent_gate_sound [OF start tr(1-3) p] by blast
  then show ?thesis using tr(1) p(2) by (intro exI [of _ tr] exI [of _ m] exI [of _ g]) (auto simp: site_page_def grant_ok_def)
qed

section \<open>Nonces\<close>

text \<open>C23: a nonce works once in the Traefik plugin, under every interleaving without a late sweep. However the goroutines of two knocks with the same nonce, at
  routers with the same nonce lifetime, are interleaved with each other and with everything else, at most one of them is answered 204, as long as no request has begun a
  sweep whose time is at or after the time the nonce expires, and no clock reading overflows with the lifetime of its router. Later sweeps and routers
  with other lifetimes do forget the nonce while a knock with it can still succeed, as is shown for the sidecar.\<close>

theorem traefik_concurrent_nonce_single_use:
  assumes "shared_traefik d no_shared = (None, sh0)" and "traefik_execution sh0 tr"
    and "\<And>j. j \<in> jobs_of (last tr) \<Longrightarrow> clock_fits policy_traefik j"
    and "\<And>sys. sys \<in> set tr \<Longrightarrow> sh_lastSweep (fst sys) < issued_at nonce + tc_NonceTTL (jt_cfg h)"
    and "i < length (snd (last tr))" and "snd (last tr) ! i = (Serve env h r, p)"
    and "rq_Path r = tc_Prefix (jt_cfg h) @ ''/respond''" and "sends_nonce env r nonce" and "replied accepted p"
    and "i' < length (snd (last tr))" and "snd (last tr) ! i' = (Serve env' h' r', p')"
    and "rq_Path r' = tc_Prefix (jt_cfg h') @ ''/respond''" and "sends_nonce env' r' nonce"
    and "tc_NonceTTL (jt_cfg h') = tc_NonceTTL (jt_cfg h)" and "i' \<noteq> i"
  shows "\<not> replied accepted p'"
proof
  let ?knocks = "gate_knocks_with policy_traefik (tc_NonceTTL (jt_cfg h)) nonce"
  assume "replied accepted p'"
  have start: "shared_caddy d no_shared = (None, sh0)" using assms(1) by (simp add: agree)
  have k: "?knocks (Serve env h r)" "?knocks (Serve env' h' r')" using assms(7,8,12-14) by (simp_all add: policy_traefik_def)
  have "i' = i"
    by (rule traefik_progs.nonce_works_once [OF assms(2) shared_start(1) [OF start] assms(3-6) k(1) assms(9-11) k(2)])
      (use \<open>replied accepted p'\<close> in simp_all)
  then show False using assms(15) by simp
qed

lemma IssueNonce_issued_at: "IssueNonce key ts rnd sn ip p6 = Inr nonce \<Longrightarrow> issued_at nonce = uint ts"
  using be64_decode_be64 [of ts "[]"] by (auto simp: IssueNonce_Inr_iff issued_at_def)

text \<open>Two knocks with the same nonce: the first is accepted, the second is not.\<close>

theorem traefik_concurrent_nonce_single_use_witness:
  "\<exists>tr p p'. traefik_execution site_shared tr \<and> snd (last tr) = [(site_knock site_traefik, p), (site_knock site_traefik, p')] \<and>
     replied accepted p \<and> \<not> replied accepted p'"
proof -
  let ?code = "gate_code ServeHTTP_traefik_prog MintEnrollCode_traefik_prog" and ?k = "site_knock site_traefik"
  have k: "alone (?code ?k) site_shared = (Some (Answer (NoContent [(''Cache-Control'', ''no-store'')])), site_knocked)"
    by (simp add: site_knock_def site_traefik_prog alone_serve_caddy site_served)
  obtain tr where tr: "traefik_execution site_shared tr" "last tr = in_turn ?code [?k, ?k] (site_shared, [])"
    using begin_in_turn [of ?code "\<lambda>sh j. True" "[?k, ?k]" site_shared] by auto
  obtain p' where l: "snd (last tr) = [(?k, Reply (Answer (NoContent [(''Cache-Control'', ''no-store'')]))), (?k, p')]"
    using tr(2) by (simp add: k)
  have start: "shared_traefik (Some (\<lambda>i. 0)) no_shared = (None, site_shared)" using site_shared_ok by (simp add: agree)
  have n: "sends_nonce site_env (site_request ''POST'' respond_path) sample_nonce"
    by (simp add: sends_nonce_def sample_env_def sample_body_def B64uDecode_B64u)
  have i: "issued_at sample_nonce = 1000"
    using IssueNonce_issued_at [OF sample_issued] by simp
  have j: "clock_fits policy_traefik j \<and> comes_before 1060 j" if "j \<in> jobs_of (last tr)" for j
    using that l by (auto simp: jobs_of_def site_knock_def policy_traefik_def site_traefik_def is_i64_def)
  have inv: "shared_inv site_shared" "swept_before 1060 site_shared" using shared_start(1) [OF site_shared_ok] by (simp_all add: site_shared_def)
  have s: "sh_lastSweep (fst sys) < issued_at sample_nonce + tc_NonceTTL (jt_cfg site_traefik)" if "sys \<in> set tr" for sys
    using traefik_progs.sweeps_before [OF tr(1) inv _ that] j by (simp add: i site_traefik_def)
  have "\<not> replied accepted p'"
    by (rule traefik_concurrent_nonce_single_use [OF start tr(1) _ s, where i = 0 and i' = 1 and env = site_env and env' = site_env
          and h' = site_traefik and r = "site_request ''POST'' respond_path" and r' = "site_request ''POST'' respond_path"
          and p = "Reply (Answer (NoContent [(''Cache-Control'', ''no-store'')]))"])
      (use n j in \<open>simp_all add: l site_knock_def NoContent_def respond_path_def site_traefik_def\<close>)
  then show ?thesis using tr(1) l by (fastforce simp: NoContent_def)
qed

section \<open>Enrollment codes\<close>

text \<open>C31: an enrollment code releases a secret no more often than it was minted, under every interleaving. However the requests to the Caddy handler are interleaved, at
  whatever sites, at most as many requests with a code to the enroll endpoint are answered 204 as calls of \<open>MintEnrollCode\<close> registered that code.\<close>

theorem caddy_concurrent_code_released_once:
  assumes "shared_caddy d no_shared = (None, sh0)" and "caddy_execution sh0 tr"
  shows "length (filter (\<lambda>(j, p). gate_enrolls_with policy_caddy c j \<and> replied accepted p) (snd (last tr))) \<le>
    length (filter (\<lambda>(j, p). mints_code c j) (snd (last tr)))"
proof -
  have "code_absent c sh0"
    using assms(1) by (auto simp: shared_caddy_def no_shared_def NewEnrollStore_def Let_def split: sum.splits)
  then show ?thesis using caddy_progs.code_released_once [OF assms(2) shared_start(1) [OF assms(1)], of c] by simp
qed

text \<open>A code is minted once, and two requests present it.\<close>

definition site_mint :: "JITAccess_caddy gate_job" where
  "site_mint = MintCode None ''c0de'' ''laptop'' [] 2000"

definition site_enroll :: "JITAccess_caddy gate_job" where
  "site_enroll = Serve ((sample_env 1010 None)\<lparr>env_enroll := \<lambda>n b. Some \<lparr>eb_Code = ''c0de''\<rparr>\<rparr>) site_caddy
     (site_request ''POST'' ''/.well-known/jit-access/enroll'')"

theorem caddy_concurrent_code_released_once_witness:
  "\<exists>tr. caddy_execution site_shared tr \<and> map fst (snd (last tr)) = [site_mint, site_enroll, site_enroll] \<and>
     length (filter (\<lambda>(j, p). gate_enrolls_with policy_caddy ''c0de'' j \<and> replied accepted p) (snd (last tr))) = 1"
proof -
  let ?code = "gate_code ServeHTTP_caddy_prog MintEnrollCode_caddy_prog"
  let ?sh = "site_shared\<lparr>sh_codes := Put_es NewEnrollStore ''c0de'' \<lparr>ec_Kid = ''laptop'', ec_Origins = [], ec_Exp = 2000\<rparr>\<rparr>"
  have m: "alone (?code site_mint) site_shared = (None, ?sh)"
    by (simp add: site_mint_def alone_mint_code_caddy MintEnrollCode_caddy_def shared_caddy_def site_shared_def)
  obtain sh' resp where e: "alone (?code site_enroll) ?sh = (Some (Answer resp), sh')" "rs_Status resp = 204"
    using caddy_secret_released_iff_witness by (auto simp: site_enroll_def alone_serve_caddy gate_released_def NoContent_def)
  obtain tr where tr: "caddy_execution site_shared tr" "last tr = in_turn ?code [site_mint, site_enroll, site_enroll] (site_shared, [])"
    using begin_in_turn [of ?code "\<lambda>sh j. True" "[site_mint, site_enroll, site_enroll]" site_shared] by auto
  obtain p p' where l: "snd (last tr) = [(site_mint, p), (site_enroll, Reply (Answer resp)), (site_enroll, p')]"
    using tr(2) by (simp add: m e)
  have j: "gate_enrolls_with policy_caddy ''c0de'' site_enroll" "\<not> gate_enrolls_with policy_caddy ''c0de'' site_mint"
    "mints_code ''c0de'' site_mint" "\<not> mints_code ''c0de'' site_enroll"
    by (simp_all add: site_enroll_def site_mint_def)
  have "length (filter (\<lambda>(j, p). gate_enrolls_with policy_caddy ''c0de'' j \<and> replied accepted p) (snd (last tr))) \<le> 1"
    using caddy_concurrent_code_released_once [OF site_shared_ok tr(1), of "''c0de''"] j by (simp add: l)
  then show ?thesis using tr(1) e(2) j by (intro exI [of _ tr]) (auto simp: l split: if_splits)
qed

end
