(* ===== verification/Pages.thy ===== *)
theory Pages
  imports Adapters
begin

text \<open>
  The pages the engines serve, byte for byte: the interstitial of a refusal, which each engine carries as its own constant (\<^verbatim>\<open>authorizer/interstitial.go\<close>,
  \<^verbatim>\<open>adapters/caddy/interstitial.go\<close>, \<^verbatim>\<open>adapters/traefik/plugin/interstitial.go\<close>), and the registration page of the core (\<^verbatim>\<open>core/go/pages.go\<close>). A string is a list of
  bytes; characters beyond ASCII are their bytes in UTF-8. The handlers name their body by a constructor of \<open>response_body\<close>; \<open>body_bytes\<close> is what an engine
  with a given interstitial writes for it.
\<close>

section \<open>The pages\<close>

text \<open>Lines, each with its newline.\<close>

definition page_lines :: "string list \<Rightarrow> string" where
  "page_lines ls = concat (map (\<lambda>l. l @ [CHR 0x0A]) ls)"

definition ExtensionInstallURL :: string where
  "ExtensionInstallURL = ''https://chromewebstore.google.com/detail/jit-network-access/chkllfmckdloagomooelboobmoednkai''"

definition RegisterHTML_page :: string where
  \<open>RegisterHTML_page = page_lines [
     ''<!doctype html>'',
     ''<html lang="en">'',
     ''<head>'',
     ''<meta charset="utf-8">'',
     ''<meta name="viewport" content="width=device-width, initial-scale=1">'',
     ''<meta name="referrer" content="no-referrer">'',
     ''<title>Install the JIT Network Access extension</title>'',
     ''<style>'',
     ''  body { font: 15px/1.6 system-ui, -apple-system, "Segoe UI", sans-serif;'',
     ''         color: #24313f; background: #f4f6f8; margin: 0;'',
     ''         display: flex; min-height: 100vh; align-items: center; justify-content: center; }'',
     ''  .card { background: #fff; border: 1px solid #e2e7ec; border-radius: 10px;'',
     ''          padding: 2rem; max-width: 34rem; margin: 1rem; }'',
     ''  h1 { font-size: 1.2rem; margin: 0 0 .6rem; }'',
     ''  p { margin: .6rem 0 0; color: #67727e; }'',
     ''  ol { margin: .8rem 0 0; padding-left: 1.2rem; color: #67727e; }'',
     ''  li { margin: .3rem 0; }'',
     ''  a.btn { display: inline-block; margin-top: 1rem; padding: .5rem .9rem;'',
     ''          background: #2f6feb; color: #fff; border-radius: 6px; text-decoration: none; }'',
     ''  code { background: #f4f6f8; padding: .1rem .3rem; border-radius: 3px; }'',
     ''</style>'',
     ''</head>'',
     ''<body>'',
     ''  <div class="card">'',
     ''    <h1>Install the JIT Network Access extension</h1>'',
     ''    <p>This is an enrollment link, but the extension is not installed in this'',
     ''       browser '' @ [CHR 0xE2, CHR 0x80, CHR 0x94] @ '' so there is nothing here to receive it yet.</p>'',
     ''    <ol>'',
     ''      <li>Install <b>JIT Network Access</b> from the Chrome Web Store.</li>'',
     ''      <li>Come back and open this enrollment link again.</li>'',
     ''    </ol>'',
     ''    <a class="btn" href="'' @ ExtensionInstallURL @ ''" rel="noopener noreferrer">Get the extension</a>'',
     ''    <p>Already installed? Make sure it is enabled, then reload this page. The'',
     ''       extension takes over enrollment links automatically.</p>'',
     ''  </div>'',
     ''</body>'',
     ''</html>'']\<close>

definition interstitialHTML :: string where
  \<open>interstitialHTML = page_lines [
     ''<!doctype html>'',
     ''<html lang="en">'',
     ''<head>'',
     ''<meta charset="utf-8">'',
     ''<meta name="viewport" content="width=device-width, initial-scale=1">'',
     ''<title>Device authorization required</title>'',
     ''<style>'',
     ''  body { font: 15px/1.6 system-ui, -apple-system, "Segoe UI", sans-serif;'',
     ''         color: #24313f; background: #f4f6f8; margin: 0;'',
     ''         display: flex; min-height: 100vh; align-items: center; justify-content: center; }'',
     ''  .card { background: #fff; border: 1px solid #e2e7ec; border-radius: 10px;'',
     ''          padding: 2rem; max-width: 30rem; margin: 1rem; }'',
     ''  h1 { font-size: 1.2rem; margin: 0 0 .6rem; }'',
     ''  p { margin: .5rem 0 0; color: #67727e; }'',
     ''</style>'',
     ''</head>'',
     ''<body>'',
     ''  <div class="card">'',
     ''    <h1>Device authorization required</h1>'',
     ''    <p>This service is restricted to enrolled devices. If your device is'',
     ''       enrolled, authorization happens automatically '' @ [CHR 0xE2, CHR 0x80, CHR 0x94] @ '' reload the page.</p>'',
     ''    <p>Otherwise contact your administrator to enroll this device.</p>'',
     ''  </div>'',
     ''</body>'',
     ''</html>'']\<close>

definition interstitialHTML_caddy :: string where
  \<open>interstitialHTML_caddy = page_lines [
     ''<!doctype html>'',
     ''<html lang="en">'',
     ''<head>'',
     ''<meta charset="utf-8">'',
     ''<meta name="viewport" content="width=device-width, initial-scale=1">'',
     ''<title>Device authorization required</title>'',
     ''<style>'',
     ''  body { font: 15px/1.6 system-ui, -apple-system, "Segoe UI", sans-serif;'',
     ''         color: #24313f; background: #f4f6f8; margin: 0;'',
     ''         display: flex; min-height: 100vh; align-items: center; justify-content: center; }'',
     ''  .card { background: #fff; border: 1px solid #e2e7ec; border-radius: 10px;'',
     ''          padding: 2rem; max-width: 30rem; margin: 1rem; }'',
     ''  h1 { font-size: 1.2rem; margin: 0 0 .6rem; }'',
     ''  p { margin: .5rem 0 0; color: #67727e; }'',
     ''</style>'',
     ''</head>'',
     ''<body>'',
     ''  <div class="card">'',
     ''    <h1>Device authorization required</h1>'',
     ''    <p>This service is restricted to enrolled devices. If your device is'',
     ''       enrolled, authorization happens automatically '' @ [CHR 0xE2, CHR 0x80, CHR 0x94] @ '' reload the page.</p>'',
     ''    <p>Otherwise contact your administrator to enroll this device.</p>'',
     ''  </div>'',
     ''</body>'',
     ''</html>'']\<close>

definition interstitialHTML_traefik :: string where
  \<open>interstitialHTML_traefik = page_lines [
     ''<!doctype html>'',
     ''<html lang="en">'',
     ''<head>'',
     ''<meta charset="utf-8">'',
     ''<meta name="viewport" content="width=device-width, initial-scale=1">'',
     ''<title>Device authorization required</title>'',
     ''<style>'',
     ''  body { font: 15px/1.6 system-ui, -apple-system, "Segoe UI", sans-serif;'',
     ''         color: #24313f; background: #f4f6f8; margin: 0;'',
     ''         display: flex; min-height: 100vh; align-items: center; justify-content: center; }'',
     ''  .card { background: #fff; border: 1px solid #e2e7ec; border-radius: 10px;'',
     ''          padding: 2rem; max-width: 30rem; margin: 1rem; }'',
     ''  h1 { font-size: 1.2rem; margin: 0 0 .6rem; }'',
     ''  p { margin: .5rem 0 0; color: #67727e; }'',
     ''</style>'',
     ''</head>'',
     ''<body>'',
     ''  <div class="card">'',
     ''    <h1>Device authorization required</h1>'',
     ''    <p>This service is restricted to enrolled devices. If your device is'',
     ''       enrolled, authorization happens automatically '' @ [CHR 0xE2, CHR 0x80, CHR 0x94] @ '' reload the page.</p>'',
     ''    <p>Otherwise contact your administrator to enroll this device.</p>'',
     ''  </div>'',
     ''</body>'',
     ''</html>'']\<close>

text \<open>What is written for a body. The encoding of JSON and the text of a redirect belong to the standard library.\<close>

fun body_bytes :: "string \<Rightarrow> response_body \<Rightarrow> string option" where
  "body_bytes interstitial NoBody = Some []"
| "body_bytes interstitial InterstitialHTML = Some interstitial"
| "body_bytes interstitial RegisterHTML = Some RegisterHTML_page"
| "body_bytes interstitial (TextBody s) = Some s"
| "body_bytes interstitial (JSONBody j) = None"
| "body_bytes interstitial RedirectBody = None"

definition sent :: "string \<Rightarrow> Response \<Rightarrow> int \<times> (string \<times> string) list \<times> string option" where
  "sent interstitial resp = (rs_Status resp, rs_Header resp, body_bytes interstitial (rs_Body resp))"

section \<open>One refusal\<close>

lemma interstitials_agree: "interstitialHTML_caddy = interstitialHTML" "interstitialHTML_traefik = interstitialHTML"
  by (simp_all only: interstitialHTML_def interstitialHTML_caddy_def interstitialHTML_traefik_def)

text \<open>Where an engine is not in stealth mode, its refusal is the same sequence of bytes whichever engine it is: status, headers in order, and body. A client
  cannot tell the Authorizer, the Caddy handler and the Traefik plugin apart by it.\<close>

theorem refusals_byte_identical:
  assumes "mode_of (sv_cfg s) c \<noteq> FailStealth" and "ca_FailureMode j \<noteq> failStealth_caddy" and "tc_FailureMode (jt_cfg h) \<noteq> failStealth_traefik"
  shows "sent interstitialHTML_caddy (deny_caddy j) = sent interstitialHTML (deny s c) \<and>
    sent interstitialHTML_traefik (deny_traefik h) = sent interstitialHTML (deny s c) \<and>
    sent interstitialHTML (authzDeny s c) = sent interstitialHTML (deny s c)"
  using assms
  by (simp add: sent_def interstitials_agree deny_def authzDeny_def interstitial_response_def deny_caddy_def deny_traefik_def
      jitMarker_caddy_def jitMarker_traefik_def JITMarker_def)

end
