(* ===== verification/Spec2Isabelle.thy ===== *)
theory Spec2Isabelle
  imports Startup Probe Routing Caddyfile MiddlewareProps Pages
begin

text \<open>
  JIT network access: a gate in front of web services. A device that holds a registered token asks
  for a challenge, proves knowledge of the token's secret with an HMAC over a fresh nonce, and is
  then admitted from its address (or its address and a cookie) for a while. The Authorizer is the
  standalone engine behind a reverse proxy's forward-auth; the Caddy handler and the Traefik plugin are the same gate as a
  middleware inside the proxy. All three use one Go core.

  \<^bold>\<open>The parts and their theories.\<close>
  \<^item> \<open>Prelude\<close>: bytes, Go strings (\<^verbatim>\<open>strings\<close> package), errors as sums, wrapping 64-bit integers, Go maps as
    association lists with the order of iteration left to the runtime made explicit.
  \<^item> \<open>Sha256\<close>, \<open>Codec\<close>, \<open>Crypto\<close>: \<^verbatim>\<open>core/go/pae.go\<close>, \<^verbatim>\<open>core/go/crypto.go\<close>: SHA-256 and HMAC as executable functions, PAE,
    base64url, proofs and nonces. What rests on HMAC is stated up to an explicit collision
    (\<open>hmac_collision\<close>), never by assuming there is none. Locales \<open>injective_encoding\<close>, \<open>codec\<close>, \<open>tag_scheme\<close>.
  \<^item> \<open>Netip\<close>, \<open>NetipRoundtrip\<close>, \<open>Canon\<close>: \<^verbatim>\<open>core/go/canon.go\<close> over a model of Go's \<^verbatim>\<open>net/netip\<close> (parsing, printing, prefixes,
    zones) with the round trip of parsing and printing. Locale \<open>canonicalizer\<close>.
  \<^item> \<open>Expiring\<close>: the contract of a table whose entries expire and are swept (locales \<open>expiring_table\<close>,
    \<open>expiring_table_mono\<close>), interpreted by the rate limiter, the grant store, the nonce store and the
    enrollment codes.
  \<^item> \<open>RateLimit\<close>, \<open>Registry\<close>, \<open>GrantStore\<close>, \<open>NonceStore\<close>: \<^verbatim>\<open>core/go/ratelimit.go\<close>, \<^verbatim>\<open>registry.go\<close>, \<^verbatim>\<open>store.go\<close>, one record per struct, one
    definition per method. \<open>abs_grants\<close> is the abstract store (a map from keys to records), \<open>grant_inv\<close> the
    consistency of the index by token, \<open>grant_ok\<close> and \<open>permits\<close> the specifications of the checks.
  \<^item> \<open>Config\<close>: \<^verbatim>\<open>authorizer/config.go\<close>: validation with every error branch, defaults, and the registry a
    configuration yields. \<open>config_ok\<close> is what the request path relies on.
  \<^item> \<open>Http\<close>, \<open>RealIP\<close>: requests, headers, cookies, responses, \<^verbatim>\<open>path.Clean\<close>, \<^verbatim>\<open>url.PathUnescape\<close>, and \<^verbatim>\<open>authorizer/realip.go\<close>: who
    the client is and what it asks for.
  \<^item> \<open>Server\<close>, \<open>Admin\<close>: \<^verbatim>\<open>authorizer/server.go\<close>, \<^verbatim>\<open>authorizer/admin.go\<close>: the state (\<open>Server\<close>), one function per handler from
    state and request to response and state, the routing of both listeners, reload and sweeper.
  \<^item> \<open>ServerProps\<close>, \<open>Routing\<close>, \<open>Cycle\<close>: what the handlers do, outcome by outcome; where requests are routed;
    and the whole exchange of a legitimate client.
  \<^item> \<open>Runs\<close>: executions as a step relation (a request on the main or the admin listener, a sweep, a
    reload on \<^verbatim>\<open>SIGHUP\<close> as in \<^verbatim>\<open>authorizer/main.go\<close>), the invariant \<open>server_inv\<close>, where grants come from (\<open>minted\<close>)
    and how long nonces stay spent.
  \<^item> \<open>Deployment\<close>: a small deployment and one client's knock, on which the properties are tried.
  \<^item> \<open>Programs\<close>: goroutines that share a state, for any type of states. A program is a tree of atomic actions (\<open>prog\<close>), one per critical section of the source. \<open>alone\<close> runs a
    program without interference, \<open>gstep\<close> interleaves any number of them, \<open>grun\<close> is the sequence of states of such an execution. Rely-guarantee: \<open>guarantees\<close>, \<open>takes\<close> and
    \<open>brings_once\<close> say what the actions of a program do; locale \<open>rely\<close> gives invariants of all interleavings, locale \<open>metered\<close> bounds how often something is used up.
    \<open>within\<close> restricts the programs to executions all of whose states have a property, \<open>reached\<close> builds executions goroutine by goroutine.
  \<^item> \<open>Concurrent\<close>: the Authorizer with its goroutines: each read of the configuration or the registry under \<^verbatim>\<open>Server.mu\<close>, each call of a store, of the rate
    limiter or of a counter is an action. \<open>cstep\<close> interleaves the handlers with ticks of the sweeper and reloads, \<open>execution\<close> is such a run.
  \<^item> \<open>Interference\<close>, \<open>ConcurrentProps\<close>: what one action of a job can do to the server (\<open>effect\<close>), that the programs do nothing else
    (\<open>job_guarantees\<close>), and what follows for all interleavings: locale \<open>authorizer_rely\<close> gives \<open>rely\<close> (interpreted for the invariant of the server, for the origin of
    grants and for the admin listener), locale \<open>authorizer_metered\<close> gives \<open>metered\<close> (interpreted for nonces and for enrollment codes).
  \<^item> \<open>Startup\<close>: \<^verbatim>\<open>authorizer/main.go\<close> and \<^verbatim>\<open>LoadConfig\<close>: the flags, loading and checking the configuration, and the life of the process (\<open>pstep\<close>): two
    listeners, signals, and the shutdown that waits for the requests in flight.
  \<^item> \<open>Probe\<close>: \<^verbatim>\<open>core/go/canonprobe\<close>, the canonical forms of a list of inputs.
  \<^item> \<open>Inprocess\<close>: the process-wide state of the middlewares (\<open>Shared\<close>: stores, nonce key, time of the last sweep) and what a
    middleware can do with a request (\<open>outcome\<close>); \<^verbatim>\<open>int64(d.Seconds())\<close> with its floating-point roundings.
  \<^item> \<open>Caddy\<close>, \<open>Caddyfile\<close>: \<^verbatim>\<open>adapters/caddy/jitaccess.go\<close>: provisioning and validation, client address, the handlers, and the parser of the
    \<^verbatim>\<open>jit_access\<close> block. Names carry the suffix \<open>_caddy\<close>.
  \<^item> \<open>Traefik\<close>: \<^verbatim>\<open>adapters/traefik/plugin/jitaccess.go\<close>, translated on its own, with the suffix \<open>_traefik\<close>.
  \<^item> \<open>Gate\<close>: what a middleware promises (locales \<open>gate_sweeper\<close> and \<open>gate\<close>), executions with handlers rebuilt at will (\<open>gate_run\<close>), and what
    follows for them: the invariant \<open>shared_inv\<close>, where grants come from, that a nonce works once.
  \<^item> \<open>CaddyProps\<close>, \<open>Engines\<close>: the Caddy handler meets the contract; the Traefik plugin is the Caddy handler on translated options
    (\<open>caddy_of\<close>, \<open>caddy_options\<close>), operation by operation, and so meets it too.
  \<^item> \<open>Adapters\<close>: the properties of the middlewares, and a site they are tried on.
  \<^item> \<open>ConcurrentGate\<close>: what one action of a request can do to the state the handlers share (\<open>gate_effect\<close>), the contract of the programs of a middleware (locale \<open>gate_programs\<close>),
    and what follows from \<open>rely\<close> and \<open>metered\<close> for every interleaving of requests, at any handlers, and of codes minted out of band.
  \<^item> \<open>MiddlewareProgs\<close>, \<open>MiddlewareProps\<close>: the requests of the Caddy handler and of the Traefik plugin as programs, translated from each source on its own; run alone they
    are the handlers of \<open>Caddy\<close> and \<open>Traefik\<close>; both meet the contract, with the properties that gives.
  \<^item> \<open>Pages\<close>: \<^verbatim>\<open>core/go/pages.go\<close> and the three \<^verbatim>\<open>interstitial.go\<close>: the pages byte for byte, and that all engines refuse with the same bytes.

  \<^bold>\<open>What is shown.\<close> Of the core: encodings are injective and invertible, nonces and proofs verify exactly
  when they should and are bound to what they name, canonical names and addresses are normal forms,
  the stores implement their abstract maps, the rate limiter is exact and bounded. Of the Authorizer: a backend is
  reached only with a live grant that a step of the run minted, a grant is minted only by a knock
  that verifies in full or by an authenticated administrator, a nonce works once, refusals are
  uniform and a stealth service is invisible, a secret leaves only for a live code, reloads and
  revocations take effect at the next request, and a legitimate client gets through. Of its goroutines: run alone
  they are the handlers (the lemmas \<open>alone_\<close>); under every interleaving the state stays well formed, forward-auth answers 204 only on what it found after the request
  came in, with a grant that a verified knock or an administrator made, a code releases a secret no more often than it was
  made, and a nonce works once as long as no sweep comes at or after its expiry and its lifetime is the same throughout. Of the process: \<^verbatim>\<open>-check\<close> predicts whether it starts, all it does is such an execution, and a shutdown in time loses no answer. Of the middlewares: a request is
  passed on only with a live grant that a verified knock minted, a knock mints exactly when it
  verifies, a nonce works once, refusals are uniform, forged entries of a forwarding header lose against an address the proxies name, a provisioned site
  is well formed, a legitimate client gets through, and the two behave alike on the same options without negative lifetimes; under every interleaving of their goroutines the shared state stays well formed, a request is passed on only on
  a grant found after it came in, which a verified knock made, a code releases a secret no more often than it was minted, and a nonce works once under the
  conditions of the Authorizer. Of the Caddyfile
  parser: it returns, and reads back what a block lists. Seven theorems record where the code does less than it means to: an expired record
  hides a live one, a reload or a stalled knock lets a nonce work twice, a grant of an administrator is not honoured on a device-bound service, the prefix \<^verbatim>\<open>/\<close> and
  lifetimes below a second lock every client out, and the engines treat negative lifetimes differently.

  \<^bold>\<open>Bounds.\<close> Loops over strings and maps are structural recursions or come with a termination
  proof. The Caddyfile parser loops over a stream it does not own: it is a partial function, shown to
  return for every stream of finitely many tokens. Fuel occurs in the model of \<^verbatim>\<open>Seconds()\<close> only:
  \<open>float_scale\<close> is called for a fraction of a second, whose scale is at most 82 = 52 + 30 (fuel 40), and \<open>bit_length\<close> for
  totals below \<open>2 ^ 127\<close> (fuel 128). Times and lifetimes are integers with the wrap-around of \<^verbatim>\<open>int64\<close> written out
  (\<open>i64\<close>); the time stamp of a nonce is a 64-bit word; where a theorem needs that a sum does not wrap it
  says so.

  \<^bold>\<open>Arguments of the model.\<close> The clock and the random source (successive readings within a request), the
  JSON decoders behind \<^verbatim>\<open>http.MaxBytesReader\<close>, and \<^verbatim>\<open>url.Parse\<close> for \<^verbatim>\<open>X-Original-URL\<close> are fields of \<open>Env\<close>; every theorem holds
  for whatever they return. Caddy's token stream and \<^verbatim>\<open>caddy.ParseDuration\<close> are the record \<open>Dispenser\<close>, with \<open>dispenser_consumes\<close> (a
  successful call of \<^verbatim>\<open>Next\<close> or \<^verbatim>\<open>NextBlock\<close> loads a token) and \<open>presents\<close> (the input is a given directive with its block) as hypotheses; what the next handler of a middleware does is outside. The file system and the JSON decoder of the configuration are arguments of
  \<open>LoadConfig\<close>. \<open>Server\<close>, \<open>Runs\<close>, \<open>Caddy\<close> and \<open>Traefik\<close> serve a request in one step; \<open>Concurrent\<close> and \<open>MiddlewareProgs\<close> break the handlers into their atomic actions. Memory
  below the level of critical sections (data races, the scheduler) is not modelled.

  \<^bold>\<open>Not modelled.\<close> Sockets, HTTP framing (with the hop-by-hop header \<^verbatim>\<open>Connection: close\<close> that \<^verbatim>\<open>http.MaxBytesReader\<close> makes the
  server add to the answer to an oversized body), timeouts of connections and logging are input and output; module registration and \<^verbatim>\<open>adapters/caddy/cmd\<close> are glue; the Traefik plugin's
  \<^verbatim>\<open>internal/jitcore\<close> is a copy of the core, byte for byte;
  the engines in other languages (\<^verbatim>\<open>Lua\<close>, \<^verbatim>\<open>Python\<close>, \<^verbatim>\<open>JavaScript\<close>) are separate programs.
\<close>

section \<open>Forward-auth\<close>

text \<open>C1: the backend is reached only with a grant. In every run, where forward-auth answers 204
  the call came from a trusted proxy, and the request is either for one of the four knock endpoints
  or for a configured service, with a stored grant for exactly this service and this address, that
  has not expired, whose token is still registered for the service with the same secret (or which an
  administrator made), whose cookie the request carries where it is device-bound, which is
  device-bound where the service now asks for that, and which a step of this run minted.\<close>

theorem authz_sound:
  assumes "started s0" and "steps s0 evs s" and "handleAuthz env s r = (resp, s')" and "rs_Status resp = 204"
  shows "from_proxy s r \<and> (\<exists>c. resolve env s r = Some c \<and>
    (isProtocolURI (cf_URIPrefix (sv_cfg s)) (rc_uri c) \<or>
     rc_known c \<and> (\<exists>g. grant_ok (Some (sv_reg s)) (env_now env 0) (rc_service c) (rc_ip c) (grant_cookie r) g \<and>
       (binding (rc_svc c) = BindingIPCookie \<longrightarrow> g_Binding g = BindingIPCookie) \<and> minted s0 evs g)))"
proof -
  have *: "from_proxy s r \<and> ((\<exists>c. resolve env s r = Some c \<and> isProtocolURI (cf_URIPrefix (sv_cfg s)) (rc_uri c)) \<or>
      (\<exists>c g. authz_grants env s r c g))"
    using handleAuthz_cases [OF assms(3)] assms(4) by blast
  have "minted s0 evs g" if "authz_grants env s r c g" for c g
    using that grants_minted [OF assms(2) server_inv_started [OF assms(1)] started_empty [OF assms(1)]]
      IsAllowed_stored unfolding authz_grants_def by blast
  then show ?thesis using * IsAllowed_stored unfolding authz_grants_def by blast
qed

theorem authz_sound_witness:
  "\<exists>c g. resolve (sample_env 2000 None) sample_knocked (sample_knock ''GET'' ''/'') = Some c \<and>
     grant_ok (Some (sv_reg sample_knocked)) 2000 (rc_service c) (rc_ip c) [] g \<and> minted sample_server [sample_event] g"
proof -
  obtain s' where h: "handleAuthz (sample_env 2000 None) sample_knocked (sample_knock ''GET'' ''/'') =
      (NoContent [(''X-Jit-Kid'', ''laptop'')], s')"
    using sample_admitted by (metis prod.collapse)
  note cfg = sample_knocked_fields(1)
  have "cleanURIPath ''/'' = ''/''" by code_simp
  then have res: "resolve (sample_env 2000 None) sample_knocked (sample_knock ''GET'' ''/'') = Some (sample_ctx ''/'')"
    using knock_resolve [OF cfg] by simp
  have "\<not> isProtocolURI (cf_URIPrefix (sv_cfg sample_knocked)) (rc_uri (sample_ctx ''/''))"
    by (simp add: cfg isProtocolURI_def sample_ctx_def)
  then show ?thesis
    using authz_sound [OF sample_started sample_steps h] res sample_cookie [of "''GET''" "''/''"]
    by (auto simp: sample_env_def)
qed

text \<open>a request with a grant is never turned away: a call from a trusted proxy that resolves to
  a configured service and whose stored grant passes the check is answered 204 with the token's
  name, and changes one counter.\<close>

theorem authz_complete:
  assumes "from_proxy s r" and "resolve env s r = Some c" and "rc_known c"
    and "\<not> isProtocolURI (cf_URIPrefix (sv_cfg s)) (rc_uri c)"
    and "findGrant (sv_grants s) (rc_service c) (rc_ip c) (grant_cookie r) = Some g"
    and "grant_ok (Some (sv_reg s)) (env_now env 0) (rc_service c) (rc_ip c) (grant_cookie r) g"
    and "binding (rc_svc c) = BindingIPCookie \<longrightarrow> g_Binding g = BindingIPCookie"
  shows "handleAuthz env s r = (NoContent [(''X-Jit-Kid'', g_Kid g)],
    s\<lparr>sv_metrics := (sv_metrics s)\<lparr>m_granted := i64 (m_granted (sv_metrics s) + 1)\<rparr>\<rparr>)"
  by (rule handleAuthz_granted) (use assms in \<open>simp_all add: authz_grants_def IsAllowed_Some_iff\<close>)

theorem authz_complete_witness:
  "fst (handleAuthz (sample_env 2000 None) sample_knocked (sample_knock ''GET'' ''/'')) = NoContent [(''X-Jit-Kid'', ''laptop'')]"
proof -
  note f = sample_knocked_fields
  have root: "cleanURIPath ''/'' = ''/''" by code_simp
  have "findGrant (sv_grants sample_knocked) ''app'' ''192.0.2.1'' [] = Some sample_minted"
    using findGrant_Put_ip [of sample_minted "[]"] by (simp add: f sample_minted_def)
  moreover have "grant_ok (Some sample_reg) 2000 ''app'' ''192.0.2.1'' [] sample_minted"
    using sample_permits [of 2000] by (auto simp: grant_ok_def sample_minted_def)
  ultimately show ?thesis
    using authz_complete [where g = sample_minted and env = "sample_env 2000 None" and s = sample_knocked
        and r = "sample_knock ''GET'' ''/''" and c = "sample_ctx ''/''"]
      knock_proxy [OF f(1), of "''GET''" "''/''"] knock_resolve [OF f(1), of 2000 None "''GET''" "''/''"]
    by (simp add: root f sample_ctx_def isProtocolURI_def sample_cookie sample_env_def) (simp add: sample_minted_def)
qed

section \<open>The knock\<close>

text \<open>C2: a knock ends in exactly one of two ways. Either everything about it checks out (the request
  resolves to a configured service, is a \<^verbatim>\<open>POST\<close> within the rate limit, its nonce is one this server issued
  to this service and client, is fresh and not spent, the token is registered for the service, and
  the proof is the token's), and then it is answered 204, its nonce is spent, and one grant is stored,
  for this service, this client and this token; or it gets the uniform denial and no grant is stored.\<close>

theorem respond_grants_iff:
  "(\<exists>c body nonce rnd t g cookie. knock_mints env s r c body nonce rnd t g cookie \<and>
      (g_Kid g, g_Service g, g_IP g, g_SecretFP g, g_Exp g) =
        (rb_Kid body, rc_service c, rc_ip c, Fingerprint (Some t), i64 (env_now env 1 + grantTTL (sv_cfg s) (rc_svc c))) \<and>
      handleRespond env s r = (NoContent (cookie @ [(''Cache-Control'', ''no-store'')]),
        put_grant r g (spend env rnd (counted env s c)))) \<noteq>
   (fst (handleRespond env s r) = deny s (resolve env s r) \<and> sv_grants (snd (handleRespond env s r)) = sv_grants s)"
proof -
  obtain resp s' where h: "handleRespond env s r = (resp, s')" by fastforce
  then show ?thesis
  proof (cases rule: handleRespond_cases)
    case (minted c body nonce rnd t g cookie)
    then have "rs_Status resp = 204" by simp
    then have "resp \<noteq> deny s (resolve env s r)" using deny_status(1) by metis
    moreover have "mintGrant env s c (rb_Kid body) t = Inr (g, cookie)" using minted(1) by (simp add: knock_mints_def)
    ultimately show ?thesis using minted h mintGrant_fields by (simp add: prod_eq_iff) metis
  next
    case denied
    then show ?thesis using h deny_status(1) by (auto simp: only_counters_fields) (metis NoContent_status)
  next
    case (no_rand c body nonce rnd t m)
    then show ?thesis using h deny_status(1) by (auto simp: spend_def counted_def) (metis NoContent_status)
  qed
qed

text \<open>C4: a legitimate client gets through. It asks for a challenge, answers it within the nonce's
  lifetime with the proof made from its secret, and then sends a request through the proxy before the
  grant and the token expire: the three answers are 204, and the last one names its token. The
  conditions are the client's (it sends what it was sent back), the operator's (the token is
  registered for the service) and the environment's (the random source works, the rate limit is not
  reached, the random part of the nonce is not among the spent ones).\<close>

theorem legitimate_client_admitted:
  assumes ch: "resolve env1 s r1 = Some c1" "rc_known c1" "rq_Method r1 = ''GET''" "rate_ok env1 s c1"
      "env_draw env1 0 = Some f" "mget (ns_spent (sv_nonces s)) (B64u (map f [0..<16])) = None"
    and answer: "\<And>nonce. (''X-Jit-Nonce'', B64u nonce) \<in> set (rs_Header (fst (handleChallenge env1 s r1))) \<Longrightarrow>
      rb_Nonce body = B64u nonce \<and> rb_Proof body = B64u (BuildProof (tok_Secret t) (rc_service c1) (rb_Kid body) nonce)"
    and re: "resolve env2 s r2 = Some c2" "same_client c2 c1" "rq_Method r2 = ''POST''"
      "rate_ok env2 (snd (handleChallenge env1 s r1)) c2" "env_respond env2 4096 (rq_Body r2) = Some body" "env_draw env2 0 \<noteq> None"
    and time: "0 \<le> env_now env1 1" "env_now env1 1 \<le> env_now env2 1" "env_now env2 1 < env_now env1 1 + cf_NonceTTL (sv_cfg s)"
      "env_now env2 1 < 2 ^ 63" "env_now env2 1 + grantTTL (sv_cfg s) (rc_svc c1) < 2 ^ 63" "0 \<le> grantTTL (sv_cfg s) (rc_svc c1)"
    and token: "permits (Some (sv_reg s)) (rb_Kid body) (rc_service c1) (env_now env2 1) t"
      "permits (Some (sv_reg s)) (rb_Kid body) (rc_service c1) (env_now env3 0) t"
    and az: "from_proxy s r3" "resolve env3 s r3 = Some c3" "same_client c3 c1"
      "\<not> isProtocolURI (cf_URIPrefix (sv_cfg s)) (rc_uri c3)"
      "env_now env3 0 < env_now env2 1 + grantTTL (sv_cfg s) (rc_svc c1)"
      "\<And>g cookie. mintGrant env2 s c2 (rb_Kid body) t = Inr (g, cookie) \<Longrightarrow> shows_cookie r3 g"
  shows "rs_Status (fst (handleChallenge env1 s r1)) = 204 \<and>
    rs_Status (fst (handleRespond env2 (snd (handleChallenge env1 s r1)) r2)) = 204 \<and>
    fst (handleAuthz env3 (snd (handleRespond env2 (snd (handleChallenge env1 s r1)) r2)) r3) =
      NoContent [(''X-Jit-Kid'', rb_Kid body)]"
proof -
  obtain nonce where n: "IssueNonce (sv_nonceKey s) (word_of_int (env_now env1 1)) (rand16 f) (rc_service c1) (rc_ip c1)
       (cf_IPv6Prefix (sv_cfg s)) = Inr nonce"
    and h1: "handleChallenge env1 s r1 = (NoContent [(''X-Jit-Nonce'', B64u nonce), (''X-Jit-Ts'', FormatInt (env_now env1 1)),
                   (''Cache-Control'', ''no-store'')], counted env1 s c1)"
    by (rule challenge_answers [OF ch(1-5)])
  let ?s = "counted env1 s c1"
  note f = counted_fields [of env1 s c1]
  have body: "client_answers body t (rc_service c1) nonce"
    using answer [of nonce] by (simp add: h1 client_answers_def NoContent_def)
  have kv: "knock_verified env2 ?s c2 body nonce (rand16 f) t"
    by (rule respond_verifies [where ts = "env_now env1 1"])
      (use n body token(1) ch(6) time in \<open>simp_all add: same_client_fields [OF re(2)]\<close>)
  obtain g cookie where m: "mintGrant env2 s c2 (rb_Kid body) t = Inr (g, cookie)"
    using re(6) mintGrant_ok by blast
  then have mints: "knock_mints env2 ?s r2 c2 body nonce (rand16 f) t g cookie"
    using kv re ch(2) mintGrant_cong [of ?s s] resolve_cong [of ?s s] f h1 same_client_fields [OF re(2)] by (simp add: knock_mints_def)
  have exp: "g_Exp g = env_now env2 1 + grantTTL (sv_cfg s) (rc_svc c1)"
    using mintGrant_fields(6) [OF m] same_client_fields(3) [OF re(2)] time i64_id by (simp add: is_i64_def)
  have "fst (handleAuthz env3 (snd (handleRespond env2 ?s r2)) r3) = NoContent [(''X-Jit-Kid'', rb_Kid body)]"
    by (rule authz_admits [OF mints])
      (use az ch(2) token(2) exp m f resolve_cong [of ?s s] same_client_fields [OF re(2)] same_client_fields [OF az(3)]
        in \<open>simp_all add: from_proxy_def\<close>)
  then show ?thesis using h1 handleRespond_mints [OF mints] by simp
qed

theorem legitimate_client_admitted_witness:
  "fst (handleAuthz (sample_env 2000 None)
     (snd (handleRespond (sample_env 1010 (Some sample_body))
       (snd (handleChallenge (sample_env 1000 None) sample_server (sample_knock ''GET'' challenge_path)))
       (sample_knock ''POST'' respond_path))) (sample_knock ''GET'' ''/'')) = NoContent [(''X-Jit-Kid'', ''laptop'')]"
proof -
  have p: "cleanURIPath challenge_path = challenge_path" "cleanURIPath respond_path = respond_path" "cleanURIPath ''/'' = ''/''"
    by code_simp+
  have r: "resolve (sample_env now b) sample_server (sample_knock m q) = Some (sample_ctx (cleanURIPath q))" for now b m q
    by (rule knock_resolve) simp
  have "rs_Status (fst (handleChallenge (sample_env 1000 None) sample_server (sample_knock ''GET'' challenge_path))) = 204 \<and>
    rs_Status (fst (handleRespond (sample_env 1010 (Some sample_body))
       (snd (handleChallenge (sample_env 1000 None) sample_server (sample_knock ''GET'' challenge_path)))
       (sample_knock ''POST'' respond_path))) = 204 \<and>
    fst (handleAuthz (sample_env 2000 None)
     (snd (handleRespond (sample_env 1010 (Some sample_body))
       (snd (handleChallenge (sample_env 1000 None) sample_server (sample_knock ''GET'' challenge_path)))
       (sample_knock ''POST'' respond_path))) (sample_knock ''GET'' ''/'')) = NoContent [(''X-Jit-Kid'', rb_Kid sample_body)]"
  proof (rule legitimate_client_admitted [where t = "token_of laptop" and f = "\<lambda>j. 0"])
    fix nonce
    assume "(''X-Jit-Nonce'', B64u nonce) \<in> set (rs_Header (fst (handleChallenge (sample_env 1000 None) sample_server
      (sample_knock ''GET'' challenge_path))))"
    then have "nonce = sample_nonce" by (simp add: sample_challenge NoContent_def b64u.enc_inject)
    then show "rb_Nonce sample_body = B64u nonce \<and> rb_Proof sample_body = B64u (BuildProof (tok_Secret (token_of laptop))
        (rc_service (sample_ctx challenge_path)) (rb_Kid sample_body) nonce)"
      by (simp add: sample_body_def sample_ctx_def)
  next
    fix g cookie
    assume "mintGrant (sample_env 1010 (Some sample_body)) sample_server (sample_ctx respond_path) (rb_Kid sample_body)
        (token_of laptop) = Inr (g, cookie)"
    then have "g_Binding g = BindingIP" using mintGrant_fields(4) by (fastforce simp: sample_ctx_def)
    then show "shows_cookie (sample_knock ''GET'' ''/'') g" by (simp add: shows_cookie_def sample_cookie)
  qed (use knock_rate sample_permits in \<open>simp_all add: r p sample_challenge isProtocolURI_def sample_body_def
      knock_proxy NewNonceStore_def\<close>, simp_all add: same_client_def sample_ctx_def)
  then show ?thesis by (simp add: sample_body_def)
qed

text \<open>What a knock spends is not minted with again.\<close>

lemma nonce_not_minted_again:
  assumes "server_inv s" and "knock_mints env s r c body nonce rnd t g cookie"
    and "steps (snd (handleRespond env s r)) evs s'"
    and "is_i64 (env_now env 1)" and "env_now env 1 + cf_NonceTTL (sv_cfg s) < 2 ^ 63" and "is_i64 (env_now env' 1)"
    and "\<And>e. e \<in> set evs \<Longrightarrow> event_time e \<le> env_now env' 1" and "cf_NonceTTL (sv_cfg s') \<le> cf_NonceTTL (sv_cfg s)"
  shows "\<not> knock_mints env' s' r' c' body' nonce rnd' t' g' cookie'"
proof
  assume again: "knock_mints env' s' r' c' body' nonce rnd' t' g' cookie'"
  have ttl: "0 < cf_NonceTTL (sv_cfg s)" using assms(1) by (simp add: server_inv_def config_ok_def)
  have key: "sv_nonceKey s' = sv_nonceKey s"
    using nonceKey_steps [OF assms(3)] handleRespond_mints [OF assms(2)] by (simp add: put_grant_def spend_def counted_def)
  have "rnd' = rnd \<and> env_now env' 1 < env_now env 1 + cf_NonceTTL (sv_cfg s)"
    using assms(2) again key by (intro verified_window [OF _ assms(4) _ assms(6,8)]) (auto simp: knock_mints_def knock_verified_def)
  moreover from this have "spent_until (sv_nonces s') (B64u rnd) (env_now env 1 + cf_NonceTTL (sv_cfg s))"
    using assms(7) by (intro spent_steps [OF assms(3) knock_spends [OF assms(2,4,5) ttl]]) fastforce
  ultimately show False
    using again spent_until_refused by (auto simp: knock_mints_def knock_verified_def)
qed

text \<open>C3: a nonce works once. After a knock with it was answered 204, whatever else happens (other knocks, sweeps,
  admin calls, reloads), every knock with that nonce gets the uniform denial and files no grant, as long as the clock does not
  run backwards and the nonce lifetime is not raised by a reload in between.\<close>

theorem nonce_single_use:
  assumes "server_inv s" and "handleRespond env s r = (resp, s1)" and "rs_Status resp = 204" and "sends_nonce env r nonce"
    and "steps s1 evs s'" and "sends_nonce env' r' nonce"
    and "is_i64 (env_now env 1)" and "env_now env 1 + cf_NonceTTL (sv_cfg s) < 2 ^ 63" and "is_i64 (env_now env' 1)"
    and "\<And>e. e \<in> set evs \<Longrightarrow> event_time e \<le> env_now env' 1" and "cf_NonceTTL (sv_cfg s') \<le> cf_NonceTTL (sv_cfg s)"
  shows "fst (handleRespond env' s' r') = deny s' (resolve env' s' r') \<and> sv_grants (snd (handleRespond env' s' r')) = sv_grants s'"
proof -
  obtain c body rnd t g cookie where m: "knock_mints env s r c body nonce rnd t g cookie"
    using assms(2)
  proof (cases rule: handleRespond_cases)
    case (minted c body nonce' rnd t g cookie)
    then show thesis using that assms(4) by (auto simp: knock_mints_def knock_verified_def sends_nonce_def)
  qed (use assms(3) deny_status(1) in metis)+
  have st: "steps (snd (handleRespond env s r)) evs s'" using assms(2,5) by simp
  obtain resp2 s2 where h: "handleRespond env' s' r' = (resp2, s2)" by fastforce
  then show ?thesis
  proof (cases rule: handleRespond_cases)
    case (minted c2 body2 nonce2 rnd2 t2 g2 cookie2)
    then have "nonce2 = nonce" using assms(6) by (auto simp: knock_mints_def knock_verified_def sends_nonce_def)
    then show ?thesis using minted(1) nonce_not_minted_again [OF assms(1) m st assms(7-11)] by blast
  next
    case denied
    then show ?thesis using h by (simp add: only_counters_fields)
  next
    case no_rand
    then show ?thesis using h by (simp add: spend_def counted_def)
  qed
qed

theorem nonce_single_use_witness:
  "fst (handleRespond (sample_env 1020 (Some sample_body)) sample_knocked (sample_knock ''POST'' respond_path)) =
     deny sample_knocked (resolve (sample_env 1020 (Some sample_body)) sample_knocked (sample_knock ''POST'' respond_path))"
proof -
  note m = handleRespond_mints [OF sample_mints]
  have n: "sends_nonce (sample_env now (Some sample_body)) (sample_knock ''POST'' respond_path) sample_nonce" for now
    by (simp add: sends_nonce_def sample_env_def sample_body_def B64uDecode_B64u)
  have k: "snd (handleRespond (sample_env 1010 (Some sample_body)) sample_server (sample_knock ''POST'' respond_path)) = sample_knocked"
    by (simp add: sample_knocked_def)
  show ?thesis
    using nonce_single_use [OF server_inv_run [OF sample_run] m _ n steps.none n]
    using m k by (simp add: is_i64_def sample_knocked_fields)
qed

text \<open>C37: a reload that raises the nonce lifetime does revive spent nonces: the claim was recorded for
  the old lifetime, and a nonce whose claim has lapsed is fresh again under the new one. The very
  knock that was accepted once is accepted a second time.\<close>

theorem raised_nonce_ttl_allows_replay:
  "\<exists>s'. steps sample_server [sample_event, Hup [] (sample_final\<lparr>cf_NonceTTL := 600\<rparr>)] s' \<and>
     (\<exists>g. knock_mints (sample_env 1100 (Some sample_body)) s' (sample_knock ''POST'' respond_path)
        (sample_ctx respond_path) sample_body sample_nonce (rand16 (\<lambda>j. 0)) (token_of laptop) g [])"
proof -
  let ?c = "sample_final\<lparr>cf_NonceTTL := 600\<rparr>" and ?e = "sample_env 1010 (Some sample_body)"
    and ?e' = "sample_env 1100 (Some sample_body)" and ?p = "sample_ctx respond_path"
  have ok: "config_ok ?c" using sample_ok by (simp add: config_ok_def)
  have reg: "Config_Registry ?c = Inr sample_reg" using sample_registry by (simp add: Config_Registry_def)
  note k = sample_knocked_eq
  define s' where "s' = sample_knocked\<lparr>sv_cfg := ?c, sv_reg := sample_reg, sv_mux := Some (buildMuxLocked ?c)\<rparr>"
  have "sighup [] (finalize ?c) sample_knocked = s'"
    using finalize_ok [OF ok] reg
    by (simp add: sighup_eq with_listen_def Reload_def s'_def k put_grant_def spend_def)
  then have st: "steps sample_server [sample_event, Hup [] ?c] s'"
    using steps.snoc [OF sample_steps step.hup, of "[]" ?c] by simp
  have f: "sv_cfg s' = ?c" "sv_reg s' = sample_reg" "sv_nonceKey s' = replicate 32 0"
    "sv_nonces s' = snd (Claim NewNonceStore (B64u (rand16 (\<lambda>j. 0))) 1010 60)" "sv_rl s' = sv_rl (counted ?e sample_server ?p)"
    by (simp_all add: s'_def k put_grant_def spend_def sample_server_def)
  have clean: "cleanURIPath respond_path = respond_path" by code_simp
  have res: "resolve ?e' s' (sample_knock ''POST'' respond_path) = Some ?p"
    using knock_resolve [of sample_server 1100 "Some sample_body" "''POST''" respond_path] clean f(1)
      resolve_same_identity [of s' sample_server] by (simp add: same_identity_def)
  have rate: "rate_ok ?e' s' ?p"
    using knock_rate(2) [of 1100 "Some sample_body" 1010 "Some sample_body" respond_path respond_path] f(1,5) by (simp add: rate_ok_def)
  have fresh: "fresh (word_of_int 1000) 1100 600" by (simp add: fresh_def)
  have now: "is_i64 1100" by (simp add: is_i64_def)
  have "VerifyNonce (replicate 32 0) sample_nonce ''app'' ''192.0.2.1'' 1100 600 128 = (True, rand16 (\<lambda>j. 0))"
    using sample_issued fresh VerifyNonce_iff [OF now] by blast
  then have "knock_verified ?e' s' ?p sample_body sample_nonce (rand16 (\<lambda>j. 0)) (token_of laptop)"
    using sample_permits [of 1100]
    by (simp add: knock_verified_def f sample_body_def B64uDecode_B64u VerifyProof_def Claim_def NewNonceStore_def i64_def)
  moreover have "\<exists>g. mintGrant ?e' s' ?p ''laptop'' (token_of laptop) = Inr (g, [])"
    by (simp add: mintGrant_def)
  ultimately show ?thesis
    using st res rate by (auto simp: knock_mints_def sample_body_def)
qed

section \<open>Denials\<close>

text \<open>C17: every refusal at the knock endpoints is one and the same response, a function of the
  service's failure mode alone: an unknown service, a wrong method, the rate limit, a malformed body,
  a bad nonce, an unknown token, a wrong proof, a replay, a dead code and a failing random source
  cannot be told apart.\<close>

theorem denials_uniform:
  "(rs_Status (fst (handleChallenge env s r)) = 204 \<or> fst (handleChallenge env s r) = deny s (resolve env s r)) \<and>
   (rs_Status (fst (handleRespond env s r)) = 204 \<or> fst (handleRespond env s r) = deny s (resolve env s r)) \<and>
   (rs_Status (fst (handleEnroll env s r)) = 204 \<or> fst (handleEnroll env s r) = deny s (resolve env s r)) \<and>
   (fst (handleRegister env s r) = deny s (resolve env s r) \<or> rs_Status (fst (handleRegister env s r)) = 200)"
  using knock_denials [of env s r] .

text \<open>C18: a stealth service is invisible: whatever a client sends to a knock endpoint of one, an
  answer that is not a success is byte for byte the answer to a path that does not exist.\<close>

theorem stealth_indistinguishable:
  assumes "serve env s r = Some (resp, s')" and "mode_of (sv_cfg s) (resolve (Env.truncate env) s r) = FailStealth"
    and "sv_mux s = Some mux" and "mux_route mux (rq_EscapedPath r) \<in> {RChallenge, RRespond, REnroll, RRegister}"
    and "mux_clean (rq_EscapedPath r) = rq_EscapedPath r" and "rs_Status resp \<noteq> 204"
  shows "resp = NotFound"
proof -
  let ?env = "Env.truncate env"
  have d: "deny s (resolve ?env s r) = NotFound" using assms(2) by (simp add: deny_def)
  have reg: "fst (handleRegister ?env s r) = NotFound"
    using assms(2) d by (auto simp: handleRegister_def mode_of_def split: option.splits if_splits)
  show ?thesis
  proof (cases "muxWouldRedirect (rq_Path r)")
    case False
    then have "resp = fst (serve_route env (mux_route mux (rq_EscapedPath r)) s r)"
      using assms(1,3-5) by (auto simp: serve_def mux_serve_def)
    then show ?thesis
      using assms(4,6) knock_denials [of ?env s r] d reg by (auto simp: serve_route_def)
  qed (use assms(1) in \<open>simp add: serve_def\<close>)
qed

theorem stealth_indistinguishable_witness:
  "let s = sample_server\<lparr>sv_cfg := sample_final\<lparr>cf_canonServices := mput mempty ''app'' (app_service\<lparr>sc_FailureMode := FailStealth\<rparr>)\<rparr>\<rparr>;
       r = (sample_knock ''POST'' respond_path)\<lparr>rq_RemoteAddr := []\<rparr>
   in map_option fst (serve (sample_mux_env (sample_env 1000 None)) s r) = Some NotFound"
proof -
  let ?c = "sample_final\<lparr>cf_canonServices := mput mempty ''app'' (app_service\<lparr>sc_FailureMode := FailStealth\<rparr>)\<rparr>"
  let ?s = "sample_server\<lparr>sv_cfg := ?c\<rparr>" and ?r = "(sample_knock ''POST'' respond_path)\<lparr>rq_RemoteAddr := []\<rparr>"
    and ?e = "sample_mux_env (sample_env 1000 None)"
  have "SplitHostPort [] = None" "Trim [] ''[]'' = []" "ParseAddr [] = None" by code_simp+
  then have p: "peerAddr ?r = None" by (simp add: peerAddr_def)
  then have res: "resolve (Env.truncate ?e) ?s ?r = None" by (simp add: resolve_def ClientIP_def)
  have "defaultFailureMode ?c = FailStealth"
    unfolding defaultFailureMode_stealth_iff
    by (rule exI [of _ "''app''"]) (simp add: Service_def failureMode_def FailStealth_def)
  then have mode: "mode_of (sv_cfg ?s) (resolve (Env.truncate ?e) ?s ?r) = FailStealth"
    unfolding res by (simp add: mode_of_def)
  have serve: "serve ?e ?s ?r = Some (deny ?s None, ?s)"
    using res by (simp add: serve_def mux_serve_def sample_routes serve_route_def handleRespond_eq)
  have "deny ?s None = NotFound"
    by (rule stealth_indistinguishable [OF serve mode, of "buildMuxLocked sample_final"])
      (simp_all add: sample_routes deny_status)
  then show ?thesis using serve by (simp add: Let_def)
qed

section \<open>Enrollment\<close>

text \<open>C19: a secret leaves the server in exactly one case: the request presents a live enrollment code
  whose token is registered. The answer then carries that token's secret and the code is gone; in
  every other case the answer is the uniform denial.\<close>

theorem secret_released_iff:
  "(\<exists>c code ec t. enroll_ok env s r c code ec t \<and> Peek (sv_codes (snd (handleEnroll env s r))) code now' = None \<and>
      fst (handleEnroll env s r) =
        NoContent [(''X-Jit-Kid'', ec_Kid ec), (''X-Jit-Secret'', B64u (tok_Secret t)),
          (''X-Jit-Origins'', Join (ec_Origins ec) '',''), (''Cache-Control'', ''no-store'')]) \<noteq>
   (fst (handleEnroll env s r) = deny s (resolve env s r))"
proof -
  obtain resp s' where h: "handleEnroll env s r = (resp, s')" by fastforce
  then show ?thesis
  proof (cases rule: handleEnroll_cases)
    case (enrolled c code ec t)
    then have "rs_Status resp = 204" by simp
    then have "resp \<noteq> deny s (resolve env s r)" using deny_status(1) by metis
    moreover have "Peek (sv_codes s') code now' = None"
      using enrolled(1,3) by (simp add: ServerProps.enrolled_def consumed_def Peek_def es_codes_Consume)
    ultimately show ?thesis using enrolled h by auto
  next
    case denied
    then show ?thesis using h deny_status(1) by (auto) (metis NoContent_status)
  next
    case (expired c code m)
    then show ?thesis using h deny_status(1) by (auto) (metis NoContent_status)
  qed
qed

section \<open>Administration and reload\<close>

text \<open>every state a run of the Authorizer reaches is well formed: the configuration is valid
  and the registry and the routing table are the ones it gives, the grants are consistent with
  their index and each is bound the way its kind asks, the rate limiter is within its bound.\<close>

theorem server_invariant:
  assumes "run evs s"
  shows "server_inv s"
  using assms by (rule server_inv_run)

theorem server_invariant_witness: "server_inv sample_knocked"
proof -
  have "run [sample_event] sample_knocked" unfolding run_def using sample_started sample_steps by blast
  then show ?thesis by (rule server_invariant)
qed

text \<open>without the admin token from a trusted proxy the admin API does nothing: the answer is 401 or
  403 and no part of the state changes, not even a counter.\<close>

theorem admin_requires_token:
  assumes "\<not> (from_proxy s r \<and> cf_AdminToken (sv_cfg s) \<noteq> [] \<and>
      TrimPrefix (Header_Get r ''Authorization'') ''Bearer '' = cf_AdminToken (sv_cfg s))"
  shows "snd (handleAdmin env s r) = s \<and> rs_Status (fst (handleAdmin env s r)) \<in> {401, 403}"
  using assms by (intro handleAdmin_unauth) (simp add: admin_auth_def)

theorem admin_requires_token_witness:
  "\<forall>env. snd (handleAdmin env sample_server (sample_knock ''POST'' ''/admin/grant'')) = sample_server"
  using admin_requires_token [of sample_server "sample_knock ''POST'' ''/admin/grant''"] by simp

text \<open>with a separate admin listener the main listener has no admin API: a request on it can add a
  grant only by a knock, and never adds an enrollment code.\<close>

theorem main_listener_has_no_admin:
  assumes "server_inv s" and "cf_AdminListen (sv_cfg s) \<noteq> []" and "serve env s r = Some (resp, s')"
  shows "(\<forall>k g. abs_grants (sv_grants s') k = Some g \<longrightarrow> abs_grants (sv_grants s) k = Some g \<or>
      (\<exists>c body nonce rnd t cookie. knock_mints (Env.truncate env) s r c body nonce rnd t g cookie)) \<and>
    (\<forall>code now. Peek (sv_codes s) code now = None \<longrightarrow> Peek (sv_codes s') code now = None)"
proof -
  have "sv_mux s = Some (buildMuxLocked (sv_cfg s))" using assms(1) by (simp add: server_inv_def)
  then have "s' = s \<or> s' = snd (serve_route env (mux_route (buildMuxLocked (sv_cfg s)) (mux_clean (rq_EscapedPath r))) s r)"
    using assms(3) by (auto simp: serve_def mux_serve_def Let_def split: if_splits)
  then show ?thesis using route_grants [OF main_routes [OF assms(2)]] by metis
qed

theorem main_listener_has_no_admin_witness:
  "\<exists>s r env resp s'. cf_AdminListen (sv_cfg s) \<noteq> [] \<and> rq_Path r = ''/admin/enroll-code'' \<and> serve env s r = Some (resp, s') \<and>
     (\<forall>code now. Peek (sv_codes s) code now = None \<longrightarrow> Peek (sv_codes s') code now = None)"
proof -
  let ?c = "sample_final\<lparr>cf_AdminListen := ''127.0.0.1:9000''\<rparr>"
  let ?s = "sample_server\<lparr>sv_cfg := ?c, sv_mux := Some (buildMuxLocked ?c)\<rparr>"
    and ?r = "sample_knock ''POST'' ''/admin/enroll-code''" and ?e = "sample_mux_env (sample_env 0 None)"
  have "config_ok ?c" using sample_ok by (simp add: config_ok_def)
  moreover have "Config_Registry ?c = Config_Registry sample_final" by (simp add: Config_Registry_def)
  ultimately have inv: "server_inv ?s" using server_inv_run [OF sample_run] by (simp add: server_inv_def)
  have "\<not> muxWouldRedirect ''/admin/enroll-code''" by code_simp
  then obtain resp s' where e: "serve ?e ?s ?r = Some (resp, s')"
    by (cases "mux_serve ?e (mux_route (buildMuxLocked ?c)) ?s ?r") (auto simp: serve_def)
  have "\<forall>code now. Peek (sv_codes ?s) code now = None \<longrightarrow> Peek (sv_codes s') code now = None"
    using main_listener_has_no_admin [OF inv _ e] by simp
  then show ?thesis using e
    by (intro exI [of _ ?s] exI [of _ ?r] exI [of _ ?e] exI [of _ resp] exI [of _ s']) simp
qed

text \<open>C20: a reload takes effect on the next request. Where forward-auth answers 204 after a reload, the request is for a knock endpoint under the new prefix, or it rests on a
  grant that survived the reload and that the new configuration still backs: the service is one the new configuration resolves to, and unless an administrator made the
  grant, the new configuration lists its token, unexpired and with the secret the grant was made with, and allows it for the service.\<close>

theorem reload_takes_effect_at_once:
  assumes "finalize c0 = Inr cfg" and "Reload s cfg = Inr s'" and "handleAuthz env s' r = (resp, s'')" and "rs_Status resp = 204"
  shows "\<exists>c. resolve env s' r = Some c \<and>
    (isProtocolURI (cf_URIPrefix cfg) (rc_uri c) \<or>
     rc_known c \<and> (\<exists>g k. abs_grants (sv_grants s) k = Some g \<and> g_Service g = rc_service c \<and> g_IP g = rc_ip c \<and> env_now env 0 < g_Exp g \<and>
       (g_Manual g \<or>
        (\<exists>tc. tc \<in> set (cf_Tokens cfg) \<and> tc_Kid tc = g_Kid g \<and> g_SecretFP g = Fingerprint (Some (token_of tc)) \<and>
           (tc_Expires tc = 0 \<or> env_now env 0 < tc_Expires tc)) \<and>
        (\<exists>sc. effective_service cfg (rc_service c) = Some sc \<and> (''*'' \<in> set (sc_Tokens sc) \<or> g_Kid g \<in> set (sc_Tokens sc))))))"
proof -
  have ok: "config_ok cfg" using finalize_config_ok [OF assms(1)] .
  from assms(2) have s': "Config_Registry cfg = Inr (sv_reg s')" "sv_grants s' = sv_grants s" "sv_cfg s' = cfg"
    by (auto simp: Reload_def split: sum.splits if_splits)
  consider c where "resolve env s' r = Some c" "isProtocolURI (cf_URIPrefix cfg) (rc_uri c)" | c g where "authz_grants env s' r c g"
    using handleAuthz_cases [OF assms(3)] assms(4) s'(3) by blast
  then show ?thesis
  proof cases
    case (2 c g)
    then have c: "resolve env s' r = Some c" "rc_known c" and a: "grant_ok (Some (sv_reg s')) (env_now env 0) (rc_service c) (rc_ip c) (grant_cookie r) g"
      "\<exists>k. abs_grants (sv_grants s) k = Some g"
      using IsAllowed_stored s'(2) unfolding authz_grants_def by auto
    have "(\<exists>tc. tc \<in> set (cf_Tokens cfg) \<and> tc_Kid tc = g_Kid g \<and> g_SecretFP g = Fingerprint (Some (token_of tc)) \<and>
           (tc_Expires tc = 0 \<or> env_now env 0 < tc_Expires tc)) \<and>
        (\<exists>sc. effective_service cfg (rc_service c) = Some sc \<and> (''*'' \<in> set (sc_Tokens sc) \<or> g_Kid g \<in> set (sc_Tokens sc)))"
      if "permits (Some (sv_reg s')) (g_Kid g) (rc_service c) (env_now env 0) t" "g_SecretFP g = Fingerprint (Some t)" for t
      using that permits_config [OF ok s'(1), THEN iffD1] by fastforce
    then show ?thesis using c a unfolding grant_ok_def by blast
  qed blast
qed

text \<open>The sample knock, a reload with the same configuration, and a page.\<close>

theorem reload_takes_effect_at_once_witness:
  "\<exists>s' g. Reload sample_knocked sample_final = Inr s' \<and>
     rs_Status (fst (handleAuthz (sample_env 2000 None) s' (sample_knock ''GET'' ''/''))) = 204 \<and>
     (\<exists>k. abs_grants (sv_grants sample_knocked) k = Some g) \<and> g_Service g = ''app'' \<and> g_IP g = ''192.0.2.1''"
proof -
  define s' where "s' = sample_knocked\<lparr>sv_cfg := sample_final, sv_reg := sample_reg, sv_mux := Some (buildMuxLocked sample_final)\<rparr>"
  have rl: "Reload sample_knocked sample_final = Inr s'"
    by (simp add: Reload_def sample_registry sample_knocked_fields s'_def)
  have a: "authz_grants (sample_env 2000 None) s' (sample_knock ''GET'' ''/'') (sample_ctx ''/'') sample_minted"
    using sample_authz resolve_cong [of s' sample_knocked] by (simp add: authz_grants_def s'_def sample_knocked_fields)
  obtain resp s'' where h: "handleAuthz (sample_env 2000 None) s' (sample_knock ''GET'' ''/'') = (resp, s'')" by fastforce
  have "from_proxy sample_knocked (sample_knock ''GET'' ''/'')"
    using sample_admitted handleAuthz_cases [of "sample_env 2000 None" sample_knocked "sample_knock ''GET'' ''/''"] by (metis NoContent_status prod.collapse)
  then have "from_proxy s' (sample_knock ''GET'' ''/'')" by (simp add: from_proxy_def s'_def sample_knocked_fields)
  then have st: "rs_Status resp = 204" using handleAuthz_cases [OF h] a by blast
  have "\<exists>g k. abs_grants (sv_grants sample_knocked) k = Some g \<and> g_Service g = ''app'' \<and> g_IP g = ''192.0.2.1''"
    using reload_takes_effect_at_once [OF sample_finalize rl h st] a unfolding authz_grants_def by (auto simp: s'_def sample_ctx_def)
  then show ?thesis using rl h st by auto
qed

text \<open>C21: an administrator's revocation cuts a client off at once. After it, every request of that client
  to that service is refused, whatever cookie it shows, however the administrator spelled the
  service and the address.\<close>

theorem admin_revoke_cuts_off:
  assumes "server_inv s" and "admin_auth s r" and "rq_Path r = ''/admin/revoke''" and "rq_Method r = ''POST''"
    and "env_revoke env 65536 (rq_Body r) = Some body" and "CanonServerName (vb_Service body) \<noteq> []"
    and "CanonIP (vb_IP body) (cf_IPv6Prefix (sv_cfg s)) 32 = Inr ip"
    and "resolve env' (snd (handleAdmin env s r)) r' = Some c" and "rc_service c = CanonServerName (vb_Service body)"
    and "rc_ip c = ip" and "\<not> isProtocolURI (cf_URIPrefix (sv_cfg s)) (rc_uri c)"
  shows "rs_Status (fst (handleAuthz env' (snd (handleAdmin env s r)) r')) = 403"
proof -
  let ?s = "snd (handleAdmin env s r)"
  have s: "?s = s\<lparr>sv_grants := snd (Revoke (sv_grants s) (rc_service c) (rc_ip c))\<rparr>"
    using assms(2-10) by (simp add: handleAdmin_auth adminRevoke_def decodeJSON_def Let_def case_prod_beta')
  have "grant_inv (sv_grants s)" using assms(1) by (simp add: server_inv_def)
  then have "IsAllowed (sv_grants ?s) (rc_service c) (rc_ip c) reg now cookie = None" for reg now cookie
    by (simp add: s IsAllowed_Revoke)
  then show ?thesis
    using assms(8,11) by (intro authz_refuses [where c = c]) (simp_all add: s)
qed

theorem admin_revoke_cuts_off_witness:
  "\<exists>s r env. rs_Status (fst (handleAuthz (sample_env 2000 None) (snd (handleAdmin env s r)) (sample_knock ''GET'' ''/''))) = 403 \<and>
     sv_grants s = sv_grants sample_knocked"
proof -
  let ?c = "sample_final\<lparr>cf_AdminToken := admin_secret\<rparr>"
  let ?s = "sample_knocked\<lparr>sv_cfg := ?c, sv_mux := Some (buildMuxLocked ?c)\<rparr>" and ?r = "sample_admin ''/admin/revoke''"
    and ?e = "(sample_mux_env (sample_env 1500 None))\<lparr>env_revoke := \<lambda>n b. Some \<lparr>vb_Service = ''APP.'', vb_IP = ''192.0.2.1''\<rparr>\<rparr>"
  have "admin_token_ok admin_secret" by code_simp
  then have "config_ok ?c" using sample_ok by (simp add: config_ok_def)
  moreover have "server_inv sample_knocked" using server_inv_steps [OF sample_steps] server_inv_run [OF sample_run] by simp
  ultimately have inv: "server_inv ?s" by (simp add: server_inv_def Config_Registry_def sample_knocked_fields)
  have auth: "admin_auth ?s ?r" by (rule sample_admin_auth) simp_all
  have names: "CanonServerName ''APP.'' = ''app''" "CanonIP ''192.0.2.1'' 128 32 = Inr ''192.0.2.1''" "cleanURIPath ''/'' = ''/''"
    by code_simp+
  have "sv_cfg (snd (handleAdmin ?e ?s ?r)) = ?c"
    by (cases rule: handleAdmin_cases [of ?e ?s ?r]) simp_all
  then have res: "resolve (sample_env 2000 None) (snd (handleAdmin ?e ?s ?r)) (sample_knock ''GET'' ''/'') = Some (sample_ctx ''/'')"
    using resolve_same_identity [of "snd (handleAdmin ?e ?s ?r)" sample_server] knock_resolve [of sample_server] names(3)
    by (simp add: same_identity_def)
  have "rs_Status (fst (handleAuthz (sample_env 2000 None) (snd (handleAdmin ?e ?s ?r)) (sample_knock ''GET'' ''/''))) = 403"
    by (rule admin_revoke_cuts_off [OF inv auth _ _ _ _ _ res, where body = "\<lparr>vb_Service = ''APP.'', vb_IP = ''192.0.2.1''\<rparr>"
          and ip = "''192.0.2.1''"]) (simp_all add: names isProtocolURI_def)
  then show ?thesis by (intro exI [of _ ?s] exI [of _ ?r] exI [of _ ?e]) simp
qed

section \<open>Routing\<close>

text \<open>the knock endpoints can be reached. Under a clean prefix other than the root, each of the four
  paths is routed to its handler on the main listener, and forward-auth calls for that same path,
  in its normal form, are the ones let through without a grant.\<close>

theorem knock_endpoints_reachable:
  assumes "server_inv s" and "p = cf_URIPrefix (sv_cfg s)" and "clean_path p" and "p \<noteq> ''/''" and "set p \<inter> set ''%?#'' = {}"
  shows "serve env s (at_path (p @ ''/challenge'') r) = Some (handleChallenge (Env.truncate env) s (at_path (p @ ''/challenge'') r)) \<and>
    serve env s (at_path (p @ ''/respond'') r) = Some (handleRespond (Env.truncate env) s (at_path (p @ ''/respond'') r)) \<and>
    serve env s (at_path (p @ ''/enroll'') r) = Some (handleEnroll (Env.truncate env) s (at_path (p @ ''/enroll'') r)) \<and>
    serve env s (at_path (p @ ''/register'') r) = Some (handleRegister (Env.truncate env) s (at_path (p @ ''/register'') r)) \<and>
    isProtocolURI p (cleanURIPath (p @ ''/challenge'')) \<and> isProtocolURI p (cleanURIPath (p @ ''/respond'')) \<and>
    isProtocolURI p (cleanURIPath (p @ ''/enroll'')) \<and> isProtocolURI p (cleanURIPath (p @ ''/register''))"
proof -
  have m: "sv_mux s = Some (buildMuxLocked (sv_cfg s))" using assms(1) by (simp add: server_inv_def)
  have pre: "mux_prefix (buildMuxLocked (sv_cfg s)) = p" using assms(2) by (simp add: buildMuxLocked_def)
  note routes = endpoint_routes [of "buildMuxLocked (sv_cfg s)", unfolded pre]
  have clean: "clean_path (p @ ''/challenge'')" "clean_path (p @ ''/respond'')" "clean_path (p @ ''/enroll'')"
    "clean_path (p @ ''/register'')"
    using clean_path_endpoint [OF assms(3,4), of "''challenge''"] clean_path_endpoint [OF assms(3,4), of "''respond''"]
      clean_path_endpoint [OF assms(3,4), of "''enroll''"] clean_path_endpoint [OF assms(3,4), of "''register''"]
    by (simp_all add: clean_name_def)
  have no: "cleanURIPath (p @ ''/challenge'') = p @ ''/challenge''" "cleanURIPath (p @ ''/respond'') = p @ ''/respond''"
    "cleanURIPath (p @ ''/enroll'') = p @ ''/enroll''" "cleanURIPath (p @ ''/register'') = p @ ''/register''"
    using clean assms(5) by (auto intro!: cleanURIPath_id)
  note served = serve_endpoint [OF m]
  show ?thesis
    using served [OF clean(1) routes(1), of env r] served [OF clean(2) routes(2), of env r] served [OF clean(3) routes(3), of env r]
      served [OF clean(4) routes(4), of env r] no
    by (simp add: serve_route_def isProtocolURI_def)
qed

theorem knock_endpoints_reachable_witness:
  "\<forall>env r. serve env sample_server (at_path respond_path r) =
     Some (handleRespond (Env.truncate env) sample_server (at_path respond_path r))"
proof -
  have "''/'' @ Join [''.well-known'', ''jit-access''] ''/'' = ''/.well-known/jit-access''" by simp
  then have "clean_path ''/.well-known/jit-access''"
    unfolding clean_path_def by (intro exI [of _ "[''.well-known'', ''jit-access'']"]) (simp add: clean_name_def)
  then show ?thesis
    using knock_endpoints_reachable [OF server_inv_run [OF sample_run] refl]
    by (simp add: respond_path_def)
qed

text \<open>C39: a configuration with the prefix \<^verbatim>\<open>/\<close> passes validation but locks every client out: no request
  path is routed to a knock endpoint, and forward-auth recognizes none.\<close>

theorem root_prefix_locks_out:
  "\<exists>c cfg. finalize c = Inr cfg \<and> cf_URIPrefix cfg = ''/'' \<and> cf_URIPrefix c = ''/'' \<and>
     (\<forall>path. mux_route (buildMuxLocked cfg) (mux_clean path) \<notin> {RChallenge, RRespond, REnroll, RRegister}) \<and>
     (\<forall>uri. \<not> isProtocolURI (cf_URIPrefix cfg) (cleanURIPath uri))"
proof -
  let ?c = "sample_final\<lparr>cf_URIPrefix := ''/''\<rparr>"
  have "Trim ''/'' ''/'' = []" "Trim [] ''/'' = []" by code_simp+
  then have "config_ok ?c" using sample_ok by (simp add: config_ok_def)
  then have "finalize ?c = Inr ?c" by (rule finalize_ok)
  moreover have "mux_route (buildMuxLocked ?c) (mux_clean path) \<notin> {RChallenge, RRespond, REnroll, RRegister}" for path
    by (rule root_prefix_unrouted) (simp add: buildMuxLocked_def)
  moreover have "\<not> isProtocolURI (cf_URIPrefix ?c) (cleanURIPath uri)" for uri
    using root_prefix_unmatched [OF clean_path_cleanURIPath] by simp
  ultimately show ?thesis by (intro exI [of _ ?c]) simp
qed

text \<open>C38: a break-glass grant on a device-bound service is reported as granted and then never honoured:
  the admin API answers 200, and forward-auth still refuses the client it was made for.\<close>

theorem admin_grant_not_honoured_on_device_bound:
  assumes "admin_mints env s r g" and "resolve env' s r' = Some c" and "rc_service c = g_Service g" and "rc_ip c = g_IP g"
    and "binding (rc_svc c) = BindingIPCookie" and "grant_cookie r' = []"
    and "\<not> isProtocolURI (cf_URIPrefix (sv_cfg s)) (rc_uri c)"
  shows "rs_Status (fst (handleAdmin env s r)) = 200 \<and>
    rs_Status (fst (handleAuthz env' (snd (handleAdmin env s r)) r')) = 403"
proof -
  have h: "handleAdmin env s r = adminGrant env s r" using assms(1) by (auto simp: admin_mints_def handleAdmin_auth)
  have st: "rs_Status (fst (handleAdmin env s r)) = 200"
    and s: "snd (handleAdmin env s r) = s\<lparr>sv_grants := Put (sv_grants s) (Some g) []\<rparr>"
    using assms(1) by (auto simp: h admin_mints_def adminGrant_def decodeJSON_def Let_def writeJSON_def)
  have g: "g_Binding g = BindingIP" using assms(1) by (auto simp: admin_mints_def adminGrantRecord_def Let_def)
  have "findGrant (Put (sv_grants s) (Some g) []) (rc_service c) (rc_ip c) [] = Some g"
    using findGrant_Put_ip [of g "[]" "sv_grants s" "[]"] assms(3,4) g by simp
  then have "IsAllowed (Put (sv_grants s) (Some g) []) (rc_service c) (rc_ip c) (Some (sv_reg s)) (env_now env' 0) [] \<in> {None, Some g}"
    by (simp add: IsAllowed_eq)
  then have "rs_Status (fst (handleAuthz env' (s\<lparr>sv_grants := Put (sv_grants s) (Some g) []\<rparr>) r')) = 403"
    using assms(2,5-7) g resolve_cong [of "s\<lparr>sv_grants := Put (sv_grants s) (Some g) []\<rparr>" s env' r']
    by (auto simp: handleAuthz_def deny_status text_error_def split: option.splits)
  then show ?thesis using st s by simp
qed

theorem admin_grant_not_honoured_on_device_bound_witness:
  "\<exists>s r env. rs_Status (fst (handleAdmin env s r)) = 200 \<and>
     rs_Status (fst (handleAuthz (sample_env 2000 None) (snd (handleAdmin env s r)) (sample_knock ''GET'' ''/''))) = 403"
proof -
  let ?svc = "app_service\<lparr>sc_Binding := BindingIPCookie\<rparr>"
  let ?c = "sample_final\<lparr>cf_AdminToken := admin_secret, cf_canonServices := mput mempty ''app'' ?svc\<rparr>"
  let ?s = "sample_server\<lparr>sv_cfg := ?c\<rparr>" and ?r = "sample_admin ''/admin/grant''"
    and ?b = "\<lparr>gb_Service = ''app'', gb_IP = ''192.0.2.1'', gb_TTL = 60, gb_Kid = []\<rparr>"
  let ?e = "(sample_mux_env (sample_env 1990 None))\<lparr>env_grant := \<lambda>n b. Some ?b\<rparr>"
  have n: "CanonServerName ''app'' = ''app''" "CanonIP ''192.0.2.1'' 128 32 = Inr ''192.0.2.1''" "cleanURIPath ''/'' = ''/''"
    by code_simp+
  have "admin_auth ?s ?r" by (rule sample_admin_auth) simp_all
  then have m: "admin_mints ?e ?s ?r (adminGrantRecord ?e ?s ?b ''app'' ''192.0.2.1'')" by (simp add: admin_mints_def n)
  have id: "same_identity ?c sample_final" by (simp add: same_identity_def)
  have res: "resolve (sample_env 2000 None) ?s (sample_knock ''GET'' ''/'') = Some ((sample_ctx ''/'')\<lparr>rc_svc := ?svc\<rparr>)"
    using identity_cong(1) [OF id] identity_cong(2) [OF id] knock_ClientIP [of "''GET''" "''/''"]
      knock_target [of "''GET''" "''/''"]
    by (simp add: resolve_def sample_env_def sample_ctx_def Service_def n(3))
  show ?thesis
    using admin_grant_not_honoured_on_device_bound [OF m res]
    by (intro exI [of _ ?s] exI [of _ ?r] exI [of _ ?e])
      (simp add: adminGrantRecord_def Let_def binding_def sample_cookie isProtocolURI_def BindingIPCookie_def)
qed

end
